(* ===== verification/Prelude.thy ===== *)
theory Prelude
  imports Main "HOL-Library.AList" "HOL-Library.Code_Target_Nat" "HOL-Library.Char_ord" "HOL-Library.List_Lexorder"
begin

text \<open>
  Shared vocabulary of the development: Python exceptions as values, the result type of code
  that may raise, sequencing of such code, insertion-ordered dictionaries, and the collections
  of rewrite rules that the component theories extend.

  A Python function that may raise is a HOL function into \<open>exn + 'a\<close>: \<open>Inl\<close> is the
  exception that leaves the function and \<open>Inr\<close> the returned value.
\<close>

section \<open>Exceptions\<close>

text \<open>
  One constructor per exception class the program raises or catches. The string is the message.
  \<open>OSError\<close> carries \<open>errno\<close>; \<open>NetconfCapabilityError\<close> carries its field
  \<open>missing\<close>; \<open>ErrorPerm\<close> is \<open>ftplib.error_perm\<close>;
  \<open>OtherException\<close> stands for any further subclass of \<open>Exception\<close> that a
  third-party library raises, named by its class.
\<close>

datatype exn =
    ValueError string
  | TypeError string
  | KeyError string
  | AttributeError string
  | PermissionError string
  | RuntimeError string
  | FileNotFoundError string
  | FileExistsError string
  | OSError "int option" string
  | ConnectionError string
  | TimeoutError string
  | EOFError string
  | SystemExit string
  | UnsafeRemotePathError string
  | LineCardStatusParseError string
  | FtpCapabilityError string
  | TransferLimitError string
  | NetconfHostKeyError string
  | NetconfCapabilityError "string list"
  | ErrorPerm string
  | SSHException string
  | AuthenticationException string
  | OtherException string string

type_synonym 'a result = "exn + 'a"

text \<open>\<open>isinstance(error, OSError)\<close>: the builtin subclasses of \<open>OSError\<close>.\<close>

fun is_os_error :: "exn \<Rightarrow> bool" where
  "is_os_error (OSError _ _) = True"
| "is_os_error (PermissionError _) = True"
| "is_os_error (FileNotFoundError _) = True"
| "is_os_error (FileExistsError _) = True"
| "is_os_error (ConnectionError _) = True"
| "is_os_error (TimeoutError _) = True"
| "is_os_error _ = False"

text \<open>\<open>isinstance(error, ValueError)\<close>: two classes of the program derive from it.\<close>

fun is_value_error :: "exn \<Rightarrow> bool" where
  "is_value_error (ValueError _) = True"
| "is_value_error (UnsafeRemotePathError _) = True"
| "is_value_error (LineCardStatusParseError _) = True"
| "is_value_error _ = False"

text \<open>\<open>except Exception\<close> catches everything here but \<open>SystemExit\<close>.\<close>

fun is_exception :: "exn \<Rightarrow> bool" where
  "is_exception (SystemExit _) = False"
| "is_exception _ = True"

text \<open>\<open>type(error).__name__\<close>.\<close>

fun exn_type_name :: "exn \<Rightarrow> string" where
  "exn_type_name (ValueError _) = ''ValueError''"
| "exn_type_name (TypeError _) = ''TypeError''"
| "exn_type_name (KeyError _) = ''KeyError''"
| "exn_type_name (AttributeError _) = ''AttributeError''"
| "exn_type_name (PermissionError _) = ''PermissionError''"
| "exn_type_name (RuntimeError _) = ''RuntimeError''"
| "exn_type_name (FileNotFoundError _) = ''FileNotFoundError''"
| "exn_type_name (FileExistsError _) = ''FileExistsError''"
| "exn_type_name (OSError _ _) = ''OSError''"
| "exn_type_name (ConnectionError _) = ''ConnectionError''"
| "exn_type_name (TimeoutError _) = ''TimeoutError''"
| "exn_type_name (EOFError _) = ''EOFError''"
| "exn_type_name (SystemExit _) = ''SystemExit''"
| "exn_type_name (UnsafeRemotePathError _) = ''UnsafeRemotePathError''"
| "exn_type_name (LineCardStatusParseError _) = ''LineCardStatusParseError''"
| "exn_type_name (FtpCapabilityError _) = ''FtpCapabilityError''"
| "exn_type_name (TransferLimitError _) = ''TransferLimitError''"
| "exn_type_name (NetconfHostKeyError _) = ''NetconfHostKeyError''"
| "exn_type_name (NetconfCapabilityError _) = ''NetconfCapabilityError''"
| "exn_type_name (ErrorPerm _) = ''error_perm''"
| "exn_type_name (SSHException _) = ''SSHException''"
| "exn_type_name (AuthenticationException _) = ''AuthenticationException''"
| "exn_type_name (OtherException n _) = n"

section \<open>Sequencing\<close>

named_theorems result_simps "rewrite rules for code that may raise"

definition and_then :: "'e + 'a \<Rightarrow> ('a \<Rightarrow> 'e + 'b) \<Rightarrow> 'e + 'b" where
  "and_then r f = (case r of Inl e \<Rightarrow> Inl e | Inr x \<Rightarrow> f x)"

lemma and_then_Inl [simp]: "and_then (Inl e) f = Inl e"
  and and_then_Inr [simp]: "and_then (Inr x) f = f x"
  by (simp_all add: and_then_def)

lemma and_then_eq_Inr [result_simps]:
  "and_then r f = Inr y \<longleftrightarrow> (\<exists>x. r = Inr x \<and> f x = Inr y)"
  by (cases r) simp_all

lemma and_then_eq_Inl [result_simps]:
  "and_then r f = Inl e \<longleftrightarrow> r = Inl e \<or> (\<exists>x. r = Inr x \<and> f x = Inl e)"
  by (cases r) simp_all

lemma and_then_cong [fundef_cong]:
  "r = r' \<Longrightarrow> (\<And>x. r' = Inr x \<Longrightarrow> f x = g x) \<Longrightarrow> and_then r f = and_then r' g"
  by (cases r') simp_all

definition is_ok :: "'e + 'a \<Rightarrow> bool" where
  "is_ok r = (case r of Inl _ \<Rightarrow> False | Inr _ \<Rightarrow> True)"

lemma is_ok_simps [simp]: "\<not> is_ok (Inl e)" "is_ok (Inr x)"
  by (simp_all add: is_ok_def)

lemma is_ok_iff: "is_ok r \<longleftrightarrow> (\<exists>x. r = Inr x)"
  by (cases r) simp_all

text \<open>\<open>if c: raise e\<close> as a step of a sequence.\<close>

definition raise_when :: "bool \<Rightarrow> 'e \<Rightarrow> 'e + unit" where
  "raise_when c e = (if c then Inl e else Inr ())"

lemma raise_when_simps [simp]: "raise_when True e = Inl e" "raise_when False e = Inr ()"
  by (simp_all add: raise_when_def)

lemma raise_when_eq [result_simps]:
  "raise_when c e = Inr u \<longleftrightarrow> \<not> c"
  "raise_when c e = Inl e' \<longleftrightarrow> c \<and> e' = e"
  by (auto simp: raise_when_def)

text \<open>A comprehension \<open>[f(x) for x in xs]\<close> whose body may raise: the first exception wins.\<close>

fun traverse :: "('a \<Rightarrow> 'e + 'b) \<Rightarrow> 'a list \<Rightarrow> 'e + 'b list" where
  "traverse f [] = Inr []"
| "traverse f (x # xs) = and_then (f x) (\<lambda>y. and_then (traverse f xs) (\<lambda>ys. Inr (y # ys)))"

lemma traverse_Inr_iff:
  "traverse f xs = Inr ys \<longleftrightarrow> list_all2 (\<lambda>x y. f x = Inr y) xs ys"
proof (induction xs arbitrary: ys)
  case (Cons x xs)
  then show ?case by (cases ys) (auto simp: result_simps)
qed auto

lemma traverse_length: "traverse f xs = Inr ys \<Longrightarrow> length ys = length xs"
  by (auto simp: traverse_Inr_iff dest: list_all2_lengthD)

lemma traverse_mem:
  assumes "traverse f xs = Inr ys" and "y \<in> set ys"
  shows "\<exists>x \<in> set xs. f x = Inr y"
  using assms by (fastforce simp: traverse_Inr_iff list_all2_conv_all_nth in_set_conv_nth)

lemma traverse_Inr_map: "(\<And>x. x \<in> set xs \<Longrightarrow> f x = Inr (g x)) \<Longrightarrow> traverse f xs = Inr (map g xs)"
  by (induction xs) auto

lemma traverse_total: "(\<And>x. x \<in> set xs \<Longrightarrow> is_ok (f x)) \<Longrightarrow> is_ok (traverse f xs)"
  by (induction xs) (fastforce simp: is_ok_iff)+

lemma traverse_not_Inr: "x \<in> set xs \<Longrightarrow> \<not> is_ok (f x) \<Longrightarrow> \<not> is_ok (traverse f xs)"
  by (induction xs) (auto simp: is_ok_iff result_simps)

lemma traverse_all: "traverse f xs = Inr ys \<Longrightarrow> (\<And>x y. f x = Inr y \<Longrightarrow> P y) \<Longrightarrow> list_all P ys"
  by (auto simp: list_all_iff dest: traverse_mem)

section \<open>Insertion-ordered dictionaries\<close>

text \<open>
  A \<open>dict\<close> is an association list with distinct keys, in insertion order. Assigning to a
  key keeps its place (\<open>AList.update\<close>); \<open>dict_of\<close> is a dict comprehension or
  \<open>dict(pairs)\<close>, where a later pair overwrites an earlier one with its key.
\<close>

type_synonym ('k, 'v) dict = "('k \<times> 'v) list"

definition dict_of :: "('k \<times> 'v) list \<Rightarrow> ('k, 'v) dict" where
  "dict_of ps = foldl (\<lambda>d (k, v). AList.update k v d) [] ps"

definition dict_get :: "('k, 'v) dict \<Rightarrow> 'k \<Rightarrow> 'v option" where
  "dict_get d k = map_of d k"

definition dict_ok :: "('k, 'v) dict \<Rightarrow> bool" where
  "dict_ok d = distinct (map fst d)"

lemma dict_of_Nil [simp]: "dict_of [] = []"
  by (simp add: dict_of_def)

lemma dict_of_snoc: "dict_of (ps @ [(k, v)]) = AList.update k v (dict_of ps)"
  by (simp add: dict_of_def)

lemma dict_ok_of [simp]: "dict_ok (dict_of ps)"
proof (induction ps rule: rev_induct)
  case (snoc p ps)
  then show ?case
    by (cases p) (simp add: dict_of_snoc dict_ok_def distinct_update)
qed (simp add: dict_ok_def)

lemma dict_get_dict_of: "dict_get (dict_of ps) k = map_of (rev ps) k"
proof (induction ps rule: rev_induct)
  case (snoc p ps)
  then show ?case
    by (cases p) (simp add: dict_of_snoc dict_get_def update_conv)
qed (simp add: dict_get_def)

lemma keys_dict_of: "fst ` set (dict_of ps) = fst ` set ps"
proof (induction ps rule: rev_induct)
  case (snoc p ps)
  then show ?case
    by (cases p) (simp add: dict_of_snoc dom_update)
qed simp

lemma update_new_key: "k \<notin> fst ` set d \<Longrightarrow> AList.update k v d = d @ [(k, v)]"
  by (induction d) auto

lemma dict_of_distinct: "distinct (map fst ps) \<Longrightarrow> dict_of ps = ps"
proof (induction ps rule: rev_induct)
  case (snoc p ps)
  then have "fst p \<notin> fst ` set (dict_of ps)" by (simp add: keys_dict_of)
  with snoc show ?case by (cases p) (simp add: dict_of_snoc update_new_key)
qed simp

lemma length_update: "length (AList.update k v d) = (if k \<in> fst ` set d then length d else Suc (length d))"
  by (induction d) auto

lemma length_dict_of_le: "length (dict_of ps) \<le> length ps"
proof (induction ps rule: rev_induct)
  case (snoc p ps)
  then show ?case by (cases p) (simp add: dict_of_snoc length_update)
qed simp

lemma length_dict_of_eq_iff: "length (dict_of ps) = length ps \<longleftrightarrow> distinct (map fst ps)"
proof (induction ps rule: rev_induct)
  case (snoc p ps)
  have "length (dict_of ps) \<le> length ps" by (rule length_dict_of_le)
  with snoc show ?case
    by (cases p) (auto simp: dict_of_snoc length_update keys_dict_of)
qed simp

lemma dict_ok_delete: "dict_ok d \<Longrightarrow> dict_ok (AList.delete k d)"
  by (simp add: dict_ok_def distinct_delete)

lemma dict_ok_update: "dict_ok d \<Longrightarrow> dict_ok (AList.update k v d)"
  by (simp add: dict_ok_def distinct_update)

lemma dict_get_delete: "dict_get (AList.delete k d) f = (if f = k then None else dict_get d f)"
  by (simp add: dict_get_def delete_conv')

lemma dict_get_update: "dict_get (AList.update k v d) f = (if f = k then Some v else dict_get d f)"
  by (simp add: dict_get_def update_conv)

end
