(* ===== verification/PyText.thy ===== *)
theory PyText
  imports Prelude
begin

text \<open>
  The string methods of Python that the program uses. Text is a list of characters, a character
  standing for the code point of its number, so the model covers text over the code points 0 to
  255 (Latin-1); on that range every predicate and case mapping below is Python's own. The one
  code point whose case folding leaves the range, U+00B5, keeps its number: no other code point
  of the range folds to it, so comparisons of folded text come out as in Python.
\<close>

abbreviation code_point :: "char \<Rightarrow> nat" where
  "code_point c \<equiv> of_char c"

section \<open>Character classes\<close>

text \<open>\<open>str.isspace\<close> and the class \<open>\s\<close> of \<open>re\<close>.\<close>

definition is_space :: "char \<Rightarrow> bool" where
  "is_space c = (let n = code_point c in
     n = 32 \<or> (9 \<le> n \<and> n \<le> 13) \<or> (28 \<le> n \<and> n \<le> 31) \<or> n = 133 \<or> n = 160)"

definition is_digit :: "char \<Rightarrow> bool" where
  "is_digit c = (48 \<le> code_point c \<and> code_point c \<le> 57)"

text \<open>\<open>str.isdigit\<close> also accepts the superscripts two, three and one.\<close>

definition is_str_digit :: "char \<Rightarrow> bool" where
  "is_str_digit c = (is_digit c \<or> code_point c \<in> {178, 179, 185})"

definition is_upper_ascii :: "char \<Rightarrow> bool" where
  "is_upper_ascii c = (65 \<le> code_point c \<and> code_point c \<le> 90)"

definition is_lower_ascii :: "char \<Rightarrow> bool" where
  "is_lower_ascii c = (97 \<le> code_point c \<and> code_point c \<le> 122)"

definition is_alnum_ascii :: "char \<Rightarrow> bool" where
  "is_alnum_ascii c = (is_digit c \<or> is_upper_ascii c \<or> is_lower_ascii c)"

text \<open>The class \<open>\w\<close> of \<open>re\<close> on \<open>str\<close>: alphanumeric code points and underscore.\<close>

definition is_word :: "char \<Rightarrow> bool" where
  "is_word c = (let n = code_point c in
     is_alnum_ascii c \<or> n = 95 \<or> n \<in> {170, 178, 179, 181, 185, 186, 188, 189, 190} \<or>
     (192 \<le> n \<and> n \<noteq> 215 \<and> n \<noteq> 247))"

text \<open>The line boundaries of \<open>str.splitlines\<close>; CR LF counts as one.\<close>

definition is_line_break :: "char \<Rightarrow> bool" where
  "is_line_break c = (let n = code_point c in
     (10 \<le> n \<and> n \<le> 13) \<or> (28 \<le> n \<and> n \<le> 30) \<or> n = 133)"

section \<open>Case\<close>

definition lower_char :: "char \<Rightarrow> char" where
  "lower_char c = (let n = code_point c in
     if (65 \<le> n \<and> n \<le> 90) \<or> (192 \<le> n \<and> n \<le> 222 \<and> n \<noteq> 215) then char_of (n + 32) else c)"

definition lower :: "string \<Rightarrow> string" where
  "lower s = map lower_char s"

text \<open>\<open>str.casefold\<close>: lower case, and sharp s becomes two letters.\<close>

fun casefold :: "string \<Rightarrow> string" where
  "casefold [] = []"
| "casefold (c # s) = (if code_point c = 223 then ''ss'' else [lower_char c]) @ casefold s"

section \<open>Stripping and searching\<close>

definition lstrip :: "string \<Rightarrow> string" where
  "lstrip s = dropWhile is_space s"

definition rstrip_of :: "(char \<Rightarrow> bool) \<Rightarrow> string \<Rightarrow> string" where
  "rstrip_of P s = rev (dropWhile P (rev s))"

definition rstrip :: "string \<Rightarrow> string" where
  "rstrip s = rstrip_of is_space s"

definition strip :: "string \<Rightarrow> string" where
  "strip s = rstrip (lstrip s)"

text \<open>\<open>not value.strip()\<close>\<close>

abbreviation blank :: "string \<Rightarrow> bool" where
  "blank s \<equiv> strip s = []"

definition starts_with :: "string \<Rightarrow> string \<Rightarrow> bool" where
  "starts_with p s = (take (length p) s = p)"

fun contains :: "string \<Rightarrow> string \<Rightarrow> bool" where
  "contains p [] = (p = [])"
| "contains p (c # s) = (starts_with p (c # s) \<or> contains p s)"

text \<open>\<open>value.removeprefix(p)\<close> and \<open>value.removesuffix(p)\<close>\<close>

definition remove_prefix :: "string \<Rightarrow> string \<Rightarrow> string" where
  "remove_prefix p s = (if starts_with p s then drop (length p) s else s)"

definition remove_suffix :: "string \<Rightarrow> string \<Rightarrow> string" where
  "remove_suffix p s = rev (remove_prefix (rev p) (rev s))"

text \<open>\<open>value.split(sep, 1)\<close> when the separator occurs.\<close>

fun split_once :: "string \<Rightarrow> string \<Rightarrow> (string \<times> string) option" where
  "split_once sep [] = None"
| "split_once sep (c # s) =
     (if starts_with sep (c # s) then Some ([], drop (length sep) (c # s))
      else map_option (\<lambda>(a, b). (c # a, b)) (split_once sep s))"

text \<open>\<open>value.split(c)\<close> on a one-character separator.\<close>

fun split_char :: "char \<Rightarrow> string \<Rightarrow> string list" where
  "split_char c [] = [[]]"
| "split_char c (x # s) =
     (if x = c then [] # split_char c s
      else (case split_char c s of [] \<Rightarrow> [[x]] | w # ws \<Rightarrow> (x # w) # ws))"

text \<open>\<open>value.split()\<close> on runs of white space.\<close>

fun split_space_aux :: "string \<Rightarrow> string \<Rightarrow> string list" where
  "split_space_aux acc [] = (if acc = [] then [] else [rev acc])"
| "split_space_aux acc (c # s) =
     (if is_space c then (if acc = [] then split_space_aux [] s else rev acc # split_space_aux [] s)
      else split_space_aux (c # acc) s)"

definition split_space :: "string \<Rightarrow> string list" where
  "split_space s = split_space_aux [] s"

text \<open>\<open>value.replace(c, new)\<close> on a one-character pattern, and CR LF to LF.\<close>

definition replace_char :: "char \<Rightarrow> string \<Rightarrow> string \<Rightarrow> string" where
  "replace_char c new s = concat (map (\<lambda>x. if x = c then new else [x]) s)"

fun crlf_to_lf :: "string \<Rightarrow> string" where
  "crlf_to_lf (x # y # s) =
     (if x = CHR 13 \<and> y = CHR 10 then CHR 10 # crlf_to_lf s else x # crlf_to_lf (y # s))"
| "crlf_to_lf s = s"

fun splitlines :: "string \<Rightarrow> string list" where
  "splitlines [] = []"
| "splitlines (c # s) =
     (if c = CHR 13 \<and> s \<noteq> [] \<and> hd s = CHR 10 then [] # splitlines (tl s)
      else if is_line_break c then [] # splitlines s
      else (case splitlines s of [] \<Rightarrow> [[c]] | w # ws \<Rightarrow> (c # w) # ws))"

fun join :: "string \<Rightarrow> string list \<Rightarrow> string" where
  "join sep [] = []"
| "join sep [x] = x"
| "join sep (x # xs) = x @ sep @ join sep xs"

section \<open>Numbers\<close>

definition digit_char :: "nat \<Rightarrow> char" where
  "digit_char d = char_of (48 + d)"

definition digit_value :: "char \<Rightarrow> nat" where
  "digit_value c = code_point c - 48"

fun str_of_nat :: "nat \<Rightarrow> string" where
  "str_of_nat n = (if n < 10 then [digit_char n] else str_of_nat (n div 10) @ [digit_char (n mod 10)])"

declare str_of_nat.simps [simp del]

definition str_of_int :: "int \<Rightarrow> string" where
  "str_of_int i = (if i < 0 then ''-'' @ str_of_nat (nat (- i)) else str_of_nat (nat i))"

definition nat_of_digits :: "string \<Rightarrow> nat" where
  "nat_of_digits s = foldl (\<lambda>n c. 10 * n + digit_value c) 0 s"

text \<open>The digits of an \<open>int\<close> literal: groups of digits with single underscores between.\<close>

definition digit_groups :: "string \<Rightarrow> bool" where
  "digit_groups s = (\<forall>g \<in> set (split_char (CHR ''_'') s). g \<noteq> [] \<and> list_all is_digit g)"

definition parse_digits :: "string \<Rightarrow> nat option" where
  "parse_digits s =
     (if digit_groups s then Some (nat_of_digits (filter (\<lambda>c. c \<noteq> CHR ''_'') s)) else None)"

text \<open>\<open>int(text)\<close>: \<open>None\<close> is the \<open>ValueError\<close>.\<close>

definition parse_int :: "string \<Rightarrow> int option" where
  "parse_int text = (case strip text of
       [] \<Rightarrow> None
     | c # s \<Rightarrow>
         if c = CHR ''-'' then map_option (\<lambda>n. - int n) (parse_digits s)
         else if c = CHR ''+'' then map_option int (parse_digits s)
         else map_option int (parse_digits (c # s)))"

section \<open>repr\<close>

definition hex_digit :: "nat \<Rightarrow> char" where
  "hex_digit d = (if d < 10 then char_of (48 + d) else char_of (87 + d))"

definition repr_char :: "char \<Rightarrow> char \<Rightarrow> string" where
  "repr_char q c = (let n = code_point c in
     if c = q \<or> n = 92 then [CHR 92, c]
     else if n = 9 then CHR 92 # ''t''
     else if n = 10 then CHR 92 # ''n''
     else if n = 13 then CHR 92 # ''r''
     else if n < 32 \<or> (127 \<le> n \<and> n \<le> 160) \<or> n = 173
       then CHR 92 # ''x'' @ [hex_digit (n div 16), hex_digit (n mod 16)]
     else [c])"

definition py_repr :: "string \<Rightarrow> string" where
  "py_repr s =
     (let q = (if CHR 39 \<in> set s \<and> CHR 34 \<notin> set s then CHR 34 else CHR 39)
      in [q] @ concat (map (repr_char q) s) @ [q])"

section \<open>Lemmas on stripping\<close>

named_theorems text_simps "facts about strip, case and searching"

lemma set_rstrip: "set (rstrip s) \<subseteq> set s"
  by (auto simp: rstrip_def rstrip_of_def dest: set_dropWhileD)

lemma set_strip: "set (strip s) \<subseteq> set s"
  using set_rstrip [of "lstrip s"] by (auto simp: strip_def lstrip_def dest: set_dropWhileD)

lemma rstrip_Nil_iff: "rstrip s = [] \<longleftrightarrow> (\<forall>c \<in> set s. is_space c)"
  by (simp add: rstrip_def rstrip_of_def dropWhile_eq_Nil_conv)

lemma blank_iff: "blank s \<longleftrightarrow> (\<forall>c \<in> set s. is_space c)"
proof -
  have "(\<forall>c \<in> set (lstrip s). is_space c) \<longleftrightarrow> (\<forall>c \<in> set s. is_space c)"
  proof
    assume *: "\<forall>c \<in> set (lstrip s). is_space c"
    have "c \<in> set (takeWhile is_space s) \<union> set (lstrip s)" if "c \<in> set s" for c
      using that unfolding lstrip_def by (metis set_append takeWhile_dropWhile_id)
    with * show "\<forall>c \<in> set s. is_space c" by (auto dest: set_takeWhileD)
  qed (auto simp: lstrip_def dest: set_dropWhileD)
  then show ?thesis by (simp add: strip_def rstrip_Nil_iff)
qed

text \<open>A text with no white space at either end.\<close>

definition trimmed :: "string \<Rightarrow> bool" where
  "trimmed s = (s = [] \<or> (\<not> is_space (hd s) \<and> \<not> is_space (last s)))"

lemma strip_trimmed: "trimmed s \<Longrightarrow> strip s = s"
proof (cases s)
  case (Cons c t)
  moreover assume "trimmed s"
  ultimately have "\<not> is_space c" "\<not> is_space (last s)" "rev s \<noteq> []" by (auto simp: trimmed_def)
  then have "dropWhile is_space s = s" "dropWhile is_space (rev s) = rev s"
    using Cons by (simp, cases "rev s") (auto simp: hd_rev [symmetric])
  then show ?thesis by (simp add: strip_def lstrip_def rstrip_def rstrip_of_def)
qed (simp add: strip_def lstrip_def rstrip_def rstrip_of_def)

lemma hd_strip: "strip s \<noteq> [] \<Longrightarrow> \<not> is_space (hd (strip s))"
proof -
  assume ne: "strip s \<noteq> []"
  obtain t where t: "lstrip s = strip s @ t"
    unfolding strip_def rstrip_def rstrip_of_def
    by (metis rev_append rev_rev_ident takeWhile_dropWhile_id)
  then have "hd (lstrip s) = hd (strip s)" "lstrip s \<noteq> []" using ne by auto
  then show ?thesis unfolding lstrip_def by (metis hd_dropWhile)
qed

lemma last_strip: "strip s \<noteq> [] \<Longrightarrow> \<not> is_space (last (strip s))"
  unfolding strip_def rstrip_def rstrip_of_def by (simp add: last_rev hd_dropWhile)

lemma trimmed_strip: "trimmed (strip s)"
  using hd_strip last_strip by (auto simp: trimmed_def)

lemma strip_idem [simp]: "strip (strip s) = strip s"
  by (rule strip_trimmed [OF trimmed_strip])

section \<open>Lemmas on case\<close>

lemma casefold_append: "casefold (s @ t) = casefold s @ casefold t"
  by (induction s) auto

lemma casefold_Nil_iff [simp]: "casefold s = [] \<longleftrightarrow> s = []"
  by (cases s) auto

lemma code_point_lower_char:
  "code_point (lower_char c) =
     (let n = code_point c in
      if (65 \<le> n \<and> n \<le> 90) \<or> (192 \<le> n \<and> n \<le> 222 \<and> n \<noteq> 215) then n + 32 else n)"
  by (simp add: lower_char_def Let_def)

lemma lower_char_idem [simp]: "lower_char (lower_char c) = lower_char c"
proof -
  have "code_point (lower_char (lower_char c)) = code_point (lower_char c)"
    unfolding code_point_lower_char Let_def by (simp split: if_split)
  then show ?thesis by simp
qed

lemma lower_idem [simp]: "lower (lower s) = lower s"
  by (simp add: lower_def)

lemma lower_char_not_sharp_s: "code_point c \<noteq> 223 \<Longrightarrow> code_point (lower_char c) \<noteq> 223"
  unfolding code_point_lower_char Let_def by (simp split: if_split)

lemma casefold_idem [simp]: "casefold (casefold s) = casefold s"
proof (induction s)
  case (Cons c s)
  have ss: "casefold ''ss'' = ''ss''" by code_simp
  have one: "casefold [lower_char c] = [lower_char c]" if "code_point c \<noteq> 223"
    using lower_char_not_sharp_s [OF that] by simp
  show ?case
  proof (cases "code_point c = 223")
    case True
    then have "casefold (c # s) = ''ss'' @ casefold s" by simp
    then show ?thesis using Cons by (simp only: casefold_append ss)
  next
    case False
    then have "casefold (c # s) = [lower_char c] @ casefold s" by simp
    then show ?thesis using Cons one [OF False] by (simp only: casefold_append)
  qed
qed simp

lemma is_space_lower_char [simp]: "is_space (lower_char c) = is_space c"
  unfolding is_space_def code_point_lower_char Let_def by (auto split: if_splits)

lemma trimmed_casefold: "trimmed s \<Longrightarrow> trimmed (casefold s)"
proof -
  assume "trimmed s"
  have s: "\<not> is_space (CHR ''s'')" by code_simp
  have fold1: "casefold [c] \<noteq> [] \<and> (\<not> is_space c \<longrightarrow> \<not> is_space (hd (casefold [c])) \<and> \<not> is_space (last (casefold [c])))" for c
    by (simp add: s)
  show ?thesis
  proof (cases "s = []")
    case False
    then have "casefold s = casefold [hd s] @ casefold (tl s)" "casefold s = casefold (butlast s) @ casefold [last s]"
      by (simp_all only: flip: casefold_append) (simp_all del: casefold.simps)
    then have "hd (casefold s) = hd (casefold [hd s])" "last (casefold s) = last (casefold [last s])"
      using fold1 by (metis hd_append2, metis last_appendR)
    with \<open>trimmed s\<close> False fold1 show ?thesis by (auto simp: trimmed_def simp del: casefold.simps)
  qed (simp add: trimmed_def)
qed

section \<open>Lemmas on prefixes\<close>

lemma starts_with_iff: "starts_with p s \<longleftrightarrow> (\<exists>t. s = p @ t)"
  by (auto simp: starts_with_def) (metis append_take_drop_id)

lemma contains_iff: "contains p s \<longleftrightarrow> (\<exists>pre post. s = pre @ p @ post)"
proof (induction s)
  case (Cons c s)
  have "(\<exists>pre post. c # s = pre @ p @ post) \<longleftrightarrow>
      (\<exists>t. c # s = p @ t) \<or> (\<exists>pre post. s = pre @ p @ post)"
    by (metis append_Cons append_Nil list.inject neq_Nil_conv)
  with Cons show ?case by (simp add: starts_with_iff)
qed simp

lemma split_once_Some:
  "split_once sep s = Some (a, b) \<Longrightarrow> s = a @ sep @ b"
proof (induction s arbitrary: a)
  case (Cons c s)
  show ?case
  proof (cases "starts_with sep (c # s)")
    case True
    then show ?thesis using Cons.prems by (auto simp: starts_with_def) (metis append_take_drop_id)
  qed (use Cons in auto)
qed simp

lemma split_once_None_iff: "sep \<noteq> [] \<Longrightarrow> split_once sep s = None \<longleftrightarrow> \<not> contains sep s"
  by (induction s) auto

lemma split_once_char: "c \<notin> set w \<Longrightarrow> split_once [c] (w @ c # z) = Some (w, z)"
  by (induction w) (auto simp: starts_with_def)

lemma split_once_no_char: "c \<notin> set w \<Longrightarrow> split_once [c] w = None"
  by (induction w) (auto simp: starts_with_def)

section \<open>Lemmas on splitting and joining\<close>

lemma split_char_no_sep: "w \<in> set (split_char c s) \<Longrightarrow> c \<notin> set w"
  by (induction s arbitrary: w) (auto split: list.splits if_splits)

lemma split_char_chars: "w \<in> set (split_char c s) \<Longrightarrow> set w \<subseteq> set s"
proof (induction s arbitrary: w)
  case (Cons x s)
  then show ?case by (fastforce split: list.splits if_splits)
qed simp

lemma split_char_nonempty [simp]: "split_char c s \<noteq> []"
  by (induction s) (auto split: list.splits)

lemma split_char_plain: "c \<notin> set w \<Longrightarrow> split_char c w = [w]"
  by (induction w) auto

lemma split_char_append: "c \<notin> set w \<Longrightarrow> split_char c (w @ c # s) = w # split_char c s"
  by (induction w) auto

lemma split_char_join:
  "ws \<noteq> [] \<Longrightarrow> (\<And>w. w \<in> set ws \<Longrightarrow> c \<notin> set w) \<Longrightarrow> split_char c (join [c] ws) = ws"
proof (induction ws)
  case (Cons w ws)
  then show ?case by (cases ws) (simp_all add: split_char_plain split_char_append)
qed simp

lemma join_chars: "set (join sep ws) \<subseteq> set sep \<union> \<Union> (set ` set ws)"
  by (induction sep ws rule: join.induct) auto

section \<open>Lemmas on decimal numbers\<close>

lemma code_point_digit_char: "d < 10 \<Longrightarrow> code_point (digit_char d) = 48 + d"
  by (simp add: digit_char_def)

lemma digits_of_nat: "list_all is_digit (str_of_nat n) \<and> str_of_nat n \<noteq> []"
proof (induction n rule: str_of_nat.induct)
  case (1 n)
  have d: "is_digit (digit_char m)" if "m < 10" for m
    using that by (simp add: is_digit_def code_point_digit_char)
  show ?case
  proof (cases "n < 10")
    case True
    then show ?thesis by (simp add: str_of_nat.simps [of n] d)
  next
    case False
    then show ?thesis using 1 d [of "n mod 10"] by (simp add: str_of_nat.simps [of n])
  qed
qed

lemma nat_of_digits_of_nat: "nat_of_digits (str_of_nat n) = n"
proof (induction n rule: str_of_nat.induct)
  case (1 n)
  show ?case
  proof (cases "n < 10")
    case True
    then show ?thesis by (simp add: str_of_nat.simps [of n] nat_of_digits_def digit_value_def code_point_digit_char)
  next
    case False
    then show ?thesis using 1
      by (simp add: str_of_nat.simps [of n] nat_of_digits_def digit_value_def code_point_digit_char)
  qed
qed

lemma digit_not_special: "is_digit c \<Longrightarrow> \<not> is_space c \<and> c \<noteq> CHR ''_'' \<and> c \<noteq> CHR ''-'' \<and> c \<noteq> CHR ''+''"
  by (auto simp: is_digit_def is_space_def Let_def)

lemma parse_int_str_of_nat: "parse_int (str_of_nat n) = Some (int n)"
proof -
  have d: "list_all is_digit (str_of_nat n)" "str_of_nat n \<noteq> []" using digits_of_nat by simp_all
  have each: "c \<in> set (str_of_nat n) \<Longrightarrow> is_digit c" for c using d(1) by (simp add: list_all_iff)
  have "trimmed (str_of_nat n)"
    using d(2) each digit_not_special by (simp add: trimmed_def)
  then have strip: "strip (str_of_nat n) = str_of_nat n" by (rule strip_trimmed)
  have "split_char (CHR ''_'') (str_of_nat n) = [str_of_nat n]"
    using each digit_not_special by (intro split_char_plain) blast
  moreover have "filter (\<lambda>c. c \<noteq> CHR ''_'') (str_of_nat n) = str_of_nat n"
    using each digit_not_special by (auto simp: filter_id_conv)
  ultimately have digits: "parse_digits (str_of_nat n) = Some n"
    using d by (simp add: parse_digits_def digit_groups_def nat_of_digits_of_nat)
  obtain c s where cs: "str_of_nat n = c # s" using d(2) by (cases "str_of_nat n") auto
  then have "c \<noteq> CHR ''-''" "c \<noteq> CHR ''+''" using each [of c] digit_not_special by auto
  with strip digits cs show ?thesis by (simp add: parse_int_def)
qed

end
