(* ===== verification/Verify.thy ===== *)
theory Verify
  imports PyText
begin

text \<open>
  Output verification: the result types of \<open>cli_tool/models.py\<close>, the token matcher of
  \<open>cli_tool/parsers/text_tokens.py\<close>, the verification workflow of
  \<open>cli_tool/workflows/verify.py\<close>, and the transport protocol of
  \<open>cli_tool/transport/base.py\<close> as a locale.
\<close>

section \<open>Results (models.py)\<close>

record cli_command_output =
  out_command :: string
  out_output :: string

record cli_command_verification =
  ver_command :: string
  ver_output :: string
  ver_expected :: "string list"
  ver_missing :: "string list"
  ver_errors :: "string list"

definition verification_passed :: "cli_command_verification \<Rightarrow> bool" where
  "verification_passed v = (ver_missing v = [] \<and> ver_errors v = [])"

record cli_verify_result =
  verifications :: "cli_command_verification list"

definition result_passed :: "cli_verify_result \<Rightarrow> bool" where
  "result_passed r = list_all verification_passed (verifications r)"

definition missing_by_command :: "cli_verify_result \<Rightarrow> (string, string list) dict" where
  "missing_by_command r =
     dict_of (map (\<lambda>v. (ver_command v, ver_missing v))
       (filter (\<lambda>v. ver_missing v \<noteq> []) (verifications r)))"

definition validation_errors_by_command :: "cli_verify_result \<Rightarrow> (string, string list) dict" where
  "validation_errors_by_command r =
     dict_of (map (\<lambda>v. (ver_command v, ver_errors v))
       (filter (\<lambda>v. ver_errors v \<noteq> []) (verifications r)))"

definition output_by_command :: "cli_verify_result \<Rightarrow> (string, string) dict" where
  "output_by_command r = dict_of (map (\<lambda>v. (ver_command v, ver_output v)) (verifications r))"

text \<open>Every caller passes strings, so only the empty string is dropped.\<close>

definition tuple_of_strings :: "string list \<Rightarrow> string list" where
  "tuple_of_strings values = filter (\<lambda>v. v \<noteq> []) values"

section \<open>Token matching (text_tokens.py)\<close>

definition normalize_text :: "string \<Rightarrow> string" where
  "normalize_text s = replace_char (CHR 13) [CHR 10] (crlf_to_lf s)"

definition missing_tokens :: "string \<Rightarrow> string list \<Rightarrow> bool \<Rightarrow> string list" where
  "missing_tokens output expected case_sensitive =
     (let haystack = (if case_sensitive then normalize_text output else casefold (normalize_text output))
      in filter (\<lambda>token. token \<noteq> [] \<and>
           \<not> contains (if case_sensitive then normalize_text token else casefold (normalize_text token))
                haystack) expected)"

section \<open>Verification (verify.py)\<close>

definition verify_output_tokens ::
  "string \<Rightarrow> string \<Rightarrow> string list \<Rightarrow> bool \<Rightarrow> cli_command_verification" where
  "verify_output_tokens command output expected_tokens case_sensitive =
     (let expected = tuple_of_strings expected_tokens
      in \<lparr>ver_command = command, ver_output = output, ver_expected = expected,
          ver_missing = missing_tokens output expected case_sensitive,
          ver_errors = (if \<not> blank output then [] else [''CLI output is empty''])\<rparr>)"

text \<open>The two shapes that \<open>outputs\<close> may have: a mapping, or an iterable of outputs.\<close>

datatype cli_outputs = OutputMap "(string, string) dict" | OutputSeq "cli_command_output list"

fun coerce_output_by_command :: "cli_outputs \<Rightarrow> (string, string) dict" where
  "coerce_output_by_command (OutputMap m) = dict_of m"
| "coerce_output_by_command (OutputSeq xs) = dict_of (map (\<lambda>x. (out_command x, out_output x)) xs)"

definition get_output :: "(string, string) dict \<Rightarrow> string \<Rightarrow> string" where
  "get_output d command = (case dict_get d command of None \<Rightarrow> [] | Some out \<Rightarrow> out)"

definition verify_cli_outputs ::
  "cli_outputs \<Rightarrow> (string, string list) dict \<Rightarrow> bool \<Rightarrow> cli_verify_result" where
  "verify_cli_outputs outputs expected_by_command case_sensitive =
     (let by_command = coerce_output_by_command outputs
      in \<lparr>verifications =
           map (\<lambda>(command, tokens).
                  verify_output_tokens command (get_output by_command command) tokens case_sensitive)
             expected_by_command\<rparr>)"

text \<open>
  A transport runs commands against a state of the outside world \<open>'w\<close>; the optional
  owner is a label of the caller.
\<close>

type_synonym 'w transport =
  "'w \<Rightarrow> string list \<Rightarrow> string option \<Rightarrow> cli_command_output list result \<times> 'w"

definition run_and_verify ::
  "'w transport \<Rightarrow> 'w \<Rightarrow> string list \<Rightarrow> (string, string list) dict \<Rightarrow> string option \<Rightarrow> bool
    \<Rightarrow> cli_verify_result result \<times> 'w" where
  "run_and_verify run w commands expected owner case_sensitive =
     (case run w commands owner of
        (Inl e, w') \<Rightarrow> (Inl e, w')
      | (Inr outs, w') \<Rightarrow> (Inr (verify_cli_outputs (OutputSeq outs) expected case_sensitive), w'))"

section \<open>What passing means\<close>

text \<open>The reference notion: the text shows the token, modulo line endings and case.\<close>

definition shows_token :: "bool \<Rightarrow> string \<Rightarrow> string \<Rightarrow> bool" where
  "shows_token case_sensitive output token =
     (let f = (\<lambda>s. if case_sensitive then normalize_text s else casefold (normalize_text s))
      in \<exists>pre post. f output = pre @ f token @ post)"

lemma verification_passed_iff:
  "verification_passed (verify_output_tokens command output tokens cs) \<longleftrightarrow>
   \<not> blank output \<and> (\<forall>t \<in> set tokens. t \<noteq> [] \<longrightarrow> shows_token cs output t)"
  by (auto simp: verification_passed_def verify_output_tokens_def missing_tokens_def
      tuple_of_strings_def shows_token_def contains_iff Let_def filter_empty_conv)

lemma result_passed_verify_iff:
  "result_passed (verify_cli_outputs outputs expected cs) \<longleftrightarrow>
   (\<forall>(command, tokens) \<in> set expected.
      \<not> blank (get_output (coerce_output_by_command outputs) command) \<and>
      (\<forall>t \<in> set tokens. t \<noteq> [] \<longrightarrow>
         shows_token cs (get_output (coerce_output_by_command outputs) command) t))"
  by (auto simp: result_passed_def verify_cli_outputs_def list_all_iff verification_passed_iff Let_def)

lemma get_output_seq:
  "get_output (coerce_output_by_command (OutputSeq xs)) c =
     (case map_of (rev (map (\<lambda>x. (out_command x, out_output x)) xs)) c of None \<Rightarrow> [] | Some out \<Rightarrow> out)"
  by (simp add: get_output_def dict_get_dict_of)

lemma verify_cli_outputs_commands:
  "map ver_command (verifications (verify_cli_outputs outs expected cs)) = map fst expected"
  by (simp add: verify_cli_outputs_def verify_output_tokens_def Let_def case_prod_unfold)

section \<open>The transport protocol (transport/base.py)\<close>

text \<open>
  What every transport promises its clients: a run that returns gives one output for each
  command, in the order of the commands.
\<close>

locale cli_transport =
  fixes run :: "'w transport"
  assumes run_commands_order: "run w commands owner = (Inr outs, w') \<Longrightarrow> map out_command outs = commands"
begin

lemma outputs_length: "run w commands owner = (Inr outs, w') \<Longrightarrow> length outs = length commands"
  by (metis length_map run_commands_order)

text \<open>The output checked for a command is the one of its last occurrence.\<close>

lemma output_of_last:
  assumes "run w commands owner = (Inr outs, w')" and "i < length commands"
    and "\<And>j. i < j \<Longrightarrow> j < length commands \<Longrightarrow> commands ! j \<noteq> commands ! i"
  shows "get_output (coerce_output_by_command (OutputSeq outs)) (commands ! i) = out_output (outs ! i)"
proof -
  have cmds: "commands = map out_command outs" using run_commands_order [OF assms(1)] by simp
  let ?xs = "map (\<lambda>x. (out_command x, out_output x)) outs"
  have i: "i < length outs" using assms(2) cmds by simp
  then have split: "?xs = take i ?xs @ (commands ! i, out_output (outs ! i)) # drop (Suc i) ?xs"
    by (metis (no_types, lifting) cmds id_take_nth_drop length_map nth_map)
  have "commands ! i \<notin> fst ` set (drop (Suc i) ?xs)"
  proof
    assume "commands ! i \<in> fst ` set (drop (Suc i) ?xs)"
    then obtain k where "k < length outs - Suc i" "commands ! i = out_command (outs ! (Suc i + k))"
      by (auto simp: in_set_conv_nth drop_map)
    moreover from this have "Suc i + k < length outs" by linarith
    ultimately show False using assms(3) [of "Suc i + k"] cmds by auto
  qed
  then have "map_of (rev (drop (Suc i) ?xs)) (commands ! i) = None"
    by (simp add: map_of_eq_None_iff)
  then have "map_of (rev ?xs) (commands ! i) = Some (out_output (outs ! i))"
    by (subst split) (simp add: map_add_def del: drop_map rev_map)
  then show ?thesis by (simp only: get_output_seq) simp
qed

lemma run_and_verify_passed:
  assumes "run_and_verify run w commands expected owner cs = (Inr r, w')" and "result_passed r"
    and "distinct commands" and "i < length commands" and "(commands ! i, tokens) \<in> set expected"
  shows "\<exists>outs. run w commands owner = (Inr outs, w') \<and> \<not> blank (out_output (outs ! i)) \<and>
    (\<forall>t \<in> set tokens. t \<noteq> [] \<longrightarrow> shows_token cs (out_output (outs ! i)) t)"
proof -
  obtain outs where run: "run w commands owner = (Inr outs, w')"
    and r: "r = verify_cli_outputs (OutputSeq outs) expected cs"
    using assms(1) by (auto simp: run_and_verify_def split: prod.splits sum.splits)
  have "get_output (coerce_output_by_command (OutputSeq outs)) (commands ! i) = out_output (outs ! i)"
    using output_of_last [OF run assms(4)] assms(3,4) by (metis less_not_refl nth_eq_iff_index_eq)
  with assms(2,5) r run show ?thesis
    by (fastforce simp: result_passed_verify_iff)
qed

end

section \<open>Properties\<close>

text \<open>C17. A verification result passes exactly when, for every expected command, the output recorded
  for it is not blank and shows every non-empty expected token (up to line endings, and up to
  case when matching is case-insensitive); a command without an output fails.\<close>

theorem verify_cli_outputs_passed_iff:
  "result_passed (verify_cli_outputs outputs expected cs) =
   list_all (\<lambda>(command, tokens).
      (let out = get_output (coerce_output_by_command outputs) command
       in \<not> blank out \<and> list_all (shows_token cs out) (filter (\<lambda>t. t \<noteq> []) tokens))) expected"
  by (auto simp: result_passed_verify_iff list_all_iff Let_def)

end
