(* ===== verification/Catalog.thy ===== *)
theory Catalog
  imports Verify
begin

text \<open>
  The command catalog (\<open>cli_tool/catalog/models.py\<close>), the device driver
  (\<open>cli_tool/devices/base.py\<close>), the driver registry (\<open>cli_tool/devices/registry.py\<close>) and
  the driver verification workflow (\<open>cli_tool/workflows/driver_verify.py\<close>).
\<close>

section \<open>Command templates\<close>

text \<open>
  \<open>template.format_map(_StrictFormatParams(params))\<close>. A doubled brace is a literal brace. A
  replacement field that is a plain name is replaced by the parameter of that name. A field with
  an attribute, an index, a conversion or a format specification belongs to the rest of the
  format language, the argument \<open>special\<close>: given the parameters and the text after the opening
  brace it returns the field's value and the length of the field.
\<close>

definition lbrace :: char where "lbrace = CHR 123"
definition rbrace :: char where "rbrace = CHR 125"

type_synonym params = "(string, string) dict"
type_synonym special_field = "params \<Rightarrow> string \<Rightarrow> (string \<times> nat) result"

definition name_char :: "char \<Rightarrow> bool" where
  "name_char c = (c \<notin> set ''[!:'' \<union> {lbrace, rbrace})"

definition single_brace :: "char \<Rightarrow> exn" where
  "single_brace c = ValueError (''Single '' @ py_repr [c] @ '' encountered in format string'')"

definition format_field :: "params \<Rightarrow> string \<Rightarrow> string result" where
  "format_field ps name =
     (if list_all is_digit name then Inl (ValueError ''Format string contains positional fields'')
      else (case dict_get ps name of
              Some v \<Rightarrow> Inr v
            | None \<Rightarrow> Inl (KeyError (''missing command template parameter: '' @ name))))"

definition field_name :: "string \<Rightarrow> string" where
  "field_name t = takeWhile name_char t"

definition after_name :: "string \<Rightarrow> string" where
  "after_name t = dropWhile name_char t"

lemma after_name_shorter: "after_name t = e # rest \<Longrightarrow> length rest < Suc (length t)"
  unfolding after_name_def by (metis length_Cons length_dropWhile_le less_Suc_eq_le Suc_leD)

function format_map :: "special_field \<Rightarrow> params \<Rightarrow> string \<Rightarrow> string result" where
  "format_map special ps s =
     (case s of
        [] \<Rightarrow> Inr []
      | c # t \<Rightarrow>
          if c = lbrace then
            (case t of
               [] \<Rightarrow> Inl (single_brace lbrace)
             | d # u \<Rightarrow>
                 if d = lbrace then and_then (format_map special ps u) (\<lambda>r. Inr (lbrace # r))
                 else
                   let name = field_name t
                   in (case after_name t of
                         [] \<Rightarrow> Inl (ValueError (''expected '' @ py_repr [rbrace] @ '' before end of string''))
                       | e # rest \<Rightarrow>
                           if e = rbrace \<and> CHR ''.'' \<notin> set name then
                             and_then (format_field ps name) (\<lambda>v.
                             and_then (format_map special ps rest) (\<lambda>r. Inr (v @ r)))
                           else if e = lbrace
                           then Inl (ValueError (''unexpected '' @ py_repr [lbrace] @ '' in field name''))
                           else
                             and_then (special ps t) (\<lambda>(v, n).
                             and_then (format_map special ps (drop (Suc n) t)) (\<lambda>r. Inr (v @ r)))))
          else if c = rbrace then
            (case t of
               [] \<Rightarrow> Inl (single_brace rbrace)
             | d # u \<Rightarrow>
                 if d = rbrace then and_then (format_map special ps u) (\<lambda>r. Inr (rbrace # r))
                 else Inl (single_brace rbrace))
          else and_then (format_map special ps t) (\<lambda>r. Inr (c # r)))"
  by pat_completeness auto
termination
  by (relation "measure (\<lambda>(special, ps, s). length s)") (auto dest: after_name_shorter)

declare format_map.simps [simp del]

section \<open>Command specifications (catalog/models.py)\<close>

record command_spec =
  command_id :: string
  spec_readonly :: bool
  spec_mode :: string
  spec_command :: "string option"
  spec_commands :: "string list"
  spec_expected :: "string list"

text \<open>\<open>self.command\<close> is true when it is a non-empty string.\<close>

definition has_command :: "command_spec \<Rightarrow> bool" where
  "has_command spec = (case spec_command spec of None \<Rightarrow> False | Some c \<Rightarrow> c \<noteq> [])"

definition post_init :: "command_spec \<Rightarrow> command_spec result" where
  "post_init spec =
     (if has_command spec \<and> spec_commands spec \<noteq> []
        then Inl (ValueError (command_id spec @ '' cannot define both command and commands''))
      else if \<not> has_command spec \<and> spec_commands spec = []
        then Inl (ValueError (command_id spec @ '' must define command or commands''))
      else if command_id spec = [] then Inl (ValueError ''command_id is required'')
      else Inr spec)"

definition spec_templates :: "command_spec \<Rightarrow> string list" where
  "spec_templates spec =
     (if spec_commands spec \<noteq> [] then spec_commands spec
      else [case spec_command spec of None \<Rightarrow> [] | Some c \<Rightarrow> c])"

definition spec_build_commands ::
  "special_field \<Rightarrow> command_spec \<Rightarrow> params \<Rightarrow> string list result" where
  "spec_build_commands special spec ps = traverse (format_map special ps) (spec_templates spec)"

definition spec_build_expected ::
  "special_field \<Rightarrow> command_spec \<Rightarrow> params \<Rightarrow> string list result" where
  "spec_build_expected special spec ps = traverse (format_map special ps) (spec_expected spec)"

section \<open>Catalog\<close>

type_synonym catalog = "(string, command_spec) dict"

definition command_catalog :: "command_spec list \<Rightarrow> catalog result" where
  "command_catalog specs =
     (let d = dict_of (map (\<lambda>spec. (command_id spec, spec)) specs)
      in if length d \<noteq> length specs then Inl (ValueError ''command_id values must be unique'') else Inr d)"

definition catalog_get :: "catalog \<Rightarrow> string \<Rightarrow> command_spec result" where
  "catalog_get cat cid =
     (case dict_get cat cid of Some spec \<Rightarrow> Inr spec | None \<Rightarrow> Inl (KeyError (''unknown command_id: '' @ cid)))"

definition catalog_build_commands ::
  "special_field \<Rightarrow> catalog \<Rightarrow> string \<Rightarrow> params \<Rightarrow> string list result" where
  "catalog_build_commands special cat cid ps =
     and_then (catalog_get cat cid) (\<lambda>spec. spec_build_commands special spec ps)"

definition catalog_build_expected ::
  "special_field \<Rightarrow> catalog \<Rightarrow> string \<Rightarrow> params \<Rightarrow> string list result" where
  "catalog_build_expected special cat cid ps =
     and_then (catalog_get cat cid) (\<lambda>spec. spec_build_expected special spec ps)"

section \<open>Device driver (devices/base.py)\<close>

record device_driver =
  drv_family :: string
  drv_model :: string
  drv_catalog :: catalog

definition driver_normalize_output :: "device_driver \<Rightarrow> string \<Rightarrow> string \<Rightarrow> string" where
  "driver_normalize_output drv command output = output"

definition enter_config_mode :: "string list" where "enter_config_mode = [''configure'']"

definition exit_config_mode :: "string list" where "exit_config_mode = [''exit'']"

definition build_driver :: "string \<Rightarrow> string \<Rightarrow> command_spec list \<Rightarrow> device_driver result" where
  "build_driver family model specs =
     and_then (command_catalog specs)
       (\<lambda>cat. Inr \<lparr>drv_family = family, drv_model = model, drv_catalog = cat\<rparr>)"

section \<open>Driver registry (devices/registry.py)\<close>

record device_registry =
  reg_drivers :: "(string \<times> string, device_driver) dict"
  reg_defaults :: "(string, device_driver) dict"

definition empty_registry :: device_registry where
  "empty_registry = \<lparr>reg_drivers = [], reg_defaults = []\<rparr>"

definition normalize_name :: "string \<Rightarrow> string" where
  "normalize_name value = casefold (strip value)"

definition driver_key :: "string \<Rightarrow> string \<Rightarrow> string \<times> string" where
  "driver_key family model = (normalize_name family, normalize_name model)"

definition registry_register :: "device_registry \<Rightarrow> device_driver \<Rightarrow> bool \<Rightarrow> device_registry result" where
  "registry_register reg drv default_for_family =
     (let key = driver_key (drv_family drv) (drv_model drv)
      in if dict_get (reg_drivers reg) key \<noteq> None
         then Inl (ValueError (''driver already registered for '' @ drv_family drv @ ''/'' @ drv_model drv))
         else
           let reg1 = reg\<lparr>reg_drivers := AList.update key drv (reg_drivers reg)\<rparr>
           in Inr (if default_for_family
                   then reg1\<lparr>reg_defaults := AList.update (normalize_name (drv_family drv)) drv (reg_defaults reg1)\<rparr>
                   else reg1))"

definition registry_resolve :: "device_registry \<Rightarrow> string \<Rightarrow> string option \<Rightarrow> device_driver result" where
  "registry_resolve reg family model =
     (let fam = normalize_name family;
          exact = (case model of
                     None \<Rightarrow> None
                   | Some m \<Rightarrow> if m = [] then None else dict_get (reg_drivers reg) (fam, normalize_name m));
          model_repr = (case model of None \<Rightarrow> ''None'' | Some m \<Rightarrow> py_repr m)
      in case exact of
           Some drv \<Rightarrow> Inr drv
         | None \<Rightarrow>
             (case dict_get (reg_defaults reg) fam of
                Some drv \<Rightarrow> Inr drv
              | None \<Rightarrow> Inl (KeyError (''no driver registered for family='' @ py_repr family @ '', model='' @ model_repr))))"

section \<open>Driver verification (workflows/driver\_verify.py)\<close>

definition run_driver_verify ::
  "special_field \<Rightarrow> 'w transport \<Rightarrow> device_driver \<Rightarrow> 'w \<Rightarrow> string \<Rightarrow> params \<Rightarrow>
     string option \<Rightarrow> bool \<Rightarrow> cli_verify_result result \<times> 'w" where
  "run_driver_verify special run drv w cid ps owner case_sensitive =
     (case catalog_get (drv_catalog drv) cid of
        Inl e \<Rightarrow> (Inl e, w)
      | Inr spec \<Rightarrow>
          if \<not> spec_readonly spec
          then (Inl (ValueError (cid @ '' is not readonly; use a protected configure workflow'')), w)
          else
            (case catalog_build_commands special (drv_catalog drv) cid ps of
               Inl e \<Rightarrow> (Inl e, w)
             | Inr commands \<Rightarrow>
                 (case catalog_build_expected special (drv_catalog drv) cid ps of
                    Inl e \<Rightarrow> (Inl e, w)
                  | Inr tokens \<Rightarrow>
                      run_and_verify run w commands
                        (dict_of (map (\<lambda>command. (command, tokens)) commands)) owner case_sensitive)))"

section \<open>Templates: printing and filling in\<close>

text \<open>
  A template as its author thinks of it: literal text and named fields. Printed with braces
  doubled and read back by the formatter it gives the text with each field replaced.
\<close>

datatype piece = Literal string | Field string

fun escape_braces :: "string \<Rightarrow> string" where
  "escape_braces [] = []"
| "escape_braces (c # s) = (if c = lbrace \<or> c = rbrace then [c, c] else [c]) @ escape_braces s"

fun print_piece :: "piece \<Rightarrow> string" where
  "print_piece (Literal w) = escape_braces w"
| "print_piece (Field name) = [lbrace] @ name @ [rbrace]"

fun fill_piece :: "params \<Rightarrow> piece \<Rightarrow> string result" where
  "fill_piece ps (Literal w) = Inr w"
| "fill_piece ps (Field name) = format_field ps name"

definition field_ok :: "string \<Rightarrow> bool" where
  "field_ok name = (name \<noteq> [] \<and> list_all name_char name \<and> CHR ''.'' \<notin> set name)"

fun piece_ok :: "piece \<Rightarrow> bool" where
  "piece_ok (Literal w) = True"
| "piece_ok (Field name) = field_ok name"

lemma brace_facts [simp]: "lbrace \<noteq> rbrace" "rbrace \<noteq> lbrace" "\<not> name_char lbrace" "\<not> name_char rbrace"
  by (simp_all add: lbrace_def rbrace_def name_char_def)

lemma name_char_not_brace: "name_char c \<Longrightarrow> c \<noteq> lbrace"
  by auto

lemma format_map_Nil [simp]: "format_map special ps [] = Inr []"
  by (simp add: format_map.simps)

lemma format_map_plain:
  "c \<noteq> lbrace \<Longrightarrow> c \<noteq> rbrace \<Longrightarrow>
   format_map special ps (c # s) = and_then (format_map special ps s) (\<lambda>r. Inr (c # r))"
  by (subst format_map.simps) simp

lemma format_map_doubled:
  "c = lbrace \<or> c = rbrace \<Longrightarrow>
   format_map special ps (c # c # s) = and_then (format_map special ps s) (\<lambda>r. Inr (c # r))"
  by (subst format_map.simps) auto

lemma and_then_assoc: "and_then (and_then r f) g = and_then r (\<lambda>x. and_then (f x) g)"
  by (cases r) simp_all

lemma format_map_literal:
  "format_map special ps (escape_braces w @ s) = and_then (format_map special ps s) (\<lambda>r. Inr (w @ r))"
proof (induction w)
  case Nil
  then show ?case by (cases "format_map special ps s") simp_all
next
  case (Cons c w)
  show ?case
  proof (cases "c = lbrace \<or> c = rbrace")
    case True
    with Cons show ?thesis by (auto simp: format_map_doubled and_then_assoc)
  next
    case False
    with Cons show ?thesis by (auto simp: format_map_plain and_then_assoc)
  qed
qed

lemma format_map_named:
  assumes "field_ok name"
  shows "format_map special ps (lbrace # name @ rbrace # s) =
    and_then (format_field ps name) (\<lambda>v. and_then (format_map special ps s) (\<lambda>r. Inr (v @ r)))"
proof -
  have "field_name (name @ rbrace # s) = name" "after_name (name @ rbrace # s) = rbrace # s"
    using assms by (simp_all add: field_ok_def field_name_def after_name_def list_all_iff
        takeWhile_append2 dropWhile_append2)
  moreover obtain d u where "name = d # u" "d \<noteq> lbrace"
    using assms by (cases name) (auto simp: field_ok_def dest: name_char_not_brace)
  ultimately show ?thesis
    using assms by (subst format_map.simps) (simp add: field_ok_def)
qed

lemma format_map_print:
  "list_all piece_ok pieces \<Longrightarrow>
   format_map special ps (concat (map print_piece pieces)) =
     and_then (traverse (fill_piece ps) pieces) (\<lambda>ws. Inr (concat ws))"
proof (induction pieces)
  case (Cons p pieces)
  then show ?case
    by (cases p) (simp_all add: format_map_literal format_map_named and_then_assoc)
qed simp

section \<open>Lemmas: catalog and registry\<close>

lemma post_init_Inr_iff:
  "post_init spec = Inr spec' \<longleftrightarrow>
   spec' = spec \<and> command_id spec \<noteq> [] \<and> (has_command spec \<longleftrightarrow> spec_commands spec = [])"
  by (auto simp: post_init_def)

lemma command_catalog_Inr_iff:
  "command_catalog specs = Inr cat \<longleftrightarrow>
   distinct (map command_id specs) \<and> cat = map (\<lambda>spec. (command_id spec, spec)) specs"
proof -
  let ?ps = "map (\<lambda>spec. (command_id spec, spec)) specs"
  have "map fst ?ps = map command_id specs" by simp
  then have "distinct (map command_id specs) \<Longrightarrow> dict_of ?ps = ?ps"
    and "length (dict_of ?ps) = length specs \<longleftrightarrow> distinct (map command_id specs)"
    using length_dict_of_eq_iff [of ?ps] dict_of_distinct [of ?ps] by (simp_all only: length_map)
  then show ?thesis by (auto simp: command_catalog_def Let_def)
qed

lemma catalog_get_built:
  assumes "command_catalog specs = Inr cat"
  shows "catalog_get cat cid = Inr spec \<longleftrightarrow> spec \<in> set specs \<and> command_id spec = cid"
proof -
  from assms have d: "distinct (map fst cat)" and cat: "cat = map (\<lambda>spec. (command_id spec, spec)) specs"
    by (auto simp: command_catalog_Inr_iff comp_def)
  have "catalog_get cat cid = Inr spec \<longleftrightarrow> map_of cat cid = Some spec"
    by (simp add: catalog_get_def dict_get_def split: option.split)
  also have "\<dots> \<longleftrightarrow> (cid, spec) \<in> set cat" using d by (rule map_of_eq_Some_iff)
  finally show ?thesis by (auto simp: cat)
qed

text \<open>Keys of the registry do not change when they are normalised again.\<close>

lemma normalize_name_idem [simp]: "normalize_name (normalize_name s) = normalize_name s"
  by (simp add: normalize_name_def strip_trimmed trimmed_casefold trimmed_strip)

definition registry_ok :: "device_registry \<Rightarrow> bool" where
  "registry_ok reg =
     (dict_ok (reg_drivers reg) \<and> dict_ok (reg_defaults reg) \<and>
      (\<forall>(key, drv) \<in> set (reg_drivers reg). key = driver_key (drv_family drv) (drv_model drv)) \<and>
      (\<forall>(fam, drv) \<in> set (reg_defaults reg).
         fam = normalize_name (drv_family drv) \<and>
         dict_get (reg_drivers reg) (driver_key (drv_family drv) (drv_model drv)) = Some drv))"

lemma dict_get_mem: "dict_ok d \<Longrightarrow> dict_get d k = Some v \<longleftrightarrow> (k, v) \<in> set d"
  by (simp add: dict_get_def dict_ok_def)

lemma registry_ok_empty: "registry_ok empty_registry"
  by (simp add: registry_ok_def empty_registry_def dict_ok_def)

lemma set_update_subset: "set (AList.update k v d) \<subseteq> insert (k, v) (set d)"
  by (induction d) auto

lemma registry_ok_register:
  assumes "registry_ok reg" and "registry_register reg drv dflt = Inr reg'"
  shows "registry_ok reg'"
proof -
  let ?key = "driver_key (drv_family drv) (drv_model drv)"
  let ?ds = "AList.update ?key drv (reg_drivers reg)"
  let ?dfs = "if dflt then AList.update (normalize_name (drv_family drv)) drv (reg_defaults reg) else reg_defaults reg"
  have new: "dict_get (reg_drivers reg) ?key = None"
    and reg': "reg_drivers reg' = ?ds" "reg_defaults reg' = ?dfs"
    using assms(2) by (auto simp: registry_register_def Let_def split: if_splits)
  have old: "dict_ok (reg_drivers reg)" "dict_ok (reg_defaults reg)"
    "\<forall>(key, d) \<in> set (reg_drivers reg). key = driver_key (drv_family d) (drv_model d)"
    "\<forall>(fam, d) \<in> set (reg_defaults reg). fam = normalize_name (drv_family d) \<and>
       dict_get (reg_drivers reg) (driver_key (drv_family d) (drv_model d)) = Some d"
    using assms(1) by (auto simp: registry_ok_def)
  have "\<forall>(key, d) \<in> set ?ds. key = driver_key (drv_family d) (drv_model d)"
    using old(3) set_update_subset [of ?key drv "reg_drivers reg"] by auto
  moreover have "set ?dfs \<subseteq> insert (normalize_name (drv_family drv), drv) (set (reg_defaults reg))"
    using set_update_subset [of "normalize_name (drv_family drv)" drv "reg_defaults reg"] by auto
  then have "\<forall>(fam, d) \<in> set ?dfs. fam = normalize_name (drv_family d) \<and>
      dict_get ?ds (driver_key (drv_family d) (drv_model d)) = Some d"
    using old(4) new by (fastforce simp: dict_get_update)
  ultimately show ?thesis
    using old(1,2) by (simp add: registry_ok_def reg' dict_ok_update)
qed

text \<open>The registries that a program can build.\<close>

inductive registry_reachable :: "device_registry \<Rightarrow> bool" where
  start: "registry_reachable empty_registry"
| step: "registry_reachable reg \<Longrightarrow> registry_register reg drv dflt = Inr reg' \<Longrightarrow> registry_reachable reg'"

lemma registry_reachable_ok: "registry_reachable reg \<Longrightarrow> registry_ok reg"
  by (induction rule: registry_reachable.induct) (auto intro: registry_ok_empty registry_ok_register)

lemma resolve_family:
  assumes "registry_ok reg" and "registry_resolve reg family model = Inr drv"
  shows "normalize_name (drv_family drv) = normalize_name family"
  using assms
  by (auto simp: registry_resolve_def registry_ok_def Let_def dict_get_mem driver_key_def
      split: option.splits if_splits)

lemma resolve_registered:
  assumes "registry_register reg drv dflt = Inr reg'"
    and "normalize_name family = normalize_name (drv_family drv)"
    and "normalize_name model = normalize_name (drv_model drv)" and "model \<noteq> []"
  shows "registry_resolve reg' family (Some model) = Inr drv"
  using assms by (auto simp: registry_register_def registry_resolve_def Let_def dict_get_update
      driver_key_def split: if_splits)

lemma resolve_others_kept:
  assumes "registry_register reg drv dflt = Inr reg'"
    and "dict_get (reg_drivers reg) (driver_key family model) = Some other" and "model \<noteq> []"
  shows "registry_resolve reg' family (Some model) = Inr other"
  using assms by (auto simp: registry_register_def registry_resolve_def Let_def dict_get_update
      driver_key_def split: if_splits)

section \<open>Lemmas: driver verification\<close>

lemma run_driver_verify_world:
  assumes "run_driver_verify special run drv w cid ps owner cs = (res, w')"
  shows "w' = w \<or> (\<exists>spec commands. catalog_get (drv_catalog drv) cid = Inr spec \<and> spec_readonly spec \<and>
     spec_build_commands special spec ps = Inr commands \<and> w' = snd (run w commands owner))"
  using assms
  by (auto simp: run_driver_verify_def catalog_build_commands_def run_and_verify_def
      split: sum.splits if_splits prod.splits)

lemma run_driver_verify_Inr:
  assumes "run_driver_verify special run drv w cid ps owner cs = (Inr r, w')"
  obtains spec commands tokens where
    "catalog_get (drv_catalog drv) cid = Inr spec" "spec_readonly spec"
    "spec_build_commands special spec ps = Inr commands"
    "spec_build_expected special spec ps = Inr tokens"
    "run_and_verify run w commands (dict_of (map (\<lambda>c. (c, tokens)) commands)) owner cs = (Inr r, w')"
  using assms
  by (auto simp: run_driver_verify_def catalog_build_commands_def catalog_build_expected_def
      split: sum.splits if_splits)

lemma update_mem: "(k, v) \<in> set (AList.update k v d)"
  by (induction d) auto

lemma update_mem_const: "(k', v) \<in> set d \<Longrightarrow> (k', v) \<in> set (AList.update k v d)"
  by (induction d) auto

lemma dict_of_const_mem:
  "c \<in> set commands \<Longrightarrow> (c, tokens) \<in> set (dict_of (map (\<lambda>c. (c, tokens)) commands))"
proof (induction commands rule: rev_induct)
  case (snoc x xs)
  then show ?case by (auto simp: dict_of_snoc update_mem update_mem_const)
qed simp

section \<open>Properties\<close>

text \<open>Template round trip: a command template printed from literal pieces (braces doubled) and
  named fields is formatted to the literals with each field replaced by its parameter, and fails with the
  error of the first field that is missing or positional; text of a parameter is never re-read as template.\<close>

theorem format_map_roundtrip:
  assumes "list_all piece_ok pieces"
  shows "format_map special ps (concat (map print_piece pieces)) =
     and_then (traverse (fill_piece ps) pieces) (\<lambda>ws. Inr (concat ws))"
  by (rule format_map_print [OF assms])

lemma format_map_roundtrip_witness:
  "format_map (\<lambda>ps s. Inl (ValueError s)) [(''slot'', [lbrace] @ ''x'')]
     (concat (map print_piece [Literal ''show '', Field ''slot'', Literal [lbrace, CHR ''a'']])) =
   and_then (traverse (fill_piece [(''slot'', [lbrace] @ ''x'')])
     [Literal ''show '', Field ''slot'', Literal [lbrace, CHR ''a'']]) (\<lambda>ws. Inr (concat ws))"
  by (rule format_map_roundtrip) code_simp

text \<open>Registry: in every registry built by registrations, resolving a family gives a driver of that
  family (names compared after strip and casefold), and registering a driver makes it the answer
  for its own family and model without changing any exact entry registered before.\<close>

theorem registry_resolution:
  assumes "registry_reachable reg" and "registry_register reg drv dflt = Inr reg'"
  shows "(registry_resolve reg' family model = Inr d \<longrightarrow> normalize_name (drv_family d) = normalize_name family) \<and>
    (drv_model drv \<noteq> [] \<longrightarrow> registry_resolve reg' (drv_family drv) (Some (drv_model drv)) = Inr drv) \<and>
    (dict_get (reg_drivers reg) (driver_key fam mdl) = Some other \<and> mdl \<noteq> [] \<longrightarrow>
      registry_resolve reg' fam (Some mdl) = Inr other)"
  using resolve_family [OF registry_reachable_ok [OF registry_reachable.step [OF assms]]]
    resolve_registered [OF assms(2)] resolve_others_kept [OF assms(2)] by simp_all

definition demo_driver :: "string \<Rightarrow> string \<Rightarrow> device_driver" where
  "demo_driver family model = \<lparr>drv_family = family, drv_model = model, drv_catalog = []\<rparr>"

definition demo_registry :: "device_driver list \<Rightarrow> device_registry" where
  "demo_registry ds = foldl (\<lambda>reg d. projr (registry_register reg d False)) empty_registry ds"

lemma registry_resolution_witness:
  "normalize_name (drv_family (demo_driver ''OLT'' ''B'')) = normalize_name '' olt '' \<and>
   registry_resolve (demo_registry [demo_driver '' Olt'' ''a'', demo_driver ''OLT'' ''B'']) ''OLT'' (Some ''B'') =
     Inr (demo_driver ''OLT'' ''B'') \<and>
   registry_resolve (demo_registry [demo_driver '' Olt'' ''a'', demo_driver ''OLT'' ''B'']) ''olt'' (Some ''A'') =
     Inr (demo_driver '' Olt'' ''a'')"
proof -
  let ?r1 = "demo_registry [demo_driver '' Olt'' ''a'']"
  let ?r2 = "demo_registry [demo_driver '' Olt'' ''a'', demo_driver ''OLT'' ''B'']"
  have s1: "registry_register empty_registry (demo_driver '' Olt'' ''a'') False = Inr ?r1"
    and s2: "registry_register ?r1 (demo_driver ''OLT'' ''B'') False = Inr ?r2" by code_simp+
  have r: "registry_reachable ?r1" using registry_reachable.step [OF registry_reachable.start s1] .
  have q: "registry_resolve ?r2 '' olt '' (Some ''b '') = Inr (demo_driver ''OLT'' ''B'')"
    "drv_model (demo_driver ''OLT'' ''B'') \<noteq> []"
    "dict_get (reg_drivers ?r1) (driver_key ''olt'' ''A'') = Some (demo_driver '' Olt'' ''a'')" by code_simp+
  show ?thesis
    using registry_resolution [OF r s2, of "'' olt ''" "Some ''b ''" "demo_driver ''OLT'' ''B''" "''olt''" "''A''"
        "demo_driver '' Olt'' ''a''"] q
    by (simp add: demo_driver_def)
qed

text \<open>C5. Read-only guard: driver verification leaves the device and its connection untouched unless the
  command identifier names a specification marked read-only whose templates all format; then the
  only effect is the one run of exactly those commands. A specification that is not read-only is
  refused before anything runs.\<close>

theorem run_driver_verify_readonly:
  assumes "run_driver_verify special run drv w cid ps owner cs = (res, w')" and "w' \<noteq> w"
  shows "\<exists>spec commands. catalog_get (drv_catalog drv) cid = Inr spec \<and> spec_readonly spec \<and>
     spec_build_commands special spec ps = Inr commands \<and> w' = snd (run w commands owner)"
  using run_driver_verify_world [OF assms(1)] assms(2) by blast

definition counting_run :: "string list transport" where
  "counting_run w commands owner = (Inr (map (\<lambda>c. \<lparr>out_command = c, out_output = ''ok''\<rparr>) commands), w @ commands)"

definition demo_catalog_driver :: device_driver where
  "demo_catalog_driver = \<lparr>drv_family = ''f'', drv_model = ''m'', drv_catalog =
     [(''v'', \<lparr>command_id = ''v'', spec_readonly = True, spec_mode = ''exec'',
        spec_command = Some ''show version'', spec_commands = [], spec_expected = []\<rparr>)]\<rparr>"

lemma run_driver_verify_readonly_witness:
  "\<exists>spec commands. catalog_get (drv_catalog demo_catalog_driver) ''v'' = Inr spec \<and> spec_readonly spec \<and>
    spec_build_commands (\<lambda>ps s. Inl (ValueError s)) spec [] = Inr commands \<and>
    [''show version''] = snd (counting_run [] commands None)"
proof (rule run_driver_verify_readonly)
  show "run_driver_verify (\<lambda>ps s. Inl (ValueError s)) counting_run demo_catalog_driver [] ''v'' [] None False =
    (fst (run_driver_verify (\<lambda>ps s. Inl (ValueError s)) counting_run demo_catalog_driver [] ''v'' [] None False),
     [''show version''])"
    by code_simp
qed simp

end
