(* ===== verification/PyValue.thy ===== *)
theory PyValue
  imports PyText Complex_Main
begin

text \<open>
  The dynamically typed values that the program receives from YAML files and builds for its
  JSON reports. A mapping keeps its items in insertion order. \<open>POther\<close> is a value of another
  class (a YAML timestamp, say), with its \<open>str()\<close>.

  A float is a rational, an infinity or not-a-number, so a finite float is its exact value; the
  text of a float is a parameter wherever the program prints one.
\<close>

datatype pyfloat = Fin rat | Infinity bool | NotANumber  \<comment> \<open>\<open>Infinity neg\<close>\<close>

datatype pyval =
    PNone
  | PBool bool
  | PInt int
  | PFloat pyfloat
  | PStr string
  | PList "pyval list"
  | PDict "(pyval \<times> pyval) list"
  | POther string

text \<open>Comparisons with a number are false for not-a-number.\<close>

fun float_less :: "rat \<Rightarrow> pyfloat \<Rightarrow> bool" where
  "float_less r (Fin x) = (r < x)"
| "float_less r (Infinity neg) = (\<not> neg)"
| "float_less r NotANumber = False"

fun float_le_rat :: "pyfloat \<Rightarrow> rat \<Rightarrow> bool" where
  "float_le_rat (Fin x) r = (x \<le> r)"
| "float_le_rat (Infinity neg) r = neg"
| "float_le_rat NotANumber r = False"

fun float_lt_rat :: "pyfloat \<Rightarrow> rat \<Rightarrow> bool" where
  "float_lt_rat (Fin x) r = (x < r)"
| "float_lt_rat (Infinity neg) r = neg"
| "float_lt_rat NotANumber r = False"

section \<open>isinstance tests and truth\<close>

fun is_str :: "pyval \<Rightarrow> bool" where
  "is_str (PStr _) = True"
| "is_str _ = False"

fun truthy :: "pyval \<Rightarrow> bool" where
  "truthy PNone = False"
| "truthy (PBool b) = b"
| "truthy (PInt i) = (i \<noteq> 0)"
| "truthy (PFloat x) = (x \<noteq> Fin 0)"
| "truthy (PStr s) = (s \<noteq> [])"
| "truthy (PList xs) = (xs \<noteq> [])"
| "truthy (PDict d) = (d \<noteq> [])"
| "truthy (POther _) = True"

text \<open>\<open>str(value)\<close> and \<open>repr(value)\<close>, given the text of a float.\<close>

fun repr_val :: "(pyfloat \<Rightarrow> string) \<Rightarrow> pyval \<Rightarrow> string" where
  "repr_val ft PNone = ''None''"
| "repr_val ft (PBool b) = (if b then ''True'' else ''False'')"
| "repr_val ft (PInt i) = str_of_int i"
| "repr_val ft (PFloat x) = ft x"
| "repr_val ft (PStr s) = py_repr s"
| "repr_val ft (PList xs) = ''['' @ join '', '' (map (repr_val ft) xs) @ '']''"
| "repr_val ft (PDict d) =
     [CHR 123] @ join '', '' (map (\<lambda>(k, v). repr_val ft k @ '': '' @ repr_val ft v) d) @ [CHR 125]"
| "repr_val ft (POther s) = s"

definition str_val :: "(pyfloat \<Rightarrow> string) \<Rightarrow> pyval \<Rightarrow> string" where
  "str_val ft v = (case v of PStr s \<Rightarrow> s | _ \<Rightarrow> repr_val ft v)"

text \<open>\<open>mapping.get(key)\<close> with a string key; a missing key gives \<open>None\<close>.\<close>

definition get_str :: "(pyval \<times> pyval) list \<Rightarrow> string \<Rightarrow> pyval" where
  "get_str d key = (case map_of d (PStr key) of None \<Rightarrow> PNone | Some v \<Rightarrow> v)"

end
