(* ===== verification/Paths.thy ===== *)
theory Paths
  imports PyText "HOL-Library.Sublist"
begin

text \<open>
  Remote paths: \<open>PurePosixPath\<close> of the standard library and
  \<open>cli_tool/transfer/paths.py\<close>. A path is its root (empty, \<open>/\<close>, or \<open>//\<close>,
  which POSIX keeps apart) and its list of components.
\<close>

section \<open>PurePosixPath\<close>

record posix_path =
  path_root :: string
  path_tail :: "string list"

definition slash :: char where "slash = CHR ''/''"

definition split_root :: "string \<Rightarrow> string \<times> string" where
  "split_root s =
     (if take 1 s \<noteq> [slash] then ([], s)
      else if take 1 (drop 1 s) \<noteq> [slash] \<or> take 1 (drop 2 s) = [slash] then ([slash], drop 1 s)
      else ([slash, slash], drop 2 s))"

definition parse_path :: "string \<Rightarrow> posix_path" where
  "parse_path s = (let (root, rel) = split_root s in
     \<lparr>path_root = root,
      path_tail = filter (\<lambda>x. x \<noteq> [] \<and> x \<noteq> ''.'') (split_char slash rel)\<rparr>)"

definition path_str :: "posix_path \<Rightarrow> string" where
  "path_str p =
     (if path_root p = [] \<and> path_tail p = [] then ''.''
      else path_root p @ join [slash] (path_tail p))"

text \<open>\<open>parts\<close>: the root, when there is one, comes first.\<close>

definition path_parts :: "posix_path \<Rightarrow> string list" where
  "path_parts p = (if path_root p = [] then [] else [path_root p]) @ path_tail p"

definition is_absolute :: "posix_path \<Rightarrow> bool" where
  "is_absolute p = (path_root p \<noteq> [])"

text \<open>\<open>root / requested\<close> for a relative \<open>requested\<close>.\<close>

definition path_join :: "posix_path \<Rightarrow> posix_path \<Rightarrow> posix_path" where
  "path_join p q = \<lparr>path_root = path_root p, path_tail = path_tail p @ path_tail q\<rparr>"

text \<open>\<open>str(Path(text))\<close>\<close>

definition norm_path_str :: "string \<Rightarrow> string" where
  "norm_path_str s = path_str (parse_path s)"

section \<open>resolve\_remote\_path (transfer/paths.py)\<close>

definition backslash :: char where "backslash = CHR 92"
definition nul :: char where "nul = CHR 0x00"

definition resolve_remote_path :: "string \<Rightarrow> string \<Rightarrow> string result" where
  "resolve_remote_path remote_root remote_path =
     (if blank remote_root then Inl (UnsafeRemotePathError ''remote_root must be a non-empty absolute POSIX path'')
      else if blank remote_path then Inl (UnsafeRemotePathError ''remote_path must be a non-empty POSIX path'')
      else if nul \<in> set remote_root \<or> nul \<in> set remote_path
        then Inl (UnsafeRemotePathError ''remote path cannot contain NUL'')
      else if backslash \<in> set remote_root \<or> backslash \<in> set remote_path
        then Inl (UnsafeRemotePathError ''remote path must use POSIX separators'')
      else
        let root = parse_path remote_root; requested = parse_path remote_path
        in if \<not> is_absolute root
             then Inl (UnsafeRemotePathError ''remote_root must be an absolute POSIX path'')
           else if ''..'' \<in> set (path_parts root) \<or> ''..'' \<in> set (path_parts requested)
             then Inl (UnsafeRemotePathError ''remote path traversal is not allowed'')
           else
             let candidate = (if is_absolute requested then requested else path_join root requested)
             in if take (length (path_parts root)) (path_parts candidate) \<noteq> path_parts root
                then Inl (UnsafeRemotePathError (''remote path is outside configured root: '' @ remote_root))
                else Inr (path_str candidate))"

section \<open>Parsing and printing\<close>

definition component_ok :: "string \<Rightarrow> bool" where
  "component_ok c = (c \<noteq> [] \<and> c \<noteq> ''.'' \<and> slash \<notin> set c)"

definition path_ok :: "posix_path \<Rightarrow> bool" where
  "path_ok p = (path_root p \<in> {[], [slash], [slash, slash]} \<and> list_all component_ok (path_tail p))"

lemma split_root_chars: "split_root s = (r, t) \<Longrightarrow> set r \<subseteq> set s \<and> set t \<subseteq> set s"
  by (auto simp: split_root_def split: if_splits dest: in_set_dropD)
     (metis in_set_takeD list.set_intros(1))+

lemma parse_path_ok: "path_ok (parse_path s)"
  by (auto simp: parse_path_def path_ok_def split_root_def component_ok_def list_all_iff
      dest: split_char_no_sep)

lemma parse_path_chars: "c \<in> set (path_tail (parse_path s)) \<Longrightarrow> set c \<subseteq> set s"
  by (auto simp: parse_path_def split: prod.splits
      dest!: split_char_chars split_root_chars)

lemma join_head: "component_ok w \<Longrightarrow> take 1 (join sep (w # ws)) = take 1 w"
  by (cases ws; cases w) (auto simp: component_ok_def)

lemma split_root_join:
  assumes "root \<in> {[], [slash], [slash, slash]}" and "list_all component_ok ws"
    and "root = [] \<Longrightarrow> ws \<noteq> []"
  shows "split_root (root @ join [slash] ws) = (root, join [slash] ws)"
proof (cases ws)
  case (Cons w ws')
  then have "take 1 (join [slash] ws) \<noteq> [slash]"
    using assms(2) join_head [of w "[slash]" ws'] by (cases w) (auto simp: component_ok_def)
  with assms(1) show ?thesis by (auto simp: split_root_def)
qed (use assms in \<open>auto simp: split_root_def\<close>)

lemma filter_components: "list_all component_ok ws \<Longrightarrow> filter (\<lambda>x. x \<noteq> [] \<and> x \<noteq> ''.'') ws = ws"
  by (induction ws) (auto simp: component_ok_def)

lemma parse_path_str:
  assumes "path_ok p"
  shows "parse_path (path_str p) = p"
proof (cases "path_tail p = []")
  case True
  with assms show ?thesis
    by (cases p) (auto simp: path_ok_def path_str_def parse_path_def split_root_def slash_def)
next
  case False
  then have "split_root (path_str p) = (path_root p, join [slash] (path_tail p))"
    using assms split_root_join by (simp add: path_str_def path_ok_def)
  moreover have "split_char slash (join [slash] (path_tail p)) = path_tail p"
    using assms False by (intro split_char_join) (auto simp: path_ok_def component_ok_def list_all_iff)
  ultimately show ?thesis
    using assms by (simp add: parse_path_def path_ok_def filter_components)
qed

lemma path_str_chars:
  assumes "path_ok p"
  shows "set (path_str p) \<subseteq> {slash, CHR ''.''} \<union> \<Union> (set ` set (path_tail p))"
  using assms join_chars [of "[slash]" "path_tail p"] by (auto simp: path_str_def path_ok_def)

section \<open>Containment\<close>

text \<open>
  The string \<open>r\<close> names a place below \<open>remote_root\<close>: it is absolute, its components start with
  the root's, none of them climbs, and it holds no character that a server could read as another
  separator or a terminator.
\<close>

definition inside_root :: "string \<Rightarrow> string \<Rightarrow> bool" where
  "inside_root remote_root r =
     (is_absolute (parse_path r) \<and> prefix (path_parts (parse_path remote_root)) (path_parts (parse_path r)) \<and>
      ''..'' \<notin> set (path_parts (parse_path r)) \<and> nul \<notin> set r \<and> backslash \<notin> set r)"

lemma take_prefix: "take (length xs) ys = xs \<longleftrightarrow> prefix xs ys"
  by (metis append_eq_conv_conj prefix_def)

lemma resolve_chars:
  assumes "resolve_remote_path remote_root remote_path = Inr r"
  shows "set r \<subseteq> {slash, CHR ''.''} \<union> set remote_root \<union> set remote_path"
proof -
  let ?root = "parse_path remote_root" and ?req = "parse_path remote_path"
  let ?cand = "if is_absolute ?req then ?req else path_join ?root ?req"
  have r: "r = path_str ?cand"
    using assms by (simp add: resolve_remote_path_def Let_def split: if_splits)
  have ok: "path_ok ?cand"
    using parse_path_ok [of remote_root] parse_path_ok [of remote_path]
    by (auto simp: path_ok_def path_join_def)
  have "set w \<subseteq> set remote_root \<union> set remote_path" if "w \<in> set (path_tail ?cand)" for w
    using that parse_path_chars by (auto simp: path_join_def split: if_splits)
  then show ?thesis using path_str_chars [OF ok] r by blast
qed

lemma resolve_Inr_cases:
  assumes "resolve_remote_path remote_root remote_path = Inr r"
  obtains candidate where "r = path_str candidate" "path_ok candidate" "is_absolute candidate"
    "prefix (path_parts (parse_path remote_root)) (path_parts candidate)"
    "''..'' \<notin> set (path_parts candidate)" "nul \<notin> set r" "backslash \<notin> set r"
proof -
  let ?root = "parse_path remote_root" and ?req = "parse_path remote_path"
  let ?cand = "if is_absolute ?req then ?req else path_join ?root ?req"
  have r: "r = path_str ?cand" and abs: "is_absolute ?root"
    and pre: "prefix (path_parts ?root) (path_parts ?cand)"
    and dots: "''..'' \<notin> set (path_parts ?root)" "''..'' \<notin> set (path_parts ?req)"
    and nul: "nul \<notin> set remote_root" "nul \<notin> set remote_path"
    and bs: "backslash \<notin> set remote_root" "backslash \<notin> set remote_path"
    using assms by (simp_all add: resolve_remote_path_def Let_def take_prefix split: if_splits)
  have ok: "path_ok ?cand"
    using parse_path_ok [of remote_root] parse_path_ok [of remote_path]
    by (auto simp: path_ok_def path_join_def)
  have "nul \<notin> set r" "backslash \<notin> set r"
    using resolve_chars [OF assms] nul bs by (auto simp: nul_def backslash_def slash_def)
  moreover have "''..'' \<notin> set (path_parts ?cand)"
    using dots by (auto simp: path_join_def path_parts_def split: if_splits)
  moreover have "is_absolute ?cand" using abs by (auto simp: path_join_def is_absolute_def)
  ultimately show thesis using that r ok pre by blast
qed

lemma resolve_inside: "resolve_remote_path remote_root remote_path = Inr r \<Longrightarrow> inside_root remote_root r"
  by (erule resolve_Inr_cases) (simp add: inside_root_def parse_path_str)

lemma not_blank_absolute: "is_absolute (parse_path r) \<Longrightarrow> \<not> blank r"
proof
  assume "is_absolute (parse_path r)" and "blank r"
  then have "slash \<in> set r"
    by (auto simp: is_absolute_def parse_path_def split_root_def split: if_splits prod.splits)
       (metis list.set_intros(1) in_set_takeD)+
  moreover have "\<forall>c \<in> set r. is_space c" using \<open>blank r\<close> by (simp add: blank_iff)
  ultimately show False by (auto simp: is_space_def slash_def)
qed

text \<open>A resolved path resolves to itself, so looking at it again names the same file.\<close>

lemma resolve_inside_self:
  assumes "resolve_remote_path remote_root remote_path = Inr r"
  shows "resolve_remote_path remote_root r = Inr r"
proof -
  obtain c where c: "r = path_str c" "path_ok c" "is_absolute c"
    "prefix (path_parts (parse_path remote_root)) (path_parts c)" "''..'' \<notin> set (path_parts c)"
    "nul \<notin> set r" "backslash \<notin> set r"
    using assms by (rule resolve_Inr_cases)
  have parse: "parse_path r = c" using c by (simp add: parse_path_str)
  then have "\<not> blank r" using c not_blank_absolute by simp
  with assms c parse show ?thesis
    by (simp add: resolve_remote_path_def Let_def take_prefix split: if_splits)
qed

section \<open>Properties\<close>

text \<open>C4. Containment: a remote path that \<open>resolve_remote_path\<close> accepts is absolute, lies below
  the configured root component by component, never climbs with \<open>..\<close>, holds no NUL and no
  backslash, and is a fixed point: resolving the printed path again gives the same path.\<close>

theorem resolve_remote_path_contained:
  assumes "resolve_remote_path remote_root remote_path = Inr r"
  shows "inside_root remote_root r \<and> resolve_remote_path remote_root r = Inr r"
  using resolve_inside [OF assms] resolve_inside_self [OF assms] by simp

lemma resolve_remote_path_contained_witness:
  "inside_root ''/srv//logs'' ''/srv/logs/a/b.txt'' \<and>
   resolve_remote_path ''/srv//logs'' ''/srv/logs/a/b.txt'' = Inr ''/srv/logs/a/b.txt''"
  by (rule resolve_remote_path_contained [of _ "''./a/b.txt''"]) code_simp

end
