(* ===== verification/Loader.thy ===== *)
theory Loader
  imports PyValue Paths Catalog
begin

text \<open>
  The catalog loader, \<open>cli_tool/catalog/loader.py\<close>: from a parsed YAML document to a validated
  device driver. Reading a file, reading a packaged resource and \<open>yaml.safe_load\<close> are the
  fields of a record; \<open>yaml = None\<close> is a missing PyYAML.
\<close>

record loader_env =
  read_text :: "string \<Rightarrow> string result"
  read_resource :: "string \<Rightarrow> string result"
  yaml_safe_load :: "(string \<Rightarrow> pyval result) option"
  float_text :: "pyfloat \<Rightarrow> string"

definition builtin_catalog_names :: "string list" where
  "builtin_catalog_names = [''generic'', ''neox'', ''ies52xx'', ''olt140x'']"

section \<open>From YAML values to specifications\<close>

text \<open>\<open>_string_tuple\<close>: absent, or a list of strings.\<close>

definition string_tuple :: "pyval \<Rightarrow> string \<Rightarrow> string list result" where
  "string_tuple value field =
     (case value of
        PNone \<Rightarrow> Inr []
      | PStr _ \<Rightarrow> Inl (ValueError (field @ '' must be a list of strings''))
      | PList items \<Rightarrow>
          if \<not> list_all is_str items then Inl (ValueError (field @ '' must contain only strings''))
          else Inr (map (\<lambda>v. case v of PStr s \<Rightarrow> s | _ \<Rightarrow> []) items)
      | _ \<Rightarrow> Inl (ValueError (field @ '' must be a list of strings'')))"

definition command_spec_from_mapping ::
  "(pyfloat \<Rightarrow> string) \<Rightarrow> string \<Rightarrow> (pyval \<times> pyval) list \<Rightarrow> command_spec result" where
  "command_spec_from_mapping ft cid raw =
     (case get_str raw ''readonly'' of
        PBool readonly \<Rightarrow>
          and_then (case get_str raw ''command'' of
                      PNone \<Rightarrow> Inr None
                    | PStr s \<Rightarrow> Inr (Some s)
                    | _ \<Rightarrow> Inl (ValueError (cid @ '': command must be a string'')))
            (\<lambda>command.
          and_then (string_tuple (get_str raw ''commands'') (cid @ ''.commands'')) (\<lambda>commands.
          and_then (string_tuple (get_str raw ''expected_tokens'') (cid @ ''.expected_tokens''))
            (\<lambda>expected.
          post_init
            \<lparr>command_id = cid, spec_readonly = readonly,
             spec_mode = (case map_of raw (PStr ''mode'') of None \<Rightarrow> ''exec'' | Some v \<Rightarrow> str_val ft v),
             spec_command = command, spec_commands = commands, spec_expected = expected\<rparr>)))
      | _ \<Rightarrow> Inl (ValueError (cid @ '': readonly must be true or false'')))"

definition command_item ::
  "(pyfloat \<Rightarrow> string) \<Rightarrow> pyval \<times> pyval \<Rightarrow> command_spec result" where
  "command_item ft item =
     (case fst item of
        PStr cid \<Rightarrow>
          if cid = [] then Inl (ValueError ''command id must be a non-empty string'')
          else (case snd item of
                  PDict raw \<Rightarrow> command_spec_from_mapping ft cid raw
                | _ \<Rightarrow> Inl (ValueError (cid @ '': command spec must be a mapping'')))
      | _ \<Rightarrow> Inl (ValueError ''command id must be a non-empty string''))"

definition command_specs_from_mapping ::
  "(pyfloat \<Rightarrow> string) \<Rightarrow> (pyval \<times> pyval) list \<Rightarrow> command_spec list result" where
  "command_specs_from_mapping ft commands = traverse (command_item ft) commands"

definition commands_mapping :: "(pyval \<times> pyval) list \<Rightarrow> string \<Rightarrow> (pyval \<times> pyval) list result" where
  "commands_mapping data path =
     (case get_str data ''commands'' of
        PDict d \<Rightarrow> Inr d
      | _ \<Rightarrow> Inl (ValueError (norm_path_str path @ '': commands must be a mapping'')))"

definition required_string :: "(pyval \<times> pyval) list \<Rightarrow> string \<Rightarrow> string \<Rightarrow> string result" where
  "required_string data key path =
     (case get_str data key of
        PStr (c # s) \<Rightarrow> Inr (c # s)
      | _ \<Rightarrow> Inl (ValueError (norm_path_str path @ '': '' @ key @ '' must be a non-empty string'')))"

section \<open>Documents and drivers\<close>

definition load_yaml_text :: "loader_env \<Rightarrow> string \<Rightarrow> string \<Rightarrow> (pyval \<times> pyval) list result" where
  "load_yaml_text env content source =
     (case yaml_safe_load env of
        None \<Rightarrow> Inl (RuntimeError ''PyYAML is required to load CLI command catalogs'')
      | Some load \<Rightarrow>
          and_then (load content) (\<lambda>data.
            case data of
              PDict d \<Rightarrow> Inr d
            | _ \<Rightarrow> Inl (ValueError (source @ '': top-level YAML value must be a mapping''))))"

definition load_yaml_mapping :: "loader_env \<Rightarrow> string \<Rightarrow> (pyval \<times> pyval) list result" where
  "load_yaml_mapping env path =
     and_then (read_text env (norm_path_str path))
       (\<lambda>content. load_yaml_text env content (norm_path_str path))"

definition load_catalog :: "loader_env \<Rightarrow> string \<Rightarrow> catalog result" where
  "load_catalog env path =
     and_then (load_yaml_mapping env path) (\<lambda>data.
     and_then (commands_mapping data path) (\<lambda>commands.
     and_then (command_specs_from_mapping (float_text env) commands) command_catalog))"

definition driver_from_mapping ::
  "(pyfloat \<Rightarrow> string) \<Rightarrow> (pyval \<times> pyval) list \<Rightarrow> string \<Rightarrow> device_driver result" where
  "driver_from_mapping ft data source =
     and_then (required_string data ''family'' source) (\<lambda>family.
     and_then (required_string data ''model'' source) (\<lambda>model.
     and_then (commands_mapping data source) (\<lambda>commands.
     and_then (command_specs_from_mapping ft commands) (\<lambda>specs.
     build_driver family model specs))))"

definition load_driver :: "loader_env \<Rightarrow> string \<Rightarrow> device_driver result" where
  "load_driver env path =
     and_then (load_yaml_mapping env path) (\<lambda>data. driver_from_mapping (float_text env) data path)"

definition load_builtin_driver :: "loader_env \<Rightarrow> string \<Rightarrow> device_driver result" where
  "load_builtin_driver env name =
     (let normalized = remove_suffix ''.yaml'' (casefold (strip name))
      in if normalized \<notin> set builtin_catalog_names
         then Inl (ValueError (''unknown built-in catalog '' @ py_repr name @ ''; available: '' @
                join '', '' (sort builtin_catalog_names)))
         else
           let source = ''builtin:'' @ normalized
           in and_then (read_resource env (normalized @ ''.yaml'')) (\<lambda>content.
              and_then (load_yaml_text env content source) (\<lambda>data.
              driver_from_mapping (float_text env) data source)))"

definition load_driver_source :: "loader_env \<Rightarrow> string \<Rightarrow> device_driver result" where
  "load_driver_source env source =
     (if starts_with ''builtin:'' source
      then load_builtin_driver env (remove_prefix ''builtin:'' source)
      else load_driver env source)"

section \<open>Writing specifications\<close>

text \<open>The YAML form of a specification, as the packaged catalogs write it.\<close>

definition strings_val :: "string list \<Rightarrow> pyval" where
  "strings_val xs = PList (map PStr xs)"

definition spec_mapping :: "command_spec \<Rightarrow> (pyval \<times> pyval) list" where
  "spec_mapping spec =
     [(PStr ''mode'', PStr (spec_mode spec)), (PStr ''readonly'', PBool (spec_readonly spec)),
      (PStr ''command'', case spec_command spec of None \<Rightarrow> PNone | Some c \<Rightarrow> PStr c),
      (PStr ''commands'', strings_val (spec_commands spec)),
      (PStr ''expected_tokens'', strings_val (spec_expected spec))]"

definition spec_items :: "command_spec list \<Rightarrow> (pyval \<times> pyval) list" where
  "spec_items specs = map (\<lambda>spec. (PStr (command_id spec), PDict (spec_mapping spec))) specs"

text \<open>What \<open>CommandSpec.__post_init__\<close> accepts.\<close>

definition spec_ok :: "command_spec \<Rightarrow> bool" where
  "spec_ok spec = (command_id spec \<noteq> [] \<and> (has_command spec \<longleftrightarrow> spec_commands spec = []))"

lemma string_tuple_strings: "string_tuple (strings_val xs) field = Inr xs"
  by (simp add: string_tuple_def strings_val_def list_all_iff comp_def)

lemma get_str_simps:
  "get_str [] k = PNone"
  "get_str ((PStr j, v) # d) k = (if j = k then v else get_str d k)"
  by (simp_all add: get_str_def)

lemma command_item_spec:
  assumes "spec_ok spec"
  shows "command_item ft (PStr (command_id spec), PDict (spec_mapping spec)) = Inr spec"
proof -
  have "post_init spec = Inr spec" using assms by (simp add: spec_ok_def post_init_Inr_iff)
  then show ?thesis
    using assms
    by (cases spec; cases "spec_command spec")
      (simp_all add: command_item_def command_spec_from_mapping_def spec_mapping_def get_str_simps
        string_tuple_strings str_val_def spec_ok_def)
qed

lemma command_specs_spec_items:
  "list_all spec_ok specs \<Longrightarrow> command_specs_from_mapping ft (spec_items specs) = Inr specs"
  by (induction specs) (simp_all add: command_specs_from_mapping_def spec_items_def command_item_spec)

lemma command_item_ok:
  assumes "command_item ft item = Inr spec"
  shows "spec_ok spec \<and> fst item = PStr (command_id spec)"
  using assms
  by (auto simp: command_item_def command_spec_from_mapping_def result_simps post_init_Inr_iff spec_ok_def
      split: pyval.splits if_splits)

lemma command_specs_ok:
  "command_specs_from_mapping ft items = Inr specs \<Longrightarrow>
   list_all spec_ok specs \<and> map fst items = map (PStr \<circ> command_id) specs"
  by (induction items arbitrary: specs)
    (auto simp: command_specs_from_mapping_def result_simps dest: command_item_ok)

lemma driver_from_mapping_ok:
  assumes "driver_from_mapping ft data source = Inr drv" and "catalog_get (drv_catalog drv) cid = Inr spec"
  shows "spec_ok spec \<and> command_id spec = cid"
proof -
  obtain specs cat where "list_all spec_ok specs" "command_catalog specs = Inr cat" "drv_catalog drv = cat"
    using assms(1) by (auto simp: driver_from_mapping_def result_simps build_driver_def dest: command_specs_ok)
  then show ?thesis using assms(2) by (auto simp: catalog_get_built list_all_iff)
qed

section \<open>The packaged catalogs\<close>

text \<open>The documents of \<open>cli_tool/catalog/data/\<close>, as \<open>yaml.safe_load\<close> reads them.\<close>

definition show_item :: "string \<Rightarrow> string \<Rightarrow> pyval \<times> pyval" where
  "show_item cid command =
     (PStr cid, PDict [(PStr ''mode'', PStr ''exec''), (PStr ''command'', PStr command),
        (PStr ''readonly'', PBool True), (PStr ''expected_tokens'', PList [])])"

definition builtin_document :: "string \<Rightarrow> pyval" where
  "builtin_document name =
     PDict [(PStr ''family'', PStr name), (PStr ''model'', PStr ''generic''),
       (PStr ''commands'', PDict
         ([show_item ''show_version'' ''show version''] @
          (if name = ''ies52xx'' \<or> name = ''neox''
           then [show_item ''show_system_information'' ''show system-information''] else [])))]"

section \<open>Properties\<close>

text \<open>C18. Loader round trip: writing valid specifications with distinct identifiers as a YAML
  document and loading it gives a driver with the same family, model and specifications, and looking up an
  identifier finds exactly the specification that was written under it.\<close>

theorem driver_from_mapping_roundtrip:
  assumes "list_all spec_ok specs" and "distinct (map command_id specs)" and "family \<noteq> []" and "model \<noteq> []"
  shows "\<exists>drv. driver_from_mapping ft [(PStr ''family'', PStr family), (PStr ''model'', PStr model),
      (PStr ''commands'', PDict (spec_items specs))] source = Inr drv \<and>
    drv_family drv = family \<and> drv_model drv = model \<and>
    (\<forall>cid spec. catalog_get (drv_catalog drv) cid = Inr spec \<longleftrightarrow> spec \<in> set specs \<and> command_id spec = cid)"
proof -
  obtain cat where cat: "command_catalog specs = Inr cat" using assms(2) by (simp add: command_catalog_Inr_iff)
  show ?thesis
    using assms cat command_specs_spec_items [OF assms(1)] catalog_get_built [OF cat]
    by (cases family; cases model)
      (simp_all add: driver_from_mapping_def required_string_def commands_mapping_def get_str_simps build_driver_def)
qed

definition demo_spec :: command_spec where
  "demo_spec = \<lparr>command_id = ''v'', spec_readonly = True, spec_mode = ''exec'', spec_command = Some ''show version'',
     spec_commands = [], spec_expected = [''Version'']\<rparr>"

lemma driver_from_mapping_roundtrip_witness:
  "\<exists>drv. driver_from_mapping (\<lambda>_. []) [(PStr ''family'', PStr ''olt''), (PStr ''model'', PStr ''x''),
      (PStr ''commands'', PDict (spec_items [demo_spec]))] ''s'' = Inr drv \<and>
    drv_family drv = ''olt'' \<and> drv_model drv = ''x'' \<and>
    (\<forall>cid spec. catalog_get (drv_catalog drv) cid = Inr spec \<longleftrightarrow> spec \<in> set [demo_spec] \<and> command_id spec = cid)"
  by (rule driver_from_mapping_roundtrip) code_simp+

text \<open>Every specification of a loaded driver is well formed: a loaded document has no specification
  with both or neither of a command and a command list, none without an identifier, and each is stored under
  its own identifier.\<close>

theorem driver_from_mapping_valid:
  assumes "driver_from_mapping ft data source = Inr drv" and "catalog_get (drv_catalog drv) cid = Inr spec"
  shows "spec_ok spec \<and> command_id spec = cid"
  by (rule driver_from_mapping_ok [OF assms])

lemma driver_from_mapping_valid_witness: "spec_ok demo_spec \<and> command_id demo_spec = ''v''"
  by (rule driver_from_mapping_valid [of "\<lambda>_. []" "[(PStr ''family'', PStr ''olt''), (PStr ''model'', PStr ''x''),
      (PStr ''commands'', PDict (spec_items [demo_spec]))]" "''s''"
      "\<lparr>drv_family = ''olt'', drv_model = ''x'', drv_catalog = [(''v'', demo_spec)]\<rparr>"]) code_simp+


end
