(* ===== verification/PyRegex.thy ===== *)
theory PyRegex
  imports PyText
begin

text \<open>
  The part of Python's \<open>re\<close> that the program's patterns use, as a datatype of patterns with a
  backtracking matcher. A position in a text is a cursor \<open>(p, q)\<close>: the text before it,
  reversed, and the text after it. The matcher returns every way to match at a cursor in the
  order in which \<open>re\<close> tries them, so the head of the list is the match that \<open>re\<close>
  reports. Groups are an association list from the group's number to the text it matched last.

  A repetition stops after an iteration that consumes nothing, so the number of iterations is
  bounded by the length of the remaining text, which is the fuel of \<open>rep_iter\<close>.
\<close>

section \<open>Patterns\<close>

datatype rx =
    Eps
  | One "char \<Rightarrow> bool"
  | Cat rx rx
  | Alt rx rx
  | Rep bool nat "nat option" rx  \<comment> \<open>greedy?, minimum, maximum\<close>
  | Grp nat rx
  | Back bool nat                 \<comment> \<open>ignore case?, group\<close>
  | LineStart                     \<comment> \<open>\<open>^\<close> with MULTILINE\<close>
  | LineEnd                       \<comment> \<open>\<open>$\<close> with MULTILINE\<close>
  | TextStart                     \<comment> \<open>\<open>^\<close>\<close>
  | TextEndNl                     \<comment> \<open>\<open>$\<close>: at the end, or before a final newline\<close>
  | TextEnd                       \<comment> \<open>\<open>\Z\<close>\<close>
  | WordEdge                      \<comment> \<open>\<open>\b\<close>\<close>

abbreviation "rx_star r \<equiv> Rep True 0 None r"
abbreviation "rx_plus r \<equiv> Rep True 1 None r"
abbreviation "rx_opt r \<equiv> Rep True 0 (Some 1) r"
abbreviation "rx_times n r \<equiv> Rep True n (Some n) r"
abbreviation "rx_lazy r \<equiv> Rep False 0 None r"

fun seqs :: "rx list \<Rightarrow> rx" where
  "seqs [] = Eps"
| "seqs [r] = r"
| "seqs (r # rs) = Cat r (seqs rs)"

fun alts :: "rx list \<Rightarrow> rx" where
  "alts [] = One (\<lambda>_. False)"
| "alts [r] = r"
| "alts (r # rs) = Alt r (alts rs)"

text \<open>A literal, and a literal under IGNORECASE.\<close>

definition lit :: "string \<Rightarrow> rx" where
  "lit s = seqs (map (\<lambda>c. One (\<lambda>x. x = c)) s)"

definition lit_i :: "string \<Rightarrow> rx" where
  "lit_i s = seqs (map (\<lambda>c. One (\<lambda>x. lower_char x = lower_char c)) s)"

definition in_range :: "nat \<Rightarrow> nat \<Rightarrow> char \<Rightarrow> bool" where
  "in_range lo hi c = (lo \<le> code_point c \<and> code_point c \<le> hi)"

section \<open>Matching at a cursor\<close>

type_synonym groups = "(nat \<times> string) list"
type_synonym cursor = "string \<times> string"
type_synonym mstate = "string \<times> string \<times> groups"

fun rep_iter :: "nat \<Rightarrow> (mstate \<Rightarrow> mstate list) \<Rightarrow> bool \<Rightarrow> nat \<Rightarrow> nat option \<Rightarrow> mstate \<Rightarrow> mstate list" where
  "rep_iter 0 m g lo hi st = (if lo = 0 then [st] else [])"
| "rep_iter (Suc n) m g lo hi st =
     (let more = (if hi = Some 0 then []
                  else concat (map (\<lambda>st'. if length (fst (snd st')) < length (fst (snd st))
                                          then rep_iter n m g (lo - 1) (map_option (\<lambda>h. h - 1) hi) st'
                                          else []) (m st)));
          stop = (if lo = 0 then [st] else [])
      in if g then more @ stop else stop @ more)"

fun step_one :: "(char \<Rightarrow> bool) \<Rightarrow> mstate \<Rightarrow> mstate list" where
  "step_one P (p, [], gs) = []"
| "step_one P (p, x # q, gs) = (if P x then [(x # p, q, gs)] else [])"

fun step_back :: "bool \<Rightarrow> nat \<Rightarrow> mstate \<Rightarrow> mstate list" where
  "step_back ci n (p, q, gs) =
     (case map_of gs n of None \<Rightarrow> []
      | Some w \<Rightarrow>
          (let t = take (length w) q
           in if (if ci then lower t = lower w else t = w) then [(rev t @ p, drop (length w) q, gs)] else []))"

text \<open>An anchor matches at a cursor without consuming.\<close>

definition nl :: char where "nl = CHR 10"

definition at_line_start :: "cursor \<Rightarrow> bool" where
  "at_line_start k = (case fst k of [] \<Rightarrow> True | x # _ \<Rightarrow> x = nl)"

definition at_line_end :: "cursor \<Rightarrow> bool" where
  "at_line_end k = (case snd k of [] \<Rightarrow> True | x # _ \<Rightarrow> x = nl)"

definition at_word_edge :: "cursor \<Rightarrow> bool" where
  "at_word_edge k = ((case fst k of [] \<Rightarrow> False | x # _ \<Rightarrow> is_word x) \<noteq>
                     (case snd k of [] \<Rightarrow> False | x # _ \<Rightarrow> is_word x))"

definition keep_if :: "bool \<Rightarrow> 'a \<Rightarrow> 'a list" where
  "keep_if b x = (if b then [x] else [])"

fun record_group :: "nat \<Rightarrow> mstate \<Rightarrow> mstate \<Rightarrow> mstate" where
  "record_group n (p, q, gs) (p', q', gs') =
     (p', q', (n, rev (take (length p' - length p) p')) # gs')"

primrec rx_match :: "rx \<Rightarrow> mstate \<Rightarrow> mstate list" where
  "rx_match Eps st = [st]"
| "rx_match (One P) st = step_one P st"
| "rx_match (Cat r1 r2) st = concat (map (rx_match r2) (rx_match r1 st))"
| "rx_match (Alt r1 r2) st = rx_match r1 st @ rx_match r2 st"
| "rx_match (Rep g lo hi r) st = rep_iter (length (fst (snd st))) (rx_match r) g lo hi st"
| "rx_match (Grp n r) st = map (record_group n st) (rx_match r st)"
| "rx_match (Back ci n) st = step_back ci n st"
| "rx_match LineStart st = keep_if (at_line_start (fst st, fst (snd st))) st"
| "rx_match LineEnd st = keep_if (at_line_end (fst st, fst (snd st))) st"
| "rx_match TextStart st = keep_if (fst st = []) st"
| "rx_match TextEndNl st = keep_if (fst (snd st) = [] \<or> fst (snd st) = [nl]) st"
| "rx_match TextEnd st = keep_if (fst (snd st) = []) st"
| "rx_match WordEdge st = keep_if (at_word_edge (fst st, fst (snd st))) st"

section \<open>The functions of \<open>re\<close>\<close>

text \<open>The match at one cursor: its end and its groups.\<close>

definition rx_at :: "rx \<Rightarrow> cursor \<Rightarrow> mstate option" where
  "rx_at r k = (case rx_match r (fst k, snd k, []) of [] \<Rightarrow> None | st # _ \<Rightarrow> Some st)"

text \<open>\<open>pattern.search\<close>: the leftmost cursor with a match; the cursor and the match.\<close>

fun search_from :: "rx \<Rightarrow> string \<Rightarrow> string \<Rightarrow> (cursor \<times> mstate) option" where
  "search_from r p [] = map_option (\<lambda>st. ((p, []), st)) (rx_at r (p, []))"
| "search_from r p (x # q) =
     (case rx_at r (p, x # q) of
        Some st \<Rightarrow> Some ((p, x # q), st)
      | None \<Rightarrow> search_from r (x # p) q)"

definition rx_search :: "rx \<Rightarrow> string \<Rightarrow> (cursor \<times> mstate) option" where
  "rx_search r s = search_from r [] s"

definition rx_found :: "rx \<Rightarrow> string \<Rightarrow> bool" where
  "rx_found r s = (rx_search r s \<noteq> None)"

text \<open>\<open>pattern.fullmatch\<close>: the first way to match the whole text; its groups.\<close>

definition rx_fullmatch :: "rx \<Rightarrow> string \<Rightarrow> groups option" where
  "rx_fullmatch r s =
     (case filter (\<lambda>st. fst (snd st) = []) (rx_match r ([], s, [])) of
        [] \<Rightarrow> None | st # _ \<Rightarrow> Some (snd (snd st)))"

text \<open>
  \<open>pattern.finditer\<close> and \<open>pattern.sub\<close> for a pattern that matches no empty text: the
  matches from left to right, each search starting at the end of the match before.
\<close>

function finditer_from :: "rx \<Rightarrow> string \<Rightarrow> string \<Rightarrow> (cursor \<times> mstate) list" where
  "finditer_from r p q =
     (case rx_at r (p, q) of
        Some (p', q', gs) \<Rightarrow>
          if length q' < length q then ((p, q), (p', q', gs)) # finditer_from r p' q'
          else (case q of [] \<Rightarrow> [] | x # q2 \<Rightarrow> finditer_from r (x # p) q2)
      | None \<Rightarrow> (case q of [] \<Rightarrow> [] | x # q2 \<Rightarrow> finditer_from r (x # p) q2))"
  by pat_completeness auto
termination
  by (relation "measure (\<lambda>(r, p, q). length q)") auto

declare finditer_from.simps [simp del]

definition rx_finditer :: "rx \<Rightarrow> string \<Rightarrow> (cursor \<times> mstate) list" where
  "rx_finditer r s = finditer_from r [] s"

function sub_from :: "rx \<Rightarrow> (groups \<Rightarrow> string) \<Rightarrow> string \<Rightarrow> string \<Rightarrow> string" where
  "sub_from r f p q =
     (case rx_at r (p, q) of
        Some (p', q', gs) \<Rightarrow>
          if length q' < length q then f gs @ sub_from r f p' q'
          else (case q of [] \<Rightarrow> [] | x # q2 \<Rightarrow> x # sub_from r f (x # p) q2)
      | None \<Rightarrow> (case q of [] \<Rightarrow> [] | x # q2 \<Rightarrow> x # sub_from r f (x # p) q2))"
  by pat_completeness auto
termination
  by (relation "measure (\<lambda>(r, f, p, q). length q)") auto

declare sub_from.simps [simp del]

definition rx_sub :: "rx \<Rightarrow> (groups \<Rightarrow> string) \<Rightarrow> string \<Rightarrow> string" where
  "rx_sub r f s = sub_from r f [] s"

text \<open>\<open>match.group(n)\<close> in a replacement; a group that did not take part is empty there.\<close>

definition group_or_empty :: "groups \<Rightarrow> nat \<Rightarrow> string" where
  "group_or_empty gs n = (case map_of gs n of None \<Rightarrow> [] | Some w \<Rightarrow> w)"


section \<open>Lemmas: what a match consumes\<close>

named_theorems rx_simps "membership in the results of the matcher"

definition advances :: "(mstate \<Rightarrow> mstate list) \<Rightarrow> bool" where
  "advances m = (\<forall>p q gs p' q' gs'. (p', q', gs') \<in> set (m (p, q, gs)) \<longrightarrow>
     (\<exists>w. q = w @ q' \<and> p' = rev w @ p))"

lemma advancesD:
  "advances m \<Longrightarrow> (p', q', gs') \<in> set (m (p, q, gs)) \<Longrightarrow> \<exists>w. q = w @ q' \<and> p' = rev w @ p"
  unfolding advances_def by blast

lemma advancesI:
  "(\<And>p q gs p' q' gs'. (p', q', gs') \<in> set (m (p, q, gs)) \<Longrightarrow> \<exists>w. q = w @ q' \<and> p' = rev w @ p)
   \<Longrightarrow> advances m"
  unfolding advances_def by blast

lemma rep_iter_advances:
  assumes "advances m"
  shows "(p', q', gs') \<in> set (rep_iter n m g lo hi (p, q, gs)) \<Longrightarrow> \<exists>w. q = w @ q' \<and> p' = rev w @ p"
proof (induction n arbitrary: lo hi p q gs)
  case (Suc n)
  then consider "(p', q', gs') = (p, q, gs)"
    | p1 q1 gs1 lo1 hi1 where "(p1, q1, gs1) \<in> set (m (p, q, gs))"
        "(p', q', gs') \<in> set (rep_iter n m g lo1 hi1 (p1, q1, gs1))"
    by (auto simp: Let_def split: if_splits)
  then show ?case
  proof cases
    case 2
    then show ?thesis using Suc.IH [OF 2(2)] advancesD [OF assms 2(1)] by fastforce
  qed auto
qed (auto split: if_splits)

lemma step_one_advances: "advances (step_one P)"
proof (rule advancesI)
  fix p q gs p' q' gs'
  assume "(p', q', gs') \<in> set (step_one P (p, q, gs))"
  then show "\<exists>w. q = w @ q' \<and> p' = rev w @ p"
    by (cases q) (auto split: if_splits intro!: exI [of _ "[hd q]"])
qed

lemma step_back_advances: "advances (step_back ci n)"
proof (rule advancesI)
  fix p q gs p' q' gs'
  assume "(p', q', gs') \<in> set (step_back ci n (p, q, gs))"
  then have "\<exists>k. p' = rev (take k q) @ p \<and> q' = drop k q"
    by (cases "map_of gs n") (simp_all add: Let_def split: if_splits, (metis)+)
  then show "\<exists>w. q = w @ q' \<and> p' = rev w @ p"
    by (metis append_take_drop_id)
qed

lemma rx_match_advances: "advances (rx_match r)"
proof (induction r)
  case (Cat r1 r2)
  show ?case
  proof (rule advancesI)
    fix p q gs p' q' gs'
    assume "(p', q', gs') \<in> set (rx_match (Cat r1 r2) (p, q, gs))"
    then obtain p1 q1 gs1 where "(p1, q1, gs1) \<in> set (rx_match r1 (p, q, gs))"
      "(p', q', gs') \<in> set (rx_match r2 (p1, q1, gs1))" by auto
    then obtain w1 w2 where "q = w1 @ q1" "p1 = rev w1 @ p" "q1 = w2 @ q'" "p' = rev w2 @ p1"
      using advancesD [OF Cat(1)] advancesD [OF Cat(2)] by blast
    then show "\<exists>w. q = w @ q' \<and> p' = rev w @ p"
      by (intro exI [of _ "w1 @ w2"]) simp
  qed
next
  case (Alt r1 r2)
  then show ?case by (auto simp: advances_def simp del: split_paired_All) blast+
next
  case (Rep g lo hi r)
  show ?case by (rule advancesI) (use rep_iter_advances [OF Rep] in simp)
next
  case (Grp n r)
  show ?case
  proof (rule advancesI)
    fix p q gs p' q' gs'
    assume "(p', q', gs') \<in> set (rx_match (Grp n r) (p, q, gs))"
    then obtain gs1 where "(p', q', gs1) \<in> set (rx_match r (p, q, gs))" by auto
    then show "\<exists>w. q = w @ q' \<and> p' = rev w @ p" by (rule advancesD [OF Grp])
  qed
next
  case (One P)
  show ?case using step_one_advances by (simp add: advances_def)
next
  case (Back ci n)
  show ?case using step_back_advances by (simp add: advances_def)
qed (auto simp: advances_def keep_if_def)

lemma rx_match_consumes:
  "(p', q', gs') \<in> set (rx_match r (p, q, gs)) \<Longrightarrow> \<exists>w. q = w @ q' \<and> p' = rev w @ p"
  by (rule advancesD [OF rx_match_advances])

lemma rx_at_mem: "rx_at r (p, q) = Some st \<Longrightarrow> st \<in> set (rx_match r (p, q, []))"
  by (auto simp: rx_at_def split: list.splits)

lemma rx_at_None_iff: "rx_at r (p, q) = None \<longleftrightarrow> rx_match r (p, q, []) = []"
  by (auto simp: rx_at_def split: list.splits)

lemma rx_at_consumes: "rx_at r (p, q) = Some (p', q', gs) \<Longrightarrow> \<exists>w. q = w @ q' \<and> p' = rev w @ p"
  by (blast dest: rx_at_mem rx_match_consumes)

section \<open>Lemmas: results of each pattern\<close>

lemma match_One [rx_simps]:
  "rx_match (One P) (p, q, gs) = (case q of [] \<Rightarrow> [] | x # q' \<Rightarrow> if P x then [(x # p, q', gs)] else [])"
  by (cases q) auto

lemma match_Cat [rx_simps]:
  "st' \<in> set (rx_match (Cat r1 r2) st) \<longleftrightarrow> (\<exists>s1 \<in> set (rx_match r1 st). st' \<in> set (rx_match r2 s1))"
  by auto

lemma seqs_Cons: "rs \<noteq> [] \<Longrightarrow> seqs (r # rs) = Cat r (seqs rs)"
  by (cases rs) auto

lemma match_seq_chars:
  "rx_match (seqs (map (\<lambda>c. One (\<lambda>x. f x = f c)) s)) (p, q, gs) =
     (if map f (take (length s) q) = map f s
      then [(rev (take (length s) q) @ p, drop (length s) q, gs)] else [])"
proof (induction s arbitrary: p q)
  case (Cons c s)
  show ?case
  proof (cases "s = []")
    case True
    then show ?thesis by (cases q) auto
  next
    case False
    then show ?thesis using Cons by (cases q) (auto simp: seqs_Cons)
  qed
qed simp

lemma match_lit:
  "rx_match (lit s) (p, q, gs) = (if starts_with s q then [(rev s @ p, drop (length s) q, gs)] else [])"
  unfolding lit_def using match_seq_chars [of "\<lambda>x. x" s p q gs] by (auto simp: starts_with_def)

lemma match_lit_i:
  "rx_match (lit_i s) (p, q, gs) =
     (if lower (take (length s) q) = lower s
      then [(rev (take (length s) q) @ p, drop (length s) q, gs)] else [])"
  unfolding lit_i_def lower_def by (rule match_seq_chars)

text \<open>A repetition of a character class matches exactly the runs of that class.\<close>

definition within_max :: "nat option \<Rightarrow> nat \<Rightarrow> bool" where
  "within_max hi n = (case hi of None \<Rightarrow> True | Some h \<Rightarrow> n \<le> h)"

lemma within_max_simps [simp]: "within_max None n" "within_max (Some h) n \<longleftrightarrow> n \<le> h" "within_max hi 0"
  by (simp_all add: within_max_def split: option.split)

lemma rep_iter_one:
  "length q \<le> n \<Longrightarrow>
   (p', q', gs') \<in> set (rep_iter n (step_one P) g lo hi (p, q, gs)) \<longleftrightarrow>
   gs' = gs \<and> (\<exists>w. q = w @ q' \<and> p' = rev w @ p \<and> list_all P w \<and> lo \<le> length w \<and> within_max hi (length w))"
proof (induction n arbitrary: q p lo hi)
  case (Suc n)
  let ?step = "hi \<noteq> Some 0 \<and> (\<exists>x q1. q = x # q1 \<and> P x \<and>
     (p', q', gs') \<in> set (rep_iter n (step_one P) g (lo - 1) (map_option (\<lambda>h. h - 1) hi) (x # p, q1, gs)))"
  have mem: "(p', q', gs') \<in> set (rep_iter (Suc n) (step_one P) g lo hi (p, q, gs)) \<longleftrightarrow>
     ?step \<or> (lo = 0 \<and> (p', q', gs') = (p, q, gs))"
    by (cases q) (auto simp: Let_def)
  have "?step \<longleftrightarrow> gs' = gs \<and> (\<exists>w. w \<noteq> [] \<and> q = w @ q' \<and> p' = rev w @ p \<and> list_all P w \<and>
      lo \<le> length w \<and> within_max hi (length w))" (is "_ \<longleftrightarrow> _ \<and> ?run")
  proof (cases q)
    case (Cons x q1)
    then have len: "length q1 \<le> n" using Suc.prems by simp
    have "?run \<longleftrightarrow> hi \<noteq> Some 0 \<and> P x \<and> (\<exists>w. q1 = w @ q' \<and> p' = rev w @ x # p \<and> list_all P w \<and>
        lo - 1 \<le> length w \<and> within_max (map_option (\<lambda>h. h - 1) hi) (length w))" (is "_ \<longleftrightarrow> ?run1")
    proof
      assume ?run
      then obtain w where w: "w \<noteq> []" "q = w @ q'" "p' = rev w @ p" "list_all P w"
        "lo \<le> length w" "within_max hi (length w)" by blast
      then have "w = x # tl w" using Cons by (cases w) auto
      with w Cons show ?run1 by (cases w; cases hi) (auto intro!: exI [of _ "tl w"])
    next
      assume ?run1
      then obtain w where "hi \<noteq> Some 0" "P x" "q1 = w @ q'" "p' = rev w @ x # p" "list_all P w"
        "lo - 1 \<le> length w" "within_max (map_option (\<lambda>h. h - 1) hi) (length w)" by blast
      then show ?run using Cons by (cases hi) (auto intro!: exI [of _ "x # w"])
    qed
    then show ?thesis using Suc.IH [OF len] Cons by auto
  qed auto
  then show ?case unfolding mem by (auto intro: exI [of _ "[]"])
qed (auto split: if_splits)

lemma match_Rep_One [rx_simps]:
  "(p', q', gs') \<in> set (rx_match (Rep g lo hi (One P)) (p, q, gs)) \<longleftrightarrow>
   gs' = gs \<and> (\<exists>w. q = w @ q' \<and> p' = rev w @ p \<and> list_all P w \<and> lo \<le> length w \<and> within_max hi (length w))"
proof -
  have "rx_match (One P) = step_one P" by (rule ext) simp
  then show ?thesis by (simp add: rep_iter_one)
qed

lemma search_from_iff:
  "search_from r p q = None \<longleftrightarrow> (\<forall>u v. q = u @ v \<longrightarrow> rx_match r (rev u @ p, v, []) = [])"
proof (induction q arbitrary: p)
  case (Cons x q)
  have "search_from r p (x # q) = None \<longleftrightarrow> rx_match r (p, x # q, []) = [] \<and> search_from r (x # p) q = None"
    by (cases "rx_at r (p, x # q)") (simp_all flip: rx_at_None_iff)
  also have "\<dots> \<longleftrightarrow> (\<forall>u v. x # q = u @ v \<longrightarrow> rx_match r (rev u @ p, v, []) = [])"
  proof -
    have "(\<forall>u v. x # q = u @ v \<longrightarrow> F u v) \<longleftrightarrow> F [] (x # q) \<and> (\<forall>u v. q = u @ v \<longrightarrow> F (x # u) v)"
      for F :: "string \<Rightarrow> string \<Rightarrow> bool"
      unfolding Cons_eq_append_conv by blast
    from this [of "\<lambda>u v. rx_match r (rev u @ p, v, []) = []"] show ?thesis
      unfolding Cons.IH by simp
  qed
  finally show ?case .
qed (auto simp: rx_at_None_iff)

lemma rx_found_iff: "rx_found r s \<longleftrightarrow> (\<exists>u v. s = u @ v \<and> rx_match r (rev u, v, []) \<noteq> [])"
  by (auto simp: rx_found_def rx_search_def search_from_iff)

lemma rx_found_mem_iff:
  "rx_found r s \<longleftrightarrow> (\<exists>u v p' q' gs'. s = u @ v \<and> (p', q', gs') \<in> set (rx_match r (rev u, v, [])))"
  unfolding rx_found_iff by (metis last_in_set list.set_intros(1) prod_cases3 empty_iff list.set(1) neq_Nil_conv)

lemma rx_fullmatch_iff:
  "rx_fullmatch r s \<noteq> None \<longleftrightarrow> (\<exists>p' gs'. (p', [], gs') \<in> set (rx_match r ([], s, [])))"
  by (force simp: rx_fullmatch_def filter_eq_Cons_iff filter_empty_conv split: list.splits)

section \<open>Lemmas: patterns that do not look back\<close>

text \<open>Without an anchor on the left a match does not depend on the text before the cursor.\<close>

primrec looks_back :: "rx \<Rightarrow> bool" where
  "looks_back Eps = False"
| "looks_back (One P) = False"
| "looks_back (Cat r1 r2) = (looks_back r1 \<or> looks_back r2)"
| "looks_back (Alt r1 r2) = (looks_back r1 \<or> looks_back r2)"
| "looks_back (Rep g lo hi r) = looks_back r"
| "looks_back (Grp n r) = looks_back r"
| "looks_back (Back ci n) = False"
| "looks_back LineStart = True"
| "looks_back LineEnd = False"
| "looks_back TextStart = True"
| "looks_back TextEndNl = False"
| "looks_back TextEnd = False"
| "looks_back WordEdge = True"

fun shift_left :: "string \<Rightarrow> mstate \<Rightarrow> mstate" where
  "shift_left x (p, q, gs) = (p @ x, q, gs)"

lemma shift_left_rest [simp]: "fst (snd (shift_left x st)) = fst (snd st)"
  by (cases st) simp

lemma rep_iter_shift:
  assumes "\<And>st. m (shift_left x st) = map (shift_left x) (m st)"
  shows "rep_iter n m g lo hi (shift_left x st) = map (shift_left x) (rep_iter n m g lo hi st)"
proof (induction n arbitrary: lo hi st)
  case (Suc n)
  show ?case
    by (simp add: Let_def assms map_concat comp_def Suc.IH if_distrib [of "map _"] cong: if_cong)
qed simp

lemma record_group_shift: "record_group n (shift_left x a) (shift_left x b) = shift_left x (record_group n a b)"
  by (cases a; cases b) simp

lemma rx_match_shift:
  "\<not> looks_back r \<Longrightarrow> rx_match r (shift_left x st) = map (shift_left x) (rx_match r st)"
proof (induction r arbitrary: st)
  case (One P)
  then show ?case by (cases st; cases "fst (snd st)") auto
next
  case (Cat r1 r2)
  then show ?case by (simp add: map_concat comp_def)
next
  case (Rep g lo hi r)
  then show ?case by (simp add: rep_iter_shift)
next
  case (Grp n r)
  then show ?case by (simp add: record_group_shift)
next
  case (Back ci n)
  then show ?case by (cases st) (simp add: Let_def split: option.split)
next
  case LineEnd
  then show ?case by (cases st) (simp add: keep_if_def at_line_end_def)
qed (auto simp: keep_if_def)

lemma rx_at_shift:
  "\<not> looks_back r \<Longrightarrow> rx_at r (p @ x, q) = map_option (shift_left x) (rx_at r (p, q))"
  using rx_match_shift [of r x "(p, q, [])"] by (simp add: rx_at_def split: list.split)

lemma sub_from_shift: "\<not> looks_back r \<Longrightarrow> sub_from r f (p @ x) q = sub_from r f p q"
proof (induction r f p q rule: sub_from.induct)
  case (1 r f p q)
  note sub = sub_from.simps
  show ?case
  proof (cases "rx_at r (p, q)")
    case None
    with 1 show ?thesis by (subst (1 2) sub) (auto simp: rx_at_shift split: list.split)
  next
    case (Some st)
    with 1 show ?thesis by (cases st) (subst (1 2) sub, auto simp: rx_at_shift split: list.split)
  qed
qed

lemma sub_from_context_free: "\<not> looks_back r \<Longrightarrow> sub_from r f p q = rx_sub r f q"
  using sub_from_shift [of r f "[]" p q] by (simp add: rx_sub_def)

section \<open>Lemmas: lines\<close>

lemma splitlines_line: "list_all (\<lambda>c. \<not> is_line_break c) w \<Longrightarrow> w \<noteq> [] \<Longrightarrow> splitlines w = [w]"
proof (induction w)
  case (Cons c w)
  have "is_line_break (CHR 13)" by code_simp
  with Cons show ?case by (cases "w = []") auto
qed simp

lemma splitlines_cons_line:
  "list_all (\<lambda>c. \<not> is_line_break c) w \<Longrightarrow> splitlines (w @ nl # s) = w # splitlines s"
proof (induction w)
  case Nil
  have "is_line_break nl" "nl \<noteq> CHR 13" by code_simp+
  then show ?case by simp
next
  case (Cons c w)
  have "is_line_break (CHR 13)" by code_simp
  with Cons show ?case by auto
qed

lemma splitlines_join:
  "ls \<noteq> [] \<Longrightarrow> last ls \<noteq> [] \<Longrightarrow> list_all (list_all (\<lambda>c. \<not> is_line_break c)) ls \<Longrightarrow>
   splitlines (join [nl] ls) = ls"
proof (induction ls)
  case (Cons l ls)
  then show ?case by (cases ls) (simp_all add: splitlines_line splitlines_cons_line)
qed simp

end
