(* ===== verification/LineCard.thy ===== *)
theory LineCard
  imports PyRegex PyValue Paths Catalog
begin

text \<open>
  The line-card table parser (\<open>cli_tool/parsers/line_card_status.py\<close>) and the preflight
  workflow on top of it (\<open>cli_tool/workflows/line_card_preflight.py\<close>).
\<close>

section \<open>Snapshot\<close>

definition show_line_card_status_command :: string where
  "show_line_card_status_command = ''show lc st''"

record line_card_record =
  card_slot :: string
  card_type :: string
  card_status :: string
  card_fw_version :: string

record line_card_snapshot =
  snap_cards :: "line_card_record list"
  snap_command :: string
  snap_schema_version :: int

definition line_card_snapshot :: "line_card_record list \<Rightarrow> line_card_snapshot" where
  "line_card_snapshot cards =
     \<lparr>snap_cards = cards, snap_command = show_line_card_status_command, snap_schema_version = 1\<rparr>"

definition snapshot_as_dict :: "line_card_snapshot \<Rightarrow> pyval" where
  "snapshot_as_dict s = PDict
     [(PStr ''schema_version'', PInt (snap_schema_version s)),
      (PStr ''command'', PStr (snap_command s)),
      (PStr ''cards'', PList (map (\<lambda>c. PDict
         [(PStr ''slot'', PStr (card_slot c)), (PStr ''card_type'', PStr (card_type c)),
          (PStr ''status'', PStr (card_status c)), (PStr ''fw_version'', PStr (card_fw_version c))])
         (snap_cards s)))]"

section \<open>Header\<close>

abbreviation spaces1 :: rx where "spaces1 \<equiv> rx_plus (One is_space)"

text \<open>\<open>_HEADER_PATTERNS\<close>, with the labels of \<open>REQUIRED_LINE_CARD_FIELDS\<close>.\<close>

definition header_patterns :: "(string \<times> rx) list" where
  "header_patterns =
     [(''card_type'', seqs [WordEdge, lit_i ''Card'', spaces1, lit_i ''Type'', WordEdge]),
      (''status'', seqs [WordEdge, lit_i ''Status'', WordEdge]),
      (''fw_version'', seqs [WordEdge, lit_i ''FW'', spaces1, lit_i ''Version'', WordEdge])]"

definition required_labels :: "(string \<times> string) list" where
  "required_labels =
     [(''card_type'', ''Card Type''), (''status'', ''Status''), (''fw_version'', ''FW Version'')]"

text \<open>The key and start of every pattern that occurs in a line.\<close>

definition header_positions :: "string \<Rightarrow> (string, nat) dict" where
  "header_positions line =
     concat (map (\<lambda>(key, pattern).
       case rx_search pattern line of None \<Rightarrow> [] | Some ((p, _), _) \<Rightarrow> [(key, length p)]) header_patterns)"

fun find_header_from ::
  "nat \<Rightarrow> nat option \<times> (string, nat) dict \<Rightarrow> string list \<Rightarrow> nat option \<times> (string, nat) dict" where
  "find_header_from index best [] = best"
| "find_header_from index best (line # lines) =
     (let positions = header_positions line;
          best' = (if length positions > length (snd best) then (Some index, positions) else best)
      in if length positions = length header_patterns then (Some index, positions)
         else find_header_from (Suc index) best' lines)"

definition find_header :: "string list \<Rightarrow> nat option \<times> (string, nat) dict" where
  "find_header lines = find_header_from 0 (None, []) lines"

section \<open>Rows\<close>

definition separator_char :: "char \<Rightarrow> bool" where
  "separator_char c = (is_space c \<or> c \<in> set ''=+|:-'')"

definition separator_line :: rx where
  "separator_line = seqs [TextStart, rx_plus (One separator_char), TextEndNl]"

definition is_data_line :: "string \<Rightarrow> bool" where
  "is_data_line line = (\<not> blank line \<and> rx_fullmatch separator_line line = None)"

definition row_record :: "nat \<Rightarrow> nat \<Rightarrow> nat \<Rightarrow> string \<Rightarrow> line_card_record" where
  "row_record cs ss fs line =
     \<lparr>card_slot = strip (take cs line),
      card_type = strip (take (ss - cs) (drop cs line)),
      card_status = strip (take (fs - ss) (drop ss line)),
      card_fw_version = strip (drop fs line)\<rparr>"

definition missing_values :: "line_card_record \<Rightarrow> string list" where
  "missing_values r =
     map fst (filter (\<lambda>(label, value). value = [])
       [(''Card Type'', card_type r), (''Status'', card_status r), (''FW Version'', card_fw_version r)])"

fun parse_rows :: "nat \<Rightarrow> nat \<Rightarrow> nat \<Rightarrow> nat \<Rightarrow> string list \<Rightarrow> line_card_record list result" where
  "parse_rows cs ss fs line_number [] = Inr []"
| "parse_rows cs ss fs line_number (line # lines) =
     (if \<not> is_data_line line then parse_rows cs ss fs (Suc line_number) lines
      else
        let r = row_record cs ss fs line
        in if missing_values r \<noteq> []
           then Inl (LineCardStatusParseError (''show lc st row '' @ str_of_nat line_number @
                  '' is missing required value(s): '' @ join '', '' (missing_values r)))
           else and_then (parse_rows cs ss fs (Suc line_number) lines) (\<lambda>rs. Inr (r # rs)))"

section \<open>parse\_line\_card\_status\<close>

definition missing_headers :: "(string, nat) dict \<Rightarrow> string list" where
  "missing_headers positions =
     map snd (filter (\<lambda>(key, label). dict_get positions key = None) required_labels)"

definition position_of :: "(string, nat) dict \<Rightarrow> string \<Rightarrow> nat" where
  "position_of positions key = (case dict_get positions key of None \<Rightarrow> 0 | Some n \<Rightarrow> n)"

definition parse_line_card_status :: "string \<Rightarrow> line_card_snapshot result" where
  "parse_line_card_status output =
     (if blank output then Inl (LineCardStatusParseError ''show lc st output is empty'')
      else
        let lines = splitlines (normalize_text output);
            (header_index, positions) = find_header lines
        in if missing_headers positions \<noteq> []
           then Inl (LineCardStatusParseError (''show lc st output is missing required field(s): '' @
                  join '', '' (missing_headers positions)))
           else (case header_index of
                   None \<Rightarrow> Inl (LineCardStatusParseError ''show lc st table header was not found'')
                 | Some h \<Rightarrow>
                     let cs = position_of positions ''card_type'';
                         ss = position_of positions ''status'';
                         fs = position_of positions ''fw_version''
                     in if \<not> (cs < ss \<and> ss < fs)
                        then Inl (LineCardStatusParseError
                          ''unsupported show lc st column order; expected Card Type, Status, FW Version'')
                        else
                          and_then (parse_rows cs ss fs (h + 2) (drop (h + 1) lines)) (\<lambda>cards.
                          if cards = []
                          then Inl (LineCardStatusParseError ''show lc st output contains no line-card rows'')
                          else Inr (line_card_snapshot cards))))"

section \<open>Preflight (workflows/line\_card\_preflight.py)\<close>

definition default_line_card_command_id :: string where
  "default_line_card_command_id = ''show_line_card_status''"

definition string_lists_val :: "(string, string list) dict \<Rightarrow> pyval" where
  "string_lists_val d = PDict (map (\<lambda>(k, vs). (PStr k, PList (map PStr vs))) d)"

definition run_line_card_preflight ::
  "special_field \<Rightarrow> 'w transport \<Rightarrow> device_driver \<Rightarrow> 'w \<Rightarrow> string \<Rightarrow> params \<Rightarrow> string option
    \<Rightarrow> line_card_snapshot result \<times> 'w" where
  "run_line_card_preflight special run drv w cid ps owner =
     (case run_driver_verify special run drv w cid ps owner False of
        (Inl e, w') \<Rightarrow> (Inl e, w')
      | (Inr r, w') \<Rightarrow>
          (if \<not> result_passed r
             then Inl (RuntimeError (''line-card preflight verification failed: '' @
               repr_val (\<lambda>_. []) (PDict
                 [(PStr ''missing_tokens'', string_lists_val (missing_by_command r)),
                  (PStr ''validation_errors'', string_lists_val (validation_errors_by_command r))])))
           else (case output_by_command r of
                   [(command, output)] \<Rightarrow> parse_line_card_status output
                 | _ \<Rightarrow> Inl (RuntimeError ''line-card preflight requires exactly one CLI command output'')),
           w'))"

section \<open>Lemmas: rows\<close>

lemma separator_line_iff:
  "rx_fullmatch separator_line line \<noteq> None \<longleftrightarrow> line \<noteq> [] \<and> list_all separator_char line"
proof -
  have "rx_fullmatch separator_line line \<noteq> None \<longleftrightarrow>
      (\<exists>p' gs'. (p', [], gs') \<in> set (rx_match (rx_plus (One separator_char)) ([], line, [])))"
    unfolding rx_fullmatch_iff separator_line_def
    by (fastforce simp: keep_if_def simp del: rx_match.simps(5) split: if_splits)
  also have "\<dots> \<longleftrightarrow> line \<noteq> [] \<and> list_all separator_char line"
    unfolding match_Rep_One by (auto simp: Suc_le_eq)
  finally show ?thesis .
qed

lemma is_data_line_iff:
  "is_data_line line \<longleftrightarrow> (\<exists>c \<in> set line. \<not> separator_char c)"
proof -
  have "\<not> blank line \<longleftrightarrow> (\<exists>c \<in> set line. \<not> is_space c)" by (auto simp: blank_iff)
  then show ?thesis
    using separator_line_iff [of line]
    by (auto simp: is_data_line_def list_all_iff separator_char_def)
qed

lemma missing_values_Nil_iff:
  "missing_values r = [] \<longleftrightarrow> card_type r \<noteq> [] \<and> card_status r \<noteq> [] \<and> card_fw_version r \<noteq> []"
  by (auto simp: missing_values_def)

lemma parse_rows_Inr_iff:
  "parse_rows cs ss fs n lines = Inr rs \<longleftrightarrow>
   rs = map (row_record cs ss fs) (filter is_data_line lines) \<and> list_all (\<lambda>r. missing_values r = []) rs"
  by (induction lines arbitrary: n rs) (auto simp: result_simps Let_def)

lemma find_header_index:
  "find_header_from n best lines = (Some h, ps) \<Longrightarrow>
   (fst best = Some h \<and> ps = snd best) \<or> (n \<le> h \<and> h < n + length lines \<and> ps = header_positions (lines ! (h - n)))"
proof (induction lines arbitrary: n best)
  case (Cons line lines)
  show ?case
  proof (cases "length (header_positions line) = length header_patterns")
    case True
    with Cons.prems show ?thesis by (auto simp: Let_def)
  next
    case False
    let ?best = "if length (header_positions line) > length (snd best) then (Some n, header_positions line) else best"
    from False Cons.prems have "find_header_from (Suc n) ?best lines = (Some h, ps)" by (simp add: Let_def)
    from Cons.IH [OF this] show ?thesis by (auto simp: nth_Cons' split: if_splits)
  qed
qed simp

lemma find_header_Some:
  "find_header lines = (Some h, ps) \<Longrightarrow> h < length lines \<and> ps = header_positions (lines ! h)"
  unfolding find_header_def by (drule find_header_index) auto

text \<open>What a parsed snapshot is made of: every data line below the header, cut at its columns.\<close>

lemma parse_line_card_status_Inr:
  assumes "parse_line_card_status output = Inr snap"
  obtains h cs ss fs where
    "h < length (splitlines (normalize_text output))"
    "dict_get (header_positions (splitlines (normalize_text output) ! h)) ''card_type'' = Some cs"
    "dict_get (header_positions (splitlines (normalize_text output) ! h)) ''status'' = Some ss"
    "dict_get (header_positions (splitlines (normalize_text output) ! h)) ''fw_version'' = Some fs"
    "cs < ss" "ss < fs"
    "snap = line_card_snapshot (map (row_record cs ss fs)
       (filter is_data_line (drop (Suc h) (splitlines (normalize_text output)))))"
    "snap_cards snap \<noteq> []" "list_all (\<lambda>r. missing_values r = []) (snap_cards snap)"
proof -
  let ?lines = "splitlines (normalize_text output)"
  obtain h ps where hd: "find_header ?lines = (Some h, ps)" and mh: "missing_headers ps = []"
    and order: "position_of ps ''card_type'' < position_of ps ''status''"
      "position_of ps ''status'' < position_of ps ''fw_version''"
    and rows: "\<exists>cards. parse_rows (position_of ps ''card_type'') (position_of ps ''status'')
        (position_of ps ''fw_version'') (h + 2) (drop (h + 1) ?lines) = Inr cards \<and> cards \<noteq> [] \<and>
        snap = line_card_snapshot cards"
    using assms
    by (auto simp: parse_line_card_status_def Let_def result_simps split: prod.splits option.splits if_splits)
  have keys: "\<exists>n. dict_get ps k = Some n" if "k \<in> {''card_type'', ''status'', ''fw_version''}" for k
    using mh that by (auto simp: missing_headers_def required_labels_def split: if_splits)
  have get: "dict_get ps k = Some (position_of ps k)" if "k \<in> {''card_type'', ''status'', ''fw_version''}" for k
    using keys [OF that] by (auto simp: position_of_def)
  note found = find_header_Some [OF hd]
  show thesis
    by (rule that [of h "position_of ps ''card_type''" "position_of ps ''status''" "position_of ps ''fw_version''"])
      (use found get order rows in \<open>auto simp: parse_rows_Inr_iff line_card_snapshot_def\<close>)
qed

section \<open>Printing a table\<close>

text \<open>
  The layout of the device's table: three columns padded to fixed widths and the firmware version
  last. \<open>row_fits\<close> says when a card can be printed in it and told from a separator line.
\<close>

definition pad :: "nat \<Rightarrow> string \<Rightarrow> string" where
  "pad n w = w @ replicate (n - length w) (CHR '' '')"

definition table_header :: string where
  "table_header = ''Slot  Card Type           Status      FW Version''"

definition table_row :: "line_card_record \<Rightarrow> string" where
  "table_row c = pad 6 (card_slot c) @ pad 20 (card_type c) @ pad 12 (card_status c) @ card_fw_version c"

definition print_table :: "line_card_record list \<Rightarrow> string" where
  "print_table cards = join [nl] (table_header # map table_row cards)"

definition cell_ok :: "string \<Rightarrow> bool" where
  "cell_ok w = (trimmed w \<and> list_all (\<lambda>c. \<not> is_line_break c) w)"

definition row_fits :: "line_card_record \<Rightarrow> bool" where
  "row_fits c =
     (cell_ok (card_slot c) \<and> cell_ok (card_type c) \<and> cell_ok (card_status c) \<and> cell_ok (card_fw_version c) \<and>
      length (card_slot c) \<le> 6 \<and> length (card_type c) \<le> 20 \<and> length (card_status c) \<le> 12 \<and>
      card_type c \<noteq> [] \<and> card_status c \<noteq> [] \<and> card_fw_version c \<noteq> [] \<and>
      list_ex (\<lambda>x. \<not> separator_char x) (card_slot c @ card_type c @ card_status c @ card_fw_version c))"

lemma length_pad: "length w \<le> n \<Longrightarrow> length (pad n w) = n"
  by (simp add: pad_def)

lemma strip_pad: "trimmed w \<Longrightarrow> strip (pad n w) = w"
proof -
  assume w: "trimmed w"
  have sp: "is_space (CHR '' '')" by code_simp
  have "dropWhile is_space (replicate k (CHR '' '') @ v) = dropWhile is_space v" for k v
    by (induction k) (simp_all add: sp)
  then have r: "rstrip (w @ replicate k (CHR '' '')) = rstrip w" for k
    by (simp add: rstrip_def rstrip_of_def)
  show ?thesis
  proof (cases "w = []")
    case True
    then show ?thesis by (auto simp: pad_def blank_iff sp)
  next
    case False
    then have "\<not> is_space (hd w)" using w by (simp add: trimmed_def)
    then have "lstrip (pad n w) = pad n w" "lstrip w = w"
      using False by (cases w; simp add: lstrip_def pad_def)+
    then show ?thesis using strip_trimmed [OF w] by (simp add: strip_def pad_def r)
  qed
qed

lemma row_record_table_row: "row_fits c \<Longrightarrow> row_record 6 26 38 (table_row c) = c"
  by (cases c) (simp add: row_record_def table_row_def row_fits_def cell_ok_def strip_pad strip_trimmed
      length_pad)

lemma normalize_text_no_cr: "CHR 13 \<notin> set s \<Longrightarrow> normalize_text s = s"
proof -
  assume cr: "CHR 13 \<notin> set s"
  then have "crlf_to_lf s = s" by (induction s rule: crlf_to_lf.induct) auto
  moreover have "replace_char (CHR 13) [CHR 10] s = s" using cr by (induction s) (auto simp: replace_char_def)
  ultimately show ?thesis by (simp add: normalize_text_def)
qed

lemma table_header_positions:
  "header_positions table_header = [(''card_type'', 6), (''status'', 26), (''fw_version'', 38)]"
  by code_simp

lemma no_break_pad: "list_all (\<lambda>c. \<not> is_line_break c) w \<Longrightarrow> list_all (\<lambda>c. \<not> is_line_break c) (pad n w)"
proof -
  have "\<not> is_line_break (CHR '' '')" by code_simp
  then show "list_all (\<lambda>c. \<not> is_line_break c) w \<Longrightarrow> ?thesis" by (auto simp: pad_def list_all_iff)
qed

lemma splitlines_print_table:
  assumes "list_all row_fits cards"
  shows "splitlines (normalize_text (print_table cards)) = table_header # map table_row cards"
proof -
  have nb: "list_all (list_all (\<lambda>c. \<not> is_line_break c)) (table_header # map table_row cards)"
  proof -
    have "list_all (\<lambda>c. \<not> is_line_break c) table_header" by code_simp
    then show ?thesis
      using assms by (auto simp: list_all_iff [of _ cards] list_all_iff [of _ "map _ _"] table_row_def
          row_fits_def cell_ok_def intro!: no_break_pad)
  qed
  have "is_line_break (CHR 13)" "nl \<noteq> CHR 13" by code_simp+
  with nb have "CHR 13 \<notin> set (print_table cards)"
    unfolding print_table_def
    by (auto simp: list_all_iff simp del: list.map dest!: subsetD [OF join_chars])
  moreover have "last (table_header # map table_row cards) \<noteq> []"
    using assms by (cases "cards = []") (auto simp: table_header_def last_map table_row_def row_fits_def list_all_iff)
  ultimately show ?thesis using nb by (simp add: normalize_text_no_cr print_table_def splitlines_join del: join.simps)
qed

lemma is_data_line_table_row: "row_fits c \<Longrightarrow> is_data_line (table_row c)"
  by (auto simp: is_data_line_iff table_row_def row_fits_def pad_def list_ex_iff)

section \<open>Properties\<close>

text \<open>C13. Fail-closed parsing: a snapshot is returned only for output with a header line that holds
  the three required columns in order, and then it has one record for every data line below the
  header, cut at the header's columns, with no record dropped and none with an empty required value.\<close>

theorem parse_line_card_status_complete:
  assumes "parse_line_card_status output = Inr snap"
  shows "\<exists>h cs ss fs. let lines = splitlines (normalize_text output) in
    h < length lines \<and> dict_get (header_positions (lines ! h)) ''card_type'' = Some cs \<and>
    dict_get (header_positions (lines ! h)) ''status'' = Some ss \<and>
    dict_get (header_positions (lines ! h)) ''fw_version'' = Some fs \<and> cs < ss \<and> ss < fs \<and>
    snap_cards snap = map (row_record cs ss fs) (filter is_data_line (drop (Suc h) lines)) \<and>
    snap_cards snap \<noteq> [] \<and>
    list_all (\<lambda>c. card_type c \<noteq> [] \<and> card_status c \<noteq> [] \<and> card_fw_version c \<noteq> []) (snap_cards snap)"
  using assms
  by (rule parse_line_card_status_Inr)
    (rule exI, rule exI, rule exI, rule exI,
      simp add: Let_def line_card_snapshot_def missing_values_Nil_iff)

definition demo_cards :: "line_card_record list" where
  "demo_cards =
     [\<lparr>card_slot = ''1'', card_type = ''GPON 16'', card_status = ''Up'', card_fw_version = ''1.2.3''\<rparr>,
      \<lparr>card_slot = ''2'', card_type = ''XGS'', card_status = ''Down'', card_fw_version = ''-''\<rparr>]"

lemma parse_line_card_status_complete_witness:
  "\<exists>h cs ss fs. let lines = splitlines (normalize_text (print_table demo_cards)) in
    h < length lines \<and> dict_get (header_positions (lines ! h)) ''card_type'' = Some cs \<and>
    dict_get (header_positions (lines ! h)) ''status'' = Some ss \<and>
    dict_get (header_positions (lines ! h)) ''fw_version'' = Some fs \<and> cs < ss \<and> ss < fs \<and>
    snap_cards (line_card_snapshot demo_cards) =
      map (row_record cs ss fs) (filter is_data_line (drop (Suc h) lines)) \<and>
    snap_cards (line_card_snapshot demo_cards) \<noteq> [] \<and>
    list_all (\<lambda>c. card_type c \<noteq> [] \<and> card_status c \<noteq> [] \<and> card_fw_version c \<noteq> [])
      (snap_cards (line_card_snapshot demo_cards))"
  by (rule parse_line_card_status_complete) code_simp

text \<open>C14. Table round trip: a non-empty list of cards printed in the device's layout (fixed columns,
  trimmed cells, no cell wider than its column) parses back to exactly those cards.\<close>

theorem parse_print_table:
  assumes "cards \<noteq> []" and "list_all row_fits cards"
  shows "parse_line_card_status (print_table cards) = Inr (line_card_snapshot cards)"
proof -
  let ?lines = "table_header # map table_row cards"
  have header: "find_header ?lines = (Some 0, [(''card_type'', 6), (''status'', 26), (''fw_version'', 38)])"
    by (simp add: find_header_def table_header_positions header_patterns_def)
  have rows: "parse_rows 6 26 38 2 (map table_row cards) = Inr cards"
    using assms(2) by (auto simp: parse_rows_Inr_iff list_all_iff filter_map comp_def is_data_line_table_row
        row_record_table_row missing_values_Nil_iff row_fits_def intro!: map_idI [symmetric])
  have "\<not> blank (print_table cards)"
  proof -
    have "CHR ''S'' \<in> set (print_table cards)" by (cases cards) (simp_all add: print_table_def table_header_def)
    moreover have "\<not> is_space (CHR ''S'')" by code_simp
    ultimately show ?thesis by (auto simp: blank_iff)
  qed
  then show ?thesis
    using assms(1) rows
    by (simp add: parse_line_card_status_def splitlines_print_table [OF assms(2)] header missing_headers_def
        required_labels_def dict_get_def position_of_def numeral_2_eq_2 del: list.map)
qed

lemma parse_print_table_witness:
  "parse_line_card_status (print_table demo_cards) = Inr (line_card_snapshot demo_cards)"
  by (rule parse_print_table) code_simp+

end
