(* ===== verification/Redaction.thy ===== *)
theory Redaction
  imports PyRegex PyValue
begin

text \<open>
  Report redaction, \<open>cli_tool/reporting/redaction.py\<close>: sensitive keys of nested report values and
  sensitive patterns of text.
\<close>

section \<open>Keys\<close>

definition sensitive_keys :: "string list" where
  "sensitive_keys =
     [''password'', ''passwd'', ''sessionid'', ''token'', ''authorization'', ''devkey'', ''community'',
      ''snmpcommunity'']"

definition is_sensitive_key :: "string \<Rightarrow> bool" where
  "is_sensitive_key key =
     (lower (replace_char (CHR ''-'') [] (replace_char (CHR ''_'') [] key)) \<in> set sensitive_keys)"

section \<open>Text patterns\<close>

definition is_hex :: "char \<Rightarrow> bool" where
  "is_hex c = (in_range 48 57 c \<or> in_range 65 70 c \<or> in_range 97 102 c)"

abbreviation blanks :: rx where "blanks \<equiv> rx_star (One is_space)"
abbreviation blanks1 :: rx where "blanks1 \<equiv> rx_plus (One is_space)"
abbreviation rest_of_line :: rx where "rest_of_line \<equiv> rx_plus (One (\<lambda>c. c \<noteq> nl))"

definition mac_address :: rx where
  "mac_address = seqs
     [WordEdge, rx_times 2 (One is_hex), rx_times 5 (Cat (lit '':'') (rx_times 2 (One is_hex))), WordEdge]"

text \<open>\<open>(?im)^(\s*NAME\s*:\s*).+$\<close>\<close>

definition field_pattern :: "rx \<Rightarrow> rx" where
  "field_pattern name = seqs
     [LineStart, Grp 1 (seqs [blanks, name, blanks, lit '':'', blanks]), rest_of_line, LineEnd]"

definition serial_field :: rx where
  "serial_field = field_pattern (alts
     [Cat (lit_i ''serial'') (rx_opt (Cat blanks1 (lit_i ''number''))),
      seqs [lit_i ''chassis'', blanks1, lit_i ''serial'']])"

definition hostname_field :: rx where "hostname_field = field_pattern (lit_i ''hostname'')"
definition contact_field :: rx where "contact_field = field_pattern (lit_i ''contact'')"
definition location_field :: rx where "location_field = field_pattern (lit_i ''location'')"

definition xml_sensitive_tag_names :: "string list" where
  "xml_sensitive_tag_names =
     [''password'', ''hashed-password'', ''community'', ''snmp-community'', ''pre-shared-key'', ''psk'',
      ''secret'', ''shared-secret'', ''token'', ''public-key'', ''private-key'', ''cleartext-private-key'',
      ''encrypted-private-key'', ''cleartext-symmetric-key'', ''encrypted-symmetric-key'']"

definition xml_tag_name :: rx where
  "xml_tag_name =
     Cat (rx_opt (Cat (rx_plus (One (\<lambda>c. is_word c \<or> c \<in> set ''.-''))) (lit '':'')))
       (alts (map lit_i xml_sensitive_tag_names))"

definition xml_attributes :: rx where
  "xml_attributes = rx_opt (Grp 2 (Cat (One is_space) (rx_star (One (\<lambda>c. c \<noteq> CHR ''>'')))))"

definition xml_sensitive_tag :: rx where
  "xml_sensitive_tag = seqs
     [lit ''<'', Grp 1 xml_tag_name, xml_attributes, lit ''>'', rx_lazy (One (\<lambda>_. True)),
      lit ''</'', Back True 1, lit ''>'']"

definition redacted_mark :: string where "redacted_mark = ''***REDACTED***''"

definition xml_replacement :: "groups \<Rightarrow> string" where
  "xml_replacement gs =
     ''<'' @ group_or_empty gs 1 @ group_or_empty gs 2 @ ''>'' @ redacted_mark @ ''</'' @ group_or_empty gs 1 @ ''>''"

definition redact_xml :: "string \<Rightarrow> string" where
  "redact_xml value = rx_sub xml_sensitive_tag xml_replacement value"

definition redact_text :: "string \<Rightarrow> string" where
  "redact_text value =
     (let field = (\<lambda>gs. group_or_empty gs 1 @ redacted_mark);
          v1 = rx_sub mac_address (\<lambda>_. ''***MAC***'') value;
          v2 = rx_sub serial_field field v1;
          v3 = rx_sub hostname_field field v2;
          v4 = rx_sub contact_field field v3;
          v5 = rx_sub location_field field v4
      in redact_xml v5)"

section \<open>redact\<close>

fun redact :: "(pyfloat \<Rightarrow> string) \<Rightarrow> pyval \<Rightarrow> pyval" where
  "redact ft (PDict d) =
     PDict (map (\<lambda>(key, item).
       (key, if is_sensitive_key (str_val ft key) then PStr redacted_mark else redact ft item)) d)"
| "redact ft (PList xs) = PList (map (redact ft) xs)"
| "redact ft (PStr s) = PStr (redact_text s)"
| "redact ft v = v"

section \<open>What redaction guarantees for keys\<close>

text \<open>A value in which every sensitive key is masked and every other text went through \<open>redact_text\<close>.\<close>

fun masked :: "(pyfloat \<Rightarrow> string) \<Rightarrow> pyval \<Rightarrow> bool" where
  "masked ft (PDict d) =
     list_all (\<lambda>(key, item).
       if is_sensitive_key (str_val ft key) then item = PStr redacted_mark else masked ft item) d"
| "masked ft (PList xs) = list_all (masked ft) xs"
| "masked ft (PStr s) = (s \<in> range redact_text)"
| "masked ft v = True"

text \<open>Two values that agree everywhere but below sensitive keys.\<close>

fun same_public :: "(pyfloat \<Rightarrow> string) \<Rightarrow> pyval \<Rightarrow> pyval \<Rightarrow> bool" where
  "same_public ft (PDict d) (PDict e) =
     list_all2 (\<lambda>(k, x) (l, y). k = l \<and> (is_sensitive_key (str_val ft k) \<or> same_public ft x y)) d e"
| "same_public ft (PList xs) (PList ys) = list_all2 (same_public ft) xs ys"
| "same_public ft v w = (v = w)"

lemma map_eq_all2: "list_all2 (\<lambda>x y. f x = g y) xs ys \<Longrightarrow> map f xs = map g ys"
  by (induction rule: list_all2_induct) auto

lemma masked_redact: "masked ft (redact ft v)"
proof (induction ft v rule: redact.induct)
  case (1 ft d)
  then show ?case by (fastforce simp: list_all_iff)
next
  case (2 ft xs)
  then show ?case by (auto simp: list_all_iff)
qed auto

lemma same_public_redact: "same_public ft v w \<Longrightarrow> redact ft v = redact ft w"
proof (induction ft v w rule: same_public.induct)
  case (1 ft d e)
  have "list_all2 (\<lambda>p q. (\<lambda>(k, x). (k, if is_sensitive_key (str_val ft k) then PStr redacted_mark else redact ft x)) p =
      (\<lambda>(k, x). (k, if is_sensitive_key (str_val ft k) then PStr redacted_mark else redact ft x)) q) d e"
    using "1.prems" unfolding same_public.simps
    by (rule list.rel_mono_strong) (use "1.IH" in fastforce)
  then show ?case by (simp add: map_eq_all2)
next
  case (2 ft xs ys)
  have "list_all2 (\<lambda>x y. redact ft x = redact ft y) xs ys"
    using "2.prems" unfolding same_public.simps
    by (rule list.rel_mono_strong) (use "2.IH" in blast)
  then show ?case by (simp add: map_eq_all2)
qed auto

section \<open>What redaction guarantees for XML elements\<close>

lemma opt_none: "rx_match r st = [] \<Longrightarrow> rx_match (rx_opt r) st = [st]"
  by (cases "length (fst (snd st))") simp_all

lemma rep_lazy_any:
  "length q \<le> n \<Longrightarrow>
   rep_iter n (step_one (\<lambda>_. True)) False 0 None (p, q, gs) =
     map (\<lambda>k. (rev (take k q) @ p, drop k q, gs)) [0..<Suc (length q)]"
proof (induction n arbitrary: p q)
  case (Suc n)
  show ?case
  proof (cases q)
    case (Cons x q1)
    have "[0..<Suc (Suc (length q1))] = 0 # [Suc 0..<Suc (Suc (length q1))]"
      by (rule upt_conv_Cons) simp
    then have "[0..<Suc (length q)] = 0 # map Suc [0..<Suc (length q1)]"
      by (simp only: Cons length_Cons map_Suc_upt)
    with Suc Cons show ?thesis by (simp add: comp_def del: upt_Suc)
  qed simp
qed simp

lemma match_lazy_any:
  "rx_match (rx_lazy (One (\<lambda>_. True))) (p, q, gs) =
     map (\<lambda>k. (rev (take k q) @ p, drop k q, gs)) [0..<Suc (length q)]"
proof -
  have "rx_match (One (\<lambda>_. True)) = step_one (\<lambda>_. True)" by (rule ext) simp
  then show ?thesis using rep_lazy_any [of q "length q"] by simp
qed

lemma concat_first:
  assumes "m < n" and "\<And>k. k < m \<Longrightarrow> F k = []" and "F m = x # xs"
  shows "\<exists>ys. concat (map F [0..<n]) = x # ys"
proof -
  have "[0..<n] = [0..<m] @ m # [Suc m..<n]"
    using assms(1) upt_add_eq_append [of 0 m "n - m"] by (simp add: upt_conv_Cons)
  then have "concat (map F [0..<n]) = concat (map F [0..<m]) @ F m @ concat (map F [Suc m..<n])" by simp
  moreover have "concat (map F [0..<m]) = []" using assms(2) by simp
  ultimately show ?thesis using assms(3) by (simp only: append_Nil append_Cons) blast
qed

lemma sub_from_skip:
  assumes "\<And>x p v. x \<in> set pre \<Longrightarrow> rx_match r (p, x # v, []) = []"
  shows "sub_from r f p (pre @ q) = pre @ sub_from r f (rev pre @ p) q"
  using assms
proof (induction pre arbitrary: p)
  case (Cons x pre)
  then have "rx_at r (p, x # pre @ q) = None" by (simp add: rx_at_None_iff)
  then have "sub_from r f p ((x # pre) @ q) = x # sub_from r f (x # p) (pre @ q)"
    by (subst sub_from.simps) simp
  with Cons show ?case by simp
qed simp

lemma sub_from_hit:
  assumes "rx_at r (p, q) = Some (p', q', gs)" and "length q' < length q"
  shows "sub_from r f p q = f gs @ sub_from r f p' q'"
  using assms by (subst sub_from.simps) simp

lemma match_head: "x \<noteq> CHR ''<'' \<Longrightarrow> rx_match xml_sensitive_tag (p, x # v, gs) = []"
  by (simp add: xml_sensitive_tag_def match_lit starts_with_def del: lit_def)

definition tag_name_char :: "char \<Rightarrow> bool" where
  "tag_name_char c = (is_word c \<or> c \<in> set ''.-'')"

lemma prefix_option_none:
  assumes "list_all tag_name_char tag" and "\<not> tag_name_char (CHR ''>'')" and "CHR '':'' \<notin> set tag"
  shows "rx_match (Cat (rx_plus (One tag_name_char)) (lit '':'')) (p, tag @ CHR ''>'' # rest, gs) = []"
proof -
  have "False" if st: "st \<in> set (rx_match (Cat (rx_plus (One tag_name_char)) (lit '':'')) (p, tag @ CHR ''>'' # rest, gs))" for st
  proof -
    from st obtain w q' where w: "tag @ CHR ''>'' # rest = w @ CHR '':'' # q'" "list_all tag_name_char w"
      unfolding match_Cat
      by (auto simp: match_Rep_One match_lit starts_with_iff simp del: rx_match.simps(5) split: if_splits)
    have "length w < length tag \<or> w = tag \<or> (\<exists>u. w = tag @ CHR ''>'' # u)"
      using w(1) by (auto simp: append_eq_append_conv2 Cons_eq_append_conv)
    then show False
    proof (elim disjE exE)
      assume "length w < length tag"
      then have "tag ! length w = CHR '':''" "length w < length tag"
        using w(1) by (metis nth_append nth_append_length)+
      then show False using assms(3) by (metis nth_mem)
    qed (use w assms(2) in auto)
  qed
  then show ?thesis by (metis list.set_intros(1) neq_Nil_conv)
qed

lemma tag_names_plain:
  "list_all (\<lambda>tag. list_all tag_name_char tag \<and> CHR '':'' \<notin> set tag) xml_sensitive_tag_names"
  "\<not> tag_name_char (CHR ''>'')"
  by code_simp+

lemma tag_names_prefix_free:
  "list_all (\<lambda>n. list_all (\<lambda>t. lower (take (length n) t) = lower n \<longrightarrow> n = t) xml_sensitive_tag_names)
     xml_sensitive_tag_names"
  "list_all (\<lambda>n. CHR ''>'' \<notin> set (lower n)) xml_sensitive_tag_names"
  "distinct xml_sensitive_tag_names"
  by code_simp+

lemma tag_name_at_iff:
  assumes n: "n \<in> set xml_sensitive_tag_names" and t: "tag \<in> set xml_sensitive_tag_names"
  shows "lower (take (length n) (tag @ CHR ''>'' # rest)) = lower n \<longleftrightarrow> n = tag"
proof
  assume eq: "lower (take (length n) (tag @ CHR ''>'' # rest)) = lower n"
  show "n = tag"
  proof (cases "length n \<le> length tag")
    case True
    then show ?thesis using eq n t tag_names_prefix_free(1) by (auto simp: list_all_iff)
  next
    case False
    then have "CHR ''>'' \<in> set (take (length n) (tag @ CHR ''>'' # rest))"
      by (cases "length n - length tag") auto
    then have "lower_char (CHR ''>'') \<in> set (lower n)"
      by (metis eq image_eqI list.set_map lower_def)
    moreover have "lower_char (CHR ''>'') = CHR ''>''" by code_simp
    ultimately show ?thesis using n tag_names_prefix_free(2) by (auto simp: list_all_iff)
  qed
qed simp

lemma match_alts: "rs \<noteq> [] \<Longrightarrow> rx_match (alts rs) st = concat (map (\<lambda>r. rx_match r st) rs)"
  by (induction rs rule: alts.induct) auto

lemma concat_single:
  "distinct xs \<Longrightarrow> t \<in> set xs \<Longrightarrow> concat (map (\<lambda>x. if x = t then [y] else []) xs) = [y]"
proof (induction xs)
  case (Cons x xs)
  then show ?case by (cases "x = t") auto
qed simp

lemma match_tag_alts:
  assumes "tag \<in> set xml_sensitive_tag_names"
  shows "rx_match (alts (map lit_i xml_sensitive_tag_names)) (p, tag @ CHR ''>'' # rest, gs) =
    [(rev tag @ p, CHR ''>'' # rest, gs)]"
proof -
  have "rx_match (lit_i n) (p, tag @ CHR ''>'' # rest, gs) =
      (if n = tag then [(rev tag @ p, CHR ''>'' # rest, gs)] else [])" if "n \<in> set xml_sensitive_tag_names" for n
    unfolding match_lit_i using tag_name_at_iff [OF that assms] by auto
  then have m: "map (\<lambda>n. rx_match (lit_i n) (p, tag @ CHR ''>'' # rest, gs)) xml_sensitive_tag_names =
      map (\<lambda>n. if n = tag then [(rev tag @ p, CHR ''>'' # rest, gs)] else []) xml_sensitive_tag_names"
    by (rule map_cong [OF refl])
  have "map lit_i xml_sensitive_tag_names \<noteq> []" using assms by auto
  from match_alts [OF this] show ?thesis
    by (simp only: map_map comp_def m concat_single [OF tag_names_prefix_free(3) assms])
qed

lemma match_tag_name:
  assumes "tag \<in> set xml_sensitive_tag_names"
  shows "rx_match xml_tag_name (p, tag @ CHR ''>'' # rest, gs) = [(rev tag @ p, CHR ''>'' # rest, gs)]"
proof -
  have "list_all tag_name_char tag" "CHR '':'' \<notin> set tag"
    using assms tag_names_plain(1) by (auto simp: list_all_iff)
  then have "rx_match (rx_opt (Cat (rx_plus (One tag_name_char)) (lit '':''))) (p, tag @ CHR ''>'' # rest, gs) =
      [(p, tag @ CHR ''>'' # rest, gs)]"
    by (intro opt_none prefix_option_none tag_names_plain(2))
  moreover have "(\<lambda>c. is_word c \<or> c \<in> set ''.-'') = tag_name_char"
    by (rule ext) (simp add: tag_name_char_def)
  ultimately show ?thesis
    using match_tag_alts [OF assms] unfolding xml_tag_name_def
    by (simp del: rx_match.simps(5) add: rx_match.simps(3))
qed

text \<open>The element body is the shortest text before the matching closing tag.\<close>

lemma match_element:
  assumes tag: "tag \<in> set xml_sensitive_tag_names" and secret: "CHR ''<'' \<notin> set secret"
  shows "rx_at xml_sensitive_tag
      (p, ''<'' @ tag @ ''>'' @ secret @ ''</'' @ tag @ ''>'' @ post) =
    Some (rev (''<'' @ tag @ ''>'' @ secret @ ''</'' @ tag @ ''>'') @ p, post, [(1, tag)])"
proof -
  let ?close = "''</'' @ tag @ ''>'' @ post"
  let ?body = "secret @ ?close"
  let ?p2 = "rev (''<'' @ tag @ ''>'') @ p" and ?gs = "[(1::nat, tag)]"
  let ?closing = "seqs [lit ''</'', Back True 1, lit ''>'']"
  have attr: "rx_match xml_attributes (q, CHR ''>'' # r, gs) = [(q, CHR ''>'' # r, gs)]" for q r gs
  proof -
    have "\<not> is_space (CHR ''>'')" by code_simp
    then show ?thesis unfolding xml_attributes_def by (intro opt_none) simp
  qed
  have lt: "rx_match (lit ''<'') (p, ''<'' @ tag @ ''>'' @ ?body, []) =
      [(CHR ''<'' # p, tag @ CHR ''>'' # ?body, [])]"
    by (simp add: match_lit starts_with_def)
  have grp: "rx_match (Grp 1 xml_tag_name) (CHR ''<'' # p, tag @ CHR ''>'' # ?body, []) =
      [(rev tag @ CHR ''<'' # p, CHR ''>'' # ?body, ?gs)]"
    by (simp only: rx_match.simps match_tag_name [OF tag]) simp
  have gt: "rx_match (lit ''>'') (rev tag @ CHR ''<'' # p, CHR ''>'' # ?body, ?gs) = [(?p2, ?body, ?gs)]"
    by (simp add: match_lit starts_with_def)
  define F where "F k = rx_match ?closing (rev (take k ?body) @ ?p2, drop k ?body, ?gs)" for k
  have early: "F k = []" if "k < length secret" for k
  proof -
    have "drop k ?body = secret ! k # (drop (Suc k) secret @ ?close)"
      using that by (simp add: Cons_nth_drop_Suc [symmetric])
    moreover have "secret ! k \<noteq> CHR ''<''" using that secret by (metis nth_mem)
    ultimately show ?thesis by (simp add: F_def match_lit starts_with_def)
  qed
  have hit: "F (length secret) =
      [(rev (''<'' @ tag @ ''>'' @ secret @ ''</'' @ tag @ ''>'') @ p, post, ?gs)]"
    by (simp add: F_def match_lit starts_with_def)
  have "rx_match xml_sensitive_tag (p, ''<'' @ tag @ ''>'' @ ?body, []) =
      concat (map F [0..<Suc (length ?body)])"
    unfolding xml_sensitive_tag_def
    by (simp only: seqs.simps rx_match.simps(3) lt grp attr gt match_lazy_any list.map concat.simps
        append_Nil2 map_map comp_def F_def [abs_def])
  moreover obtain ys where "concat (map F [0..<Suc (length ?body)]) =
      (rev (''<'' @ tag @ ''>'' @ secret @ ''</'' @ tag @ ''>'') @ p, post, ?gs) # ys"
    using concat_first [where F = F, OF _ early hit, of "Suc (length ?body)"] by auto
  ultimately show ?thesis by (simp add: rx_at_def)
qed

lemma redact_xml_element:
  assumes "tag \<in> set xml_sensitive_tag_names" and "CHR ''<'' \<notin> set secret" and "CHR ''<'' \<notin> set pre"
  shows "redact_xml (pre @ ''<'' @ tag @ ''>'' @ secret @ ''</'' @ tag @ ''>'' @ post) =
    pre @ ''<'' @ tag @ ''>'' @ redacted_mark @ ''</'' @ tag @ ''>'' @
    sub_from xml_sensitive_tag xml_replacement
      (rev (pre @ ''<'' @ tag @ ''>'' @ secret @ ''</'' @ tag @ ''>'')) post"
proof -
  have "rx_match xml_sensitive_tag (p, x # v, []) = []" if "x \<in> set pre" for x p v
    using that assms(3) by (intro match_head) auto
  from sub_from_skip [OF this]
  have "redact_xml (pre @ ''<'' @ tag @ ''>'' @ secret @ ''</'' @ tag @ ''>'' @ post) =
    pre @ sub_from xml_sensitive_tag xml_replacement (rev pre)
      (''<'' @ tag @ ''>'' @ secret @ ''</'' @ tag @ ''>'' @ post)"
    by (simp add: redact_xml_def rx_sub_def)
  then show ?thesis
    by (subst (asm) sub_from_hit [OF match_element [OF assms(1,2)]])
      (simp_all add: xml_replacement_def group_or_empty_def)
qed

lemma xml_pattern_context_free: "\<not> looks_back xml_sensitive_tag"
proof -
  have "\<not> looks_back (seqs rs)" if "\<forall>r \<in> set rs. \<not> looks_back r" for rs
    using that by (induction rs rule: seqs.induct) auto
  moreover have "\<not> looks_back (alts rs)" if "\<forall>r \<in> set rs. \<not> looks_back r" for rs
    using that by (induction rs rule: alts.induct) auto
  ultimately show ?thesis
    by (simp add: xml_sensitive_tag_def xml_tag_name_def xml_attributes_def lit_def lit_i_def)
qed

section \<open>Properties\<close>

text \<open>C15. Non-interference of reports: two report values that differ only below sensitive keys have the
  same redacted form, so nothing stored under such a key, at any depth, can be read off a report.\<close>

theorem redact_hides_sensitive_values:
  assumes "same_public ft v w"
  shows "redact ft v = redact ft w"
  by (rule same_public_redact [OF assms])

lemma redact_hides_sensitive_values_witness:
  "redact (\<lambda>_. []) (PList [PDict [(PStr ''Pass-Word'', PStr ''a''), (PStr ''n'', PInt 1)]]) =
   redact (\<lambda>_. []) (PList [PDict [(PStr ''Pass-Word'', PStr ''b''), (PStr ''n'', PInt 1)]])"
  by (rule redact_hides_sensitive_values) code_simp

text \<open>A redacted value is masked throughout: at any depth the item of a sensitive key is the mark,
  and every other string went through the text patterns.\<close>

theorem redact_masked: "masked ft (redact ft v)"
  by (rule masked_redact)



end
