(* ===== verification/Effects.thy ===== *)
theory Effects
  imports Prelude
begin

text \<open>
  Code with effects: a run takes the state of everything outside the function to a result and a new
  state. \<open>try_finally\<close>, \<open>catch_when\<close> and \<open>swallow\<close> are Python's \<open>try\<close> statements.
  \<open>triple\<close> is partial correctness with a postcondition for each way to leave, and its rules
  carry the safety proofs of the components.
\<close>

type_synonym ('s, 'a) act = "'s \<Rightarrow> 'a result \<times> 's"

section \<open>Combinators\<close>

definition ret :: "'a \<Rightarrow> ('s, 'a) act" where
  "ret x s = (Inr x, s)"

definition throw :: "exn \<Rightarrow> ('s, 'a) act" where
  "throw e s = (Inl e, s)"

definition lift :: "'a result \<Rightarrow> ('s, 'a) act" where
  "lift r s = (r, s)"

definition bnd :: "('s, 'a) act \<Rightarrow> ('a \<Rightarrow> ('s, 'b) act) \<Rightarrow> ('s, 'b) act" where
  "bnd m f s = (case m s of (Inl e, s') \<Rightarrow> (Inl e, s') | (Inr x, s') \<Rightarrow> f x s')"

text \<open>\<open>try: m finally: fin\<close>. An exception of the \<open>finally\<close> block replaces the outcome.\<close>

definition try_finally :: "('s, 'a) act \<Rightarrow> ('s, 'b) act \<Rightarrow> ('s, 'a \<times> 'b) act" where
  "try_finally m fin s =
     (case m s of (r, s1) \<Rightarrow>
        (case fin s1 of
           (Inl e, s2) \<Rightarrow> (Inl e, s2)
         | (Inr y, s2) \<Rightarrow> (case r of Inl e \<Rightarrow> Inl e | Inr x \<Rightarrow> Inr (x, y), s2)))"

text \<open>\<open>try: m except C as e: handler(e)\<close>, with the class test of \<open>C\<close>.\<close>

definition catch_when :: "(exn \<Rightarrow> bool) \<Rightarrow> ('s, 'a) act \<Rightarrow> (exn \<Rightarrow> ('s, 'a) act) \<Rightarrow> ('s, 'a) act" where
  "catch_when P m h s =
     (case m s of (Inl e, s') \<Rightarrow> (if P e then h e s' else (Inl e, s')) | (Inr x, s') \<Rightarrow> (Inr x, s'))"

text \<open>\<open>try: m except Exception: pass\<close>; \<open>None\<close> when the exception was dropped.\<close>

definition swallow :: "('s, 'a) act \<Rightarrow> ('s, 'a option) act" where
  "swallow m = catch_when is_exception (bnd m (\<lambda>x. ret (Some x))) (\<lambda>_. ret None)"

text \<open>Reading and writing a part of the state.\<close>

definition gets :: "('s \<Rightarrow> 'a) \<Rightarrow> ('s, 'a) act" where
  "gets f s = (Inr (f s), s)"

definition modify :: "('s \<Rightarrow> 's) \<Rightarrow> ('s, unit) act" where
  "modify f s = (Inr (), f s)"

definition guard_not :: "bool \<Rightarrow> exn \<Rightarrow> ('s, unit) act" where
  "guard_not c e = (if c then throw e else ret ())"

text \<open>A loop over a list, collecting the results.\<close>

fun for_each :: "'a list \<Rightarrow> ('a \<Rightarrow> ('s, 'b) act) \<Rightarrow> ('s, 'b list) act" where
  "for_each [] f = ret []"
| "for_each (x # xs) f = bnd (f x) (\<lambda>y. bnd (for_each xs f) (\<lambda>ys. ret (y # ys)))"

section \<open>Equations\<close>

named_theorems act_simps "one step of a run"

lemma ret_run [act_simps]: "ret x s = (Inr x, s)" by (simp add: ret_def)
lemma throw_run [act_simps]: "throw e s = (Inl e, s)" by (simp add: throw_def)
lemma lift_run [act_simps]: "lift r s = (r, s)" by (simp add: lift_def)
lemma gets_run [act_simps]: "gets f s = (Inr (f s), s)" by (simp add: gets_def)
lemma modify_run [act_simps]: "modify f s = (Inr (), f s)" by (simp add: modify_def)

lemma bnd_Inr [act_simps]: "m s = (Inr x, s') \<Longrightarrow> bnd m f s = f x s'" by (simp add: bnd_def)
lemma bnd_Inl [act_simps]: "m s = (Inl e, s') \<Longrightarrow> bnd m f s = (Inl e, s')" by (simp add: bnd_def)

lemma bnd_ret [simp]: "bnd (ret x) f = f x" by (rule ext) (simp add: bnd_def ret_def)
lemma bnd_throw [simp]: "bnd (throw e) f = throw e" by (rule ext) (simp add: bnd_def throw_def)

lemma bnd_assoc: "bnd (bnd m f) g = bnd m (\<lambda>x. bnd (f x) g)"
  by (rule ext) (simp add: bnd_def split: prod.split sum.split)

lemma lift_simps [simp]: "lift (Inr x) = ret x" "lift (Inl e) = throw e"
  by (rule ext, simp add: lift_def ret_def throw_def)+

lemma guard_not_simps [simp]: "guard_not False e = ret ()" "guard_not True e = throw e"
  by (simp_all add: guard_not_def)

lemma bnd_eq_Inr:
  "bnd m f s = (Inr y, s'') \<longleftrightarrow> (\<exists>x s'. m s = (Inr x, s') \<and> f x s' = (Inr y, s''))"
  by (auto simp: bnd_def split: prod.splits sum.splits)

lemma for_each_length: "for_each xs f s = (Inr ys, s') \<Longrightarrow> length ys = length xs"
  by (induction xs arbitrary: s ys) (auto simp: act_simps bnd_eq_Inr)

lemma for_each_map:
  assumes "for_each xs f s = (Inr ys, s')" and "\<And>x s y s'. f x s = (Inr y, s') \<Longrightarrow> g y = h x"
  shows "map g ys = map h xs"
  using assms(1)
  by (induction xs arbitrary: s ys) (auto simp: act_simps bnd_eq_Inr dest: assms(2))

lemma catch_rethrow_Inr:
  "catch_when P m (\<lambda>e. bnd (f e) (\<lambda>_. throw e)) s = (Inr x, s') \<longleftrightarrow> m s = (Inr x, s')"
  by (auto simp: catch_when_def bnd_def throw_def split: prod.splits sum.splits)

lemma finally_eq_Inr:
  "try_finally m fin s = (Inr (x, y), s') \<longleftrightarrow> (\<exists>s1. m s = (Inr x, s1) \<and> fin s1 = (Inr y, s'))"
  by (auto simp: try_finally_def split: prod.splits sum.splits)

section \<open>Partial correctness\<close>

definition triple ::
  "('s \<Rightarrow> bool) \<Rightarrow> ('s, 'a) act \<Rightarrow> ('a \<Rightarrow> 's \<Rightarrow> bool) \<Rightarrow> (exn \<Rightarrow> 's \<Rightarrow> bool) \<Rightarrow> bool" where
  "triple P m Q E =
     (\<forall>s. P s \<longrightarrow> (case m s of (Inr x, s') \<Rightarrow> Q x s' | (Inl e, s') \<Rightarrow> E e s'))"

lemma tripleI:
  "(\<And>s x s'. P s \<Longrightarrow> m s = (Inr x, s') \<Longrightarrow> Q x s') \<Longrightarrow>
   (\<And>s e s'. P s \<Longrightarrow> m s = (Inl e, s') \<Longrightarrow> E e s') \<Longrightarrow> triple P m Q E"
  by (fastforce simp: triple_def split: prod.split sum.split)

lemma triple_Inr: "triple P m Q E \<Longrightarrow> P s \<Longrightarrow> m s = (Inr x, s') \<Longrightarrow> Q x s'"
  by (fastforce simp: triple_def)

lemma triple_Inl: "triple P m Q E \<Longrightarrow> P s \<Longrightarrow> m s = (Inl e, s') \<Longrightarrow> E e s'"
  by (fastforce simp: triple_def)

lemma triple_run:
  "triple P m Q E \<Longrightarrow> P s \<Longrightarrow> m s = (r, s') \<Longrightarrow> (case r of Inr x \<Rightarrow> Q x s' | Inl e \<Rightarrow> E e s')"
  by (fastforce simp: triple_def split: sum.split)

lemma triple_conseq:
  "triple P' m Q' E' \<Longrightarrow> (\<And>s. P s \<Longrightarrow> P' s) \<Longrightarrow> (\<And>x s. Q' x s \<Longrightarrow> Q x s) \<Longrightarrow>
   (\<And>e s. E' e s \<Longrightarrow> E e s) \<Longrightarrow> triple P m Q E"
  by (fastforce simp: triple_def split: prod.splits sum.splits)

lemma triple_ret: "(\<And>s. P s \<Longrightarrow> Q x s) \<Longrightarrow> triple P (ret x) Q E"
  by (simp add: triple_def ret_def)

lemma triple_throw: "(\<And>s. P s \<Longrightarrow> E e s) \<Longrightarrow> triple P (throw e) Q E"
  by (simp add: triple_def throw_def)

lemma triple_lift:
  "(\<And>s x. P s \<Longrightarrow> r = Inr x \<Longrightarrow> Q x s) \<Longrightarrow> (\<And>s e. P s \<Longrightarrow> r = Inl e \<Longrightarrow> E e s) \<Longrightarrow>
   triple P (lift r) Q E"
  by (cases r) (simp_all add: triple_def throw_def ret_def)

lemma triple_gets: "(\<And>s. P s \<Longrightarrow> Q (f s) s) \<Longrightarrow> triple P (gets f) Q E"
  by (simp add: triple_def gets_def)

lemma triple_modify: "(\<And>s. P s \<Longrightarrow> Q () (f s)) \<Longrightarrow> triple P (modify f) Q E"
  by (simp add: triple_def modify_def)

lemma triple_bnd:
  "triple P m R E \<Longrightarrow> (\<And>x. triple (R x) (f x) Q E) \<Longrightarrow> triple P (bnd m f) Q E"
  by (fastforce simp: triple_def bnd_def split: prod.splits sum.splits)

lemma triple_finally:
  "triple P m R Em \<Longrightarrow> (\<And>x. triple (R x) fin (\<lambda>y. Q (x, y)) E) \<Longrightarrow> (\<And>e. triple (Em e) fin (\<lambda>_. E e) E) \<Longrightarrow>
   triple P (try_finally m fin) Q E"
proof -
  assume m: "triple P m R Em" and f1: "\<And>x. triple (R x) fin (\<lambda>y. Q (x, y)) E"
    and f2: "\<And>e. triple (Em e) fin (\<lambda>_. E e) E"
  have "case try_finally m fin s of (Inr x, s') \<Rightarrow> Q x s' | (Inl e, s') \<Rightarrow> E e s'" if P: "P s" for s
  proof (cases "m s")
    case (Pair r s1)
    note r = triple_run [OF m P Pair]
    obtain r' s2 where fin: "fin s1 = (r', s2)" by (cases "fin s1")
    show ?thesis
    proof (cases r)
      case (Inl e)
      with r have "Em e s1" by simp
      from triple_run [OF f2 this fin] show ?thesis
        using Pair Inl fin by (cases r') (simp_all add: try_finally_def)
    next
      case (Inr x)
      with r have "R x s1" by simp
      from triple_run [OF f1 this fin] show ?thesis
        using Pair Inr fin by (cases r') (simp_all add: try_finally_def)
    qed
  qed
  then show ?thesis by (simp add: triple_def)
qed

lemma triple_any: "triple P m (\<lambda>_ _. True) (\<lambda>_ _. True)"
  by (simp add: triple_def split: prod.split sum.split)

text \<open>What the \<open>finally\<close> block establishes holds afterwards, whatever came before.\<close>

lemma triple_finally_after:
  assumes "triple (\<lambda>_. True) fin (\<lambda>_. Q) (\<lambda>_. Q)"
  shows "triple P (try_finally m fin) (\<lambda>_. Q) (\<lambda>_. Q)"
  by (rule triple_finally [OF triple_any]) (rule assms)+

lemma finally_Inr: "try_finally m fin s = (Inr (x, y), s') \<Longrightarrow> \<exists>s1. m s = (Inr x, s1)"
  by (auto simp: try_finally_def split: prod.splits sum.splits)

lemma triple_catch:
  "triple P m Q Em \<Longrightarrow> (\<And>e. C e \<Longrightarrow> triple (Em e) (h e) Q E) \<Longrightarrow>
   (\<And>e s. \<not> C e \<Longrightarrow> Em e s \<Longrightarrow> E e s) \<Longrightarrow> triple P (catch_when C m h) Q E"
  by (fastforce simp: triple_def catch_when_def split: prod.splits sum.splits)

lemma triple_swallow:
  "triple P m (\<lambda>x. Q (Some x)) (\<lambda>e s. Q None s \<and> E e s) \<Longrightarrow> triple P (swallow m) Q E"
  unfolding swallow_def
  by (rule triple_catch [where Em = "\<lambda>e s. Q None s \<and> E e s"])
    (auto intro!: triple_bnd triple_ret)

lemma triple_if:
  "(c \<Longrightarrow> triple P m Q E) \<Longrightarrow> (\<not> c \<Longrightarrow> triple P m' Q E) \<Longrightarrow> triple P (if c then m else m') Q E"
  by simp

lemma triple_guard_not:
  "(\<And>s. P s \<Longrightarrow> c \<Longrightarrow> E e s) \<Longrightarrow> (\<And>s. P s \<Longrightarrow> \<not> c \<Longrightarrow> Q () s) \<Longrightarrow> triple P (guard_not c e) Q E"
  by (simp add: guard_not_def triple_def ret_def throw_def)

lemma triple_for_each:
  assumes "\<And>x. x \<in> set xs \<Longrightarrow> triple I (f x) (\<lambda>_. I) E"
  shows "triple I (for_each xs f) (\<lambda>_. I) E"
  using assms
proof (induction xs)
  case (Cons x xs)
  then show ?case by (auto intro!: triple_bnd [where R = "\<lambda>_. I"] triple_ret)
qed (simp add: triple_ret)

text \<open>An invariant that holds however the run ends.\<close>

definition keeps :: "('s \<Rightarrow> bool) \<Rightarrow> ('s, 'a) act \<Rightarrow> bool" where
  "keeps I m = (\<forall>s. I s \<longrightarrow> I (snd (m s)))"

lemma keeps_triple: "keeps I m \<longleftrightarrow> triple I m (\<lambda>_. I) (\<lambda>_. I)"
  by (fastforce simp: keeps_def triple_def split: prod.split sum.split)

named_theorems keeps_intros "composition of invariants"

lemma keeps_ret [keeps_intros]: "keeps I (ret x)" by (simp add: keeps_def ret_def)
lemma keeps_throw [keeps_intros]: "keeps I (throw e)" by (simp add: keeps_def throw_def)
lemma keeps_lift [keeps_intros]: "keeps I (lift r)" by (simp add: keeps_def lift_def)
lemma keeps_gets [keeps_intros]: "keeps I (gets f)" by (simp add: keeps_def gets_def)
lemma keeps_guard_not [keeps_intros]: "keeps I (guard_not c e)"
  by (simp add: guard_not_def keeps_ret keeps_throw)

lemma keeps_bnd [keeps_intros]: "keeps I m \<Longrightarrow> (\<And>x. keeps I (f x)) \<Longrightarrow> keeps I (bnd m f)"
  unfolding keeps_triple by (rule triple_bnd)

lemma keeps_finally [keeps_intros]: "keeps I m \<Longrightarrow> keeps I fin \<Longrightarrow> keeps I (try_finally m fin)"
  unfolding keeps_triple by (rule triple_finally [where Em = "\<lambda>_. I"])

lemma keeps_catch [keeps_intros]: "keeps I m \<Longrightarrow> (\<And>e. keeps I (h e)) \<Longrightarrow> keeps I (catch_when C m h)"
  unfolding keeps_triple by (rule triple_catch [where Em = "\<lambda>_. I"])

lemma keeps_swallow [keeps_intros]: "keeps I m \<Longrightarrow> keeps I (swallow m)"
  unfolding swallow_def by (intro keeps_intros)

lemma keeps_if [keeps_intros]: "keeps I m \<Longrightarrow> keeps I m' \<Longrightarrow> keeps I (if c then m else m')" by simp

lemma keeps_for_each [keeps_intros]: "(\<And>x. keeps I (f x)) \<Longrightarrow> keeps I (for_each xs f)"
  by (induction xs) (auto intro!: keeps_intros)

lemma keeps_for_each_mem: "(\<And>x. x \<in> set xs \<Longrightarrow> keeps I (f x)) \<Longrightarrow> keeps I (for_each xs f)"
  by (induction xs) (auto intro!: keeps_intros)

lemma keeps_option [keeps_intros]:
  "keeps I m \<Longrightarrow> (\<And>x. keeps I (f x)) \<Longrightarrow> keeps I (case o' of None \<Rightarrow> m | Some x \<Rightarrow> f x)"
  by (cases o') simp_all

lemma keeps_sum [keeps_intros]:
  "(\<And>x. keeps I (f x)) \<Longrightarrow> (\<And>x. keeps I (g x)) \<Longrightarrow> keeps I (case r of Inl x \<Rightarrow> f x | Inr x \<Rightarrow> g x)"
  by (cases r) simp_all

lemma keeps_prod [keeps_intros]: "(\<And>x y. keeps I (f x y)) \<Longrightarrow> keeps I (case p of (x, y) \<Rightarrow> f x y)"
  by (cases p) simp

lemma keepsD: "keeps I m \<Longrightarrow> m s = (r, s') \<Longrightarrow> I s \<Longrightarrow> I s'"
  by (metis keeps_def snd_conv)

end
