(* ===== verification/PyBytes.thy ===== *)
theory PyBytes
  imports PyText
begin

text \<open>
  Byte strings of the standard library that the program handles: a byte is a character, base64 and
  hexadecimal text of a digest.
\<close>

section \<open>UTF-8\<close>

text \<open>\<open>value.encode("utf-8")\<close> on Latin-1 text.\<close>

definition utf8_char :: "char \<Rightarrow> string" where
  "utf8_char c = (let n = code_point c in
     if n < 128 then [c] else [char_of (192 + n div 64), char_of (128 + n mod 64)])"

definition utf8_encode :: "string \<Rightarrow> string" where
  "utf8_encode s = concat (map utf8_char s)"

definition base64_alphabet :: string where
  "base64_alphabet = ''ABCDEFGHIJKLMNOPQRSTUVWXYZabcdefghijklmnopqrstuvwxyz0123456789+/''"

definition base64_char :: "nat \<Rightarrow> char" where
  "base64_char n = base64_alphabet ! (n mod 64)"

text \<open>\<open>base64.b64encode(data).decode("ascii")\<close>\<close>

fun b64encode :: "string \<Rightarrow> string" where
  "b64encode [] = []"
| "b64encode [a] =
     (let n = code_point a in [base64_char (n div 4), base64_char (n mod 4 * 16)] @ ''=='')"
| "b64encode [a, b] =
     (let n = code_point a * 256 + code_point b
      in [base64_char (n div 1024), base64_char (n div 16), base64_char (n mod 16 * 4)] @ ''='')"
| "b64encode (a # b # c # rest) =
     (let n = code_point a * 65536 + code_point b * 256 + code_point c
      in [base64_char (n div 262144), base64_char (n div 4096), base64_char (n div 64), base64_char n] @
         b64encode rest)"

text \<open>\<open>digest.hexdigest()\<close>\<close>

definition hex_of_byte :: "char \<Rightarrow> string" where
  "hex_of_byte c = [hex_digit (code_point c div 16), hex_digit (code_point c mod 16)]"

definition hexdigest :: "string \<Rightarrow> string" where
  "hexdigest digest = concat (map hex_of_byte digest)"

definition is_base64_char :: "char \<Rightarrow> bool" where
  "is_base64_char c = (c \<in> set base64_alphabet)"

lemma base64_char_ok: "is_base64_char (base64_char n)"
proof -
  have "n mod 64 < length base64_alphabet" by (simp add: base64_alphabet_def)
  then show ?thesis unfolding is_base64_char_def base64_char_def by (rule nth_mem)
qed

lemma b64encode_shape:
  "\<exists>body k. b64encode data = body @ replicate k (CHR ''='') \<and> list_all is_base64_char body"
proof (induction data rule: b64encode.induct)
  case 1
  then show ?case by (intro exI [of _ "[]"] exI [of _ 0]) simp
next
  case (2 a)
  show ?case
    by (intro exI [of _ "take 2 (b64encode [a])"] exI [of _ 2])
      (simp add: Let_def base64_char_ok numeral_2_eq_2)
next
  case (3 a b)
  show ?case
    by (intro exI [of _ "take 3 (b64encode [a, b])"] exI [of _ 1])
      (simp add: Let_def base64_char_ok)
next
  case (4 a b c rest)
  then obtain body k where "b64encode rest = body @ replicate k (CHR ''='')" "list_all is_base64_char body"
    by blast
  then show ?case
    by (intro exI [of _ "take 4 (b64encode (a # b # c # rest)) @ body"] exI [of _ k])
      (simp add: Let_def base64_char_ok)
qed

lemma base64_plain:
  assumes "is_base64_char c"
  shows "\<not> is_space c" and "c \<noteq> CHR ''=''" and "c \<noteq> CHR '':''"
proof -
  have "list_all (\<lambda>c. \<not> is_space c \<and> c \<noteq> CHR ''='' \<and> c \<noteq> CHR '':'') base64_alphabet" by code_simp
  then show "\<not> is_space c" and "c \<noteq> CHR ''=''" and "c \<noteq> CHR '':''"
    using assms by (auto simp: is_base64_char_def list_all_iff)
qed

end
