(* ===== verification/Netconf.thy ===== *)
theory Netconf
  imports Effects PyBytes PyValue
begin

text \<open>
  The NETCONF client, \<open>cli_tool/transport/netconf.py\<close>. The server and ncclient are the fields
  of \<open>netconf_env\<close>, functions on a state of the world \<open>'w\<close>. The state of a run is the
  world and the list of exchanges with the server so far, which no definition reads.
\<close>

section \<open>Constants and results\<close>

definition default_netconf_port :: int where "default_netconf_port = 830"
definition allowed_datastores :: "string list" where
  "allowed_datastores = [''running'', ''candidate'', ''startup'']"
definition mutation_target :: string where "mutation_target = ''candidate''"

definition candidate_capabilities :: "string list" where
  "candidate_capabilities = [''urn:ietf:params:netconf:capability:candidate:1.0'']"

definition confirmed_commit_capabilities :: "string list" where
  "confirmed_commit_capabilities =
     [''urn:ietf:params:netconf:capability:confirmed-commit:1.0'',
      ''urn:ietf:params:netconf:capability:confirmed-commit:1.1'']"

definition required_mutation_capabilities :: "(string, string list) dict" where
  "required_mutation_capabilities =
     [('':candidate'', candidate_capabilities), ('':confirmed-commit'', confirmed_commit_capabilities)]"

definition required_persist_capabilities :: "(string, string list) dict" where
  "required_persist_capabilities =
     [('':candidate'', candidate_capabilities),
      ('':confirmed-commit:1.1'', [''urn:ietf:params:netconf:capability:confirmed-commit:1.1''])]"

record operation_result =
  op_operation :: string
  op_xml :: string
  op_elapsed :: rat

record connect_result =
  con_session_id :: "string option"
  con_capabilities :: "string list"
  con_fingerprint :: string
  con_elapsed :: rat

record mutation_step =
  step_name :: string
  step_xml :: string
  step_elapsed :: rat

record mutation_result =
  mut_steps :: "mutation_step list"
  mut_finalized :: bool
  mut_confirm_timeout :: pyval
  mut_persist :: "string option"

record netconf_client =
  nc_host :: string
  nc_username :: string
  nc_password :: string
  nc_port :: int
  nc_timeout :: pyfloat
  nc_allow_unknown :: bool
  nc_expected :: "string option"

section \<open>Exchanges with the server\<close>

record commit_args =
  ca_confirmed :: bool
  ca_timeout :: "string option"
  ca_persist :: "string option"
  ca_persist_id :: "string option"

datatype rpc =
    RpcLock string
  | RpcUnlock string
  | RpcEditConfig string string  \<comment> \<open>target, config\<close>
  | RpcValidate string
  | RpcCommit commit_args
  | RpcCancelCommit string
  | RpcDiscardChanges
  | RpcGet "string option"
  | RpcGetConfig string "string option"

datatype exchange =
    KeyExchange
  | Authenticate string string   \<comment> \<open>username, password\<close>
  | Rpc rpc
  | CloseSession
  | CloseTransport

text \<open>A reply: its attribute \<open>xml\<close> when that is a string, and its \<open>str()\<close>.\<close>

record reply =
  reply_attr :: "string option"
  reply_str :: string

record hello =
  hello_session_id :: "string option"
  hello_capabilities :: "string list"

text \<open>
  \<open>key_exchange\<close> gives the bytes of the server's key; \<open>authenticate\<close> ends with the hello
  exchange; \<open>session_key\<close> is what the established session reports as the server's key, when
  it can be read; \<open>sha256\<close> is \<open>hashlib.sha256(data).digest()\<close>.
\<close>

record 'w netconf_env =
  ncclient_installed :: bool
  clock :: "'w \<Rightarrow> rat"
  key_exchange :: "('w, string) act"
  authenticate :: "string \<Rightarrow> string \<Rightarrow> ('w, hello) act"
  transport_up :: "'w \<Rightarrow> bool"
  session_key :: "'w \<Rightarrow> string option"
  call_rpc :: "rpc \<Rightarrow> ('w, reply) act"
  call_close_session :: "('w, unit) act"
  call_close_transport :: "('w, unit) act"
  sha256 :: "string \<Rightarrow> string"

record 'w net =
  world :: 'w
  trace :: "exchange list"

definition perform :: "exchange \<Rightarrow> ('w, 'a) act \<Rightarrow> ('w net, 'a) act" where
  "perform x m s = (case m (world s) of (r, w) \<Rightarrow> (r, \<lparr>world = w, trace = trace s @ [x]\<rparr>))"

definition now :: "'w netconf_env \<Rightarrow> ('w net, rat) act" where
  "now env = gets (\<lambda>s. clock env (world s))"

definition send :: "'w netconf_env \<Rightarrow> rpc \<Rightarrow> ('w net, reply) act" where
  "send env q = perform (Rpc q) (call_rpc env q)"

definition reply_xml :: "reply \<Rightarrow> string" where
  "reply_xml r = (case reply_attr r of Some (c # s) \<Rightarrow> c # s | _ \<Rightarrow> reply_str r)"

definition close_session :: "'w netconf_env \<Rightarrow> ('w net, unit option) act" where
  "close_session env = swallow (perform CloseSession (call_close_session env))"

definition time_step :: "'w netconf_env \<Rightarrow> string \<Rightarrow> rpc \<Rightarrow> ('w net, mutation_step) act" where
  "time_step env step q =
     bnd (now env) (\<lambda>started.
     bnd (send env q) (\<lambda>r.
     bnd (now env) (\<lambda>ended.
     ret \<lparr>step_name = step, step_xml = reply_xml r, step_elapsed = ended - started\<rparr>)))"

section \<open>Validation\<close>

definition normalize_fingerprint :: "string \<Rightarrow> string result" where
  "normalize_fingerprint value =
     (let text = strip value;
          text1 = (if starts_with ''sha256:'' (lower text) then drop (length ''sha256:'') text else text);
          text2 = rstrip_of (\<lambda>c. c = CHR ''='') (strip text1)
      in if text2 = [] then Inl (ValueError ''host key fingerprint is empty'') else Inr text2)"

definition key_fingerprint :: "'w netconf_env \<Rightarrow> string \<Rightarrow> string" where
  "key_fingerprint env key = rstrip_of (\<lambda>c. c = CHR ''='') (b64encode (sha256 env key))"

definition server_key_fingerprint :: "'w netconf_env \<Rightarrow> 'w \<Rightarrow> string result" where
  "server_key_fingerprint env w =
     (case session_key env w of
        None \<Rightarrow> Inl (NetconfHostKeyError (''cannot read the NETCONF server host key from this ncclient session; '' @
          ''ncclient internals changed and host-key verification cannot be trusted''))
      | Some key \<Rightarrow> Inr (key_fingerprint env key))"

text \<open>The comparisons \<open>confirm_timeout < 1\<close> and \<open>confirm_timeout != int(confirm_timeout)\<close>.\<close>

fun confirm_timeout_text :: "pyval \<Rightarrow> string result" where
  "confirm_timeout_text (PInt n) =
     (if n < 1 then Inl (ValueError ''confirm_timeout must be at least 1 second'') else Inr (str_of_int n))"
| "confirm_timeout_text (PFloat x) =
     (if float_lt_rat x 1 then Inl (ValueError ''confirm_timeout must be at least 1 second'')
      else (case x of
              Fin r \<Rightarrow>
                if r \<noteq> of_int \<lfloor>r\<rfloor> then Inl (ValueError ''confirm_timeout must be a whole number of seconds'')
                else Inr (str_of_int \<lfloor>r\<rfloor>)
            | Infinity neg \<Rightarrow> Inl (OtherException ''OverflowError'' ''cannot convert float infinity to integer'')
            | NotANumber \<Rightarrow> Inl (ValueError ''cannot convert float NaN to integer'')))"
| "confirm_timeout_text _ = Inl (ValueError ''confirm_timeout must be a number of seconds'')"

definition missing_capabilities :: "string list \<Rightarrow> (string, string list) dict \<Rightarrow> string list" where
  "missing_capabilities server required =
     (let advertised = map (\<lambda>c. strip (takeWhile (\<lambda>x. x \<noteq> CHR ''?'') c)) server
      in map fst (filter (\<lambda>(name, uris). \<not> list_ex (\<lambda>u. u \<in> set advertised) uris) required))"

definition missing_mutation_capabilities :: "string list \<Rightarrow> string list" where
  "missing_mutation_capabilities server = missing_capabilities server required_mutation_capabilities"

definition missing_persist_capabilities :: "string list \<Rightarrow> string list" where
  "missing_persist_capabilities server = missing_capabilities server required_persist_capabilities"

definition confirmed_commit_kwargs :: "string \<Rightarrow> string option \<Rightarrow> commit_args" where
  "confirmed_commit_kwargs timeout_text persist =
     \<lparr>ca_confirmed = True, ca_timeout = Some timeout_text, ca_persist = persist, ca_persist_id = None\<rparr>"

definition plain_commit :: commit_args where
  "plain_commit = \<lparr>ca_confirmed = False, ca_timeout = None, ca_persist = None, ca_persist_id = None\<rparr>"

definition persist_id_commit :: "string \<Rightarrow> commit_args" where
  "persist_id_commit token = \<lparr>ca_confirmed = False, ca_timeout = None, ca_persist = None, ca_persist_id = Some token\<rparr>"

definition validate_persist_token :: "string \<Rightarrow> unit result" where
  "validate_persist_token token =
     raise_when (blank token) (ValueError ''persist token must be a non-empty string'')"

definition validate_datastore :: "string \<Rightarrow> unit result" where
  "validate_datastore datastore =
     raise_when (datastore \<notin> set allowed_datastores)
       (ValueError (''unsupported datastore: '' @ py_repr datastore))"

section \<open>Connecting\<close>

definition check_fingerprint :: "netconf_client \<Rightarrow> string \<Rightarrow> unit result" where
  "check_fingerprint client actual =
     and_then (normalize_fingerprint (case nc_expected client of None \<Rightarrow> [] | Some fp \<Rightarrow> fp)) (\<lambda>expected.
     raise_when (actual \<noteq> expected) (NetconfHostKeyError
       (''NETCONF server host key does not match the pinned fingerprint; '' @
        ''expected SHA256:'' @ expected @ '', actual SHA256:'' @ actual)))"

text \<open>\<open>_verify_server_key\<close>, the hook between key exchange and authentication.\<close>

definition verify_server_key :: "'w netconf_env \<Rightarrow> netconf_client \<Rightarrow> string \<Rightarrow> unit result" where
  "verify_server_key env client key =
     (if nc_expected client = None then Inr () else check_fingerprint client (key_fingerprint env key))"

text \<open>\<open>_verify_host_key\<close>, on the established session.\<close>

definition verify_host_key :: "'w netconf_env \<Rightarrow> netconf_client \<Rightarrow> 'w \<Rightarrow> unit result" where
  "verify_host_key env client w =
     (if nc_expected client = None then Inr ()
      else and_then (server_key_fingerprint env w) (check_fingerprint client))"

definition open_ncclient_session :: "'w netconf_env \<Rightarrow> netconf_client \<Rightarrow> ('w net, hello) act" where
  "open_ncclient_session env client =
     catch_when is_exception
       (bnd (perform KeyExchange (key_exchange env)) (\<lambda>key.
        bnd (lift (verify_server_key env client key)) (\<lambda>_.
        perform (Authenticate (nc_username client) (nc_password client))
          (authenticate env (nc_username client) (nc_password client)))))
       (\<lambda>e. bnd (gets (\<lambda>s. transport_up env (world s))) (\<lambda>up.
            bnd (if up then perform CloseTransport (call_close_transport env) else ret ()) (\<lambda>_. throw e)))"

definition check_client :: "netconf_client \<Rightarrow> unit result" where
  "check_client client =
     (if nc_host client = [] then Inl (ValueError ''host is required'')
      else if nc_username client = [] then Inl (ValueError ''username is required'')
      else if nc_password client = [] then Inl (ValueError ''password is required'')
      else if nc_port client < 1 \<or> nc_port client > 65535 then Inl (ValueError ''port must be between 1 and 65535'')
      else if float_le_rat (nc_timeout client) 0 then Inl (ValueError ''timeout must be greater than 0'')
      else if nc_expected client = None \<and> \<not> nc_allow_unknown client
      then Inl (NetconfHostKeyError (''NETCONF host-key verification requires expected_host_key_fingerprint; '' @
             ''set allow_unknown_host_key=True only for an isolated lab''))
      else Inr ())"

definition connect :: "'w netconf_env \<Rightarrow> netconf_client \<Rightarrow> ('w net, hello) act" where
  "connect env client =
     bnd (lift (check_client client)) (\<lambda>_.
     bnd (guard_not (\<not> ncclient_installed env) (RuntimeError
       ''ncclient is required for NETCONF; install with pip install \"device-cli-tool[netconf]\"'')) (\<lambda>_.
     bnd (open_ncclient_session env client) (\<lambda>session.
     catch_when is_exception
       (bnd (gets (\<lambda>s. verify_host_key env client (world s))) (\<lambda>r. bnd (lift r) (\<lambda>_. ret session)))
       (\<lambda>e. bnd (close_session env) (\<lambda>_. throw e)))))"

section \<open>Operations\<close>

definition connect_test :: "'w netconf_env \<Rightarrow> netconf_client \<Rightarrow> ('w net, connect_result) act" where
  "connect_test env client =
     bnd (now env) (\<lambda>started.
     bnd (connect env client) (\<lambda>session.
     bnd (try_finally
       (bnd (gets (\<lambda>s. server_key_fingerprint env (world s))) (\<lambda>r.
        bnd (lift r) (\<lambda>fp.
        bnd (now env) (\<lambda>ended.
        ret \<lparr>con_session_id = hello_session_id session, con_capabilities = sort (hello_capabilities session),
             con_fingerprint = ''SHA256:'' @ fp, con_elapsed = ended - started\<rparr>))))
       (close_session env)) (\<lambda>(result, _). ret result)))"

text \<open>\<open>_run\<close>, with the call as a function of the session.\<close>

definition run_operation ::
  "'w netconf_env \<Rightarrow> netconf_client \<Rightarrow> string \<Rightarrow> (hello \<Rightarrow> ('w net, reply) act) \<Rightarrow> ('w net, operation_result) act" where
  "run_operation env client operation call =
     bnd (now env) (\<lambda>started.
     bnd (connect env client) (\<lambda>session.
     bnd (try_finally
       (bnd (call session) (\<lambda>r.
        bnd (now env) (\<lambda>ended.
        ret \<lparr>op_operation = operation, op_xml = reply_xml r, op_elapsed = ended - started\<rparr>)))
       (close_session env)) (\<lambda>(result, _). ret result)))"

definition netconf_get :: "'w netconf_env \<Rightarrow> netconf_client \<Rightarrow> string option \<Rightarrow> ('w net, operation_result) act" where
  "netconf_get env client filter_xml = run_operation env client ''get'' (\<lambda>_. send env (RpcGet filter_xml))"

definition netconf_get_config ::
  "'w netconf_env \<Rightarrow> netconf_client \<Rightarrow> string \<Rightarrow> string option \<Rightarrow> ('w net, operation_result) act" where
  "netconf_get_config env client datastore filter_xml =
     bnd (lift (validate_datastore datastore)) (\<lambda>_.
     run_operation env client ''get-config'' (\<lambda>_. send env (RpcGetConfig datastore filter_xml)))"

definition netconf_edit_config ::
  "'w netconf_env \<Rightarrow> netconf_client \<Rightarrow> string \<Rightarrow> string \<Rightarrow> ('w net, operation_result) act" where
  "netconf_edit_config env client datastore config_xml =
     bnd (lift (validate_datastore datastore)) (\<lambda>_.
     run_operation env client ''edit-config'' (\<lambda>_. send env (RpcEditConfig datastore config_xml)))"

definition run_persist_step ::
  "'w netconf_env \<Rightarrow> netconf_client \<Rightarrow> string \<Rightarrow> rpc \<Rightarrow> ('w net, operation_result) act" where
  "run_persist_step env client operation q =
     run_operation env client operation (\<lambda>session.
       let missing = missing_persist_capabilities (hello_capabilities session)
       in bnd (guard_not (missing \<noteq> []) (NetconfCapabilityError missing)) (\<lambda>_. send env q))"

definition confirm_persisted_commit ::
  "'w netconf_env \<Rightarrow> netconf_client \<Rightarrow> string \<Rightarrow> ('w net, operation_result) act" where
  "confirm_persisted_commit env client persist_id =
     bnd (lift (validate_persist_token persist_id)) (\<lambda>_.
     run_persist_step env client ''confirm-commit'' (RpcCommit (persist_id_commit persist_id)))"

definition cancel_persisted_commit ::
  "'w netconf_env \<Rightarrow> netconf_client \<Rightarrow> string \<Rightarrow> ('w net, operation_result) act" where
  "cancel_persisted_commit env client persist_id =
     bnd (lift (validate_persist_token persist_id)) (\<lambda>_.
     run_persist_step env client ''cancel-commit'' (RpcCancelCommit persist_id))"

section \<open>execute\_confirmed\_commit\<close>

text \<open>Up to the confirmed commit; when one of these steps fails, \<open>committed\<close> is still false.\<close>

definition stage_steps ::
  "'w netconf_env \<Rightarrow> string \<Rightarrow> string \<Rightarrow> string option \<Rightarrow> ('w net, mutation_step list) act" where
  "stage_steps env config_xml timeout_text persist =
     bnd (time_step env ''edit-config'' (RpcEditConfig mutation_target config_xml)) (\<lambda>s1.
     bnd (time_step env ''validate'' (RpcValidate mutation_target)) (\<lambda>s2.
     bnd (time_step env ''commit'' (RpcCommit (confirmed_commit_kwargs timeout_text persist))) (\<lambda>s3.
     ret [s1, s2, s3])))"

definition after_commit_steps ::
  "'w netconf_env \<Rightarrow> string option \<Rightarrow> bool \<Rightarrow> string option \<Rightarrow> ('w net, mutation_step list) act" where
  "after_commit_steps env verify_filter_xml finalize persist =
     bnd (case verify_filter_xml of
            None \<Rightarrow> ret []
          | Some f \<Rightarrow> bnd (time_step env ''verify'' (RpcGet (Some f))) (\<lambda>s. ret [s])) (\<lambda>s1.
     bnd (if finalize
          then bnd (time_step env ''finalize'' (RpcCommit
                 (case persist of None \<Rightarrow> plain_commit | Some token \<Rightarrow> persist_id_commit token))) (\<lambda>s. ret [s])
          else ret []) (\<lambda>s2.
     ret (s1 @ s2)))"

definition optional_step ::
  "'w netconf_env \<Rightarrow> string \<Rightarrow> rpc \<Rightarrow> ('w net, mutation_step list) act" where
  "optional_step env step q =
     bnd (swallow (time_step env step q)) (\<lambda>r. ret (case r of None \<Rightarrow> [] | Some s \<Rightarrow> [s]))"

text \<open>The inner \<open>try\<close>, entered with the lock held, and its \<open>finally\<close>.\<close>

definition attempt :: "('s, 'a) act \<Rightarrow> ('s, 'a result) act" where
  "attempt m s = (case m s of (r, s') \<Rightarrow> (Inr r, s'))"

definition locked_transaction ::
  "'w netconf_env \<Rightarrow> string \<Rightarrow> string option \<Rightarrow> string \<Rightarrow> bool \<Rightarrow> string option
    \<Rightarrow> ('w net, mutation_step list) act" where
  "locked_transaction env config_xml verify_filter_xml timeout_text finalize persist =
     bnd (attempt (stage_steps env config_xml timeout_text persist)) (\<lambda>staged.
       case staged of
         Inl e \<Rightarrow>
           bnd (optional_step env ''discard-changes'' RpcDiscardChanges) (\<lambda>_.
           bnd (optional_step env ''unlock'' (RpcUnlock mutation_target)) (\<lambda>_. throw e))
       | Inr steps \<Rightarrow>
           bnd (try_finally (after_commit_steps env verify_filter_xml finalize persist)
                  (optional_step env ''unlock'' (RpcUnlock mutation_target))) (\<lambda>(later, unlocked).
           ret (steps @ later @ unlocked)))"

definition session_transaction ::
  "'w netconf_env \<Rightarrow> string list \<Rightarrow> string \<Rightarrow> string option \<Rightarrow> string \<Rightarrow> bool \<Rightarrow> string option
    \<Rightarrow> ('w net, mutation_step list) act" where
  "session_transaction env capabilities config_xml verify_filter_xml timeout_text finalize persist =
     (let missing = (if persist = None then missing_mutation_capabilities capabilities
                     else missing_persist_capabilities capabilities)
      in bnd (guard_not (missing \<noteq> []) (NetconfCapabilityError missing)) (\<lambda>_.
         bnd (time_step env ''lock'' (RpcLock mutation_target)) (\<lambda>lock.
         bnd (locked_transaction env config_xml verify_filter_xml timeout_text finalize persist) (\<lambda>steps.
         ret (lock # steps)))))"

definition execute_confirmed_commit ::
  "'w netconf_env \<Rightarrow> netconf_client \<Rightarrow> string \<Rightarrow> string option \<Rightarrow> pyval \<Rightarrow> bool \<Rightarrow> string option
    \<Rightarrow> ('w net, mutation_result) act" where
  "execute_confirmed_commit env client config_xml verify_filter_xml confirm_timeout finalize persist =
     bnd (lift (confirm_timeout_text confirm_timeout)) (\<lambda>timeout_text.
     bnd (case persist of None \<Rightarrow> ret () | Some token \<Rightarrow> lift (validate_persist_token token)) (\<lambda>_.
     bnd (connect env client) (\<lambda>session.
     bnd (try_finally
            (session_transaction env (hello_capabilities session) config_xml verify_filter_xml timeout_text
               finalize persist)
            (close_session env)) (\<lambda>(steps, _).
     ret \<lparr>mut_steps = steps, mut_finalized = finalize, mut_confirm_timeout = confirm_timeout,
          mut_persist = persist\<rparr>))))"

section \<open>The protocol of a mutation\<close>

text \<open>
  The exchanges that a mutation may make, as an automaton: the password only after the key exchange,
  every datastore operation on the candidate, the confirmed commit only after edit and validate, the
  confirming commit only when it was asked for, a discard only before unlocking, the session closed last.
\<close>

datatype phase =
  Idle | Keyed | Session | Locked | Edited | Validated | Pending | Discarded | Unlocked | Closed

definition next_phase ::
  "string \<Rightarrow> string option \<Rightarrow> string \<Rightarrow> bool \<Rightarrow> string option \<Rightarrow> phase \<Rightarrow> exchange \<Rightarrow> phase option" where
  "next_phase cfg vf tt fin per ph x =
     (let go = (\<lambda>c from to. if c \<and> ph \<in> set from then Some to else None)
      in case x of
           KeyExchange \<Rightarrow> go True [Idle] Keyed
         | Authenticate u p \<Rightarrow> go True [Keyed] Session
         | CloseTransport \<Rightarrow> go True [Keyed, Session] Closed
         | CloseSession \<Rightarrow> go True [Session, Locked, Pending, Discarded, Unlocked] Closed
         | Rpc (RpcLock t) \<Rightarrow> go (t = ''candidate'') [Session] Locked
         | Rpc (RpcEditConfig t c) \<Rightarrow> go (t = ''candidate'' \<and> c = cfg) [Locked] Edited
         | Rpc (RpcValidate t) \<Rightarrow> go (t = ''candidate'') [Edited] Validated
         | Rpc (RpcGet f) \<Rightarrow> go (f = vf) [Pending] Pending
         | Rpc RpcDiscardChanges \<Rightarrow> go True [Edited, Validated, Pending] Discarded
         | Rpc (RpcUnlock t) \<Rightarrow> go (t = ''candidate'') [Pending, Discarded] Unlocked
         | Rpc (RpcCommit a) \<Rightarrow>
             (if ph = Validated then go (a = confirmed_commit_kwargs tt per) [Validated] Pending
              else go (fin \<and> a = (case per of None \<Rightarrow> plain_commit | Some token \<Rightarrow> persist_id_commit token))
                     [Pending] Pending)
         | _ \<Rightarrow> None)"

fun run_phases :: "(phase \<Rightarrow> exchange \<Rightarrow> phase option) \<Rightarrow> phase \<Rightarrow> exchange list \<Rightarrow> phase option" where
  "run_phases f ph [] = Some ph"
| "run_phases f ph (x # xs) = (case f ph x of None \<Rightarrow> None | Some ph' \<Rightarrow> run_phases f ph' xs)"

lemma run_phases_snoc:
  "run_phases f ph (xs @ [x]) = (case run_phases f ph xs of None \<Rightarrow> None | Some ph' \<Rightarrow> f ph' x)"
  by (induction xs arbitrary: ph) (auto split: option.split)

text \<open>After the exchanges \<open>t0\<close>, the run has made exchanges that lead to a phase of \<open>S\<close>.\<close>

definition at_phase :: "(phase \<Rightarrow> exchange \<Rightarrow> phase option) \<Rightarrow> exchange list \<Rightarrow> phase set \<Rightarrow> 'w net \<Rightarrow> bool" where
  "at_phase f t0 S s = (\<exists>t ph. trace s = t0 @ t \<and> run_phases f Idle t = Some ph \<and> ph \<in> S)"

lemma at_phase_mono: "at_phase f t0 S s \<Longrightarrow> S \<subseteq> S' \<Longrightarrow> at_phase f t0 S' s"
  by (auto simp: at_phase_def)

definition leads :: "(phase \<Rightarrow> exchange \<Rightarrow> phase option) \<Rightarrow> phase set \<Rightarrow> exchange \<Rightarrow> phase set \<Rightarrow> bool" where
  "leads f S x S' = (\<forall>ph \<in> S. \<exists>ph' \<in> S'. f ph x = Some ph')"

lemma perform_phase:
  assumes "leads f S x S'" and "at_phase f t0 S s" and "perform x m s = (r, s')"
  shows "at_phase f t0 S' s'"
  using assms by (fastforce simp: at_phase_def leads_def perform_def run_phases_snoc split: prod.splits)

lemma triple_perform:
  "leads f S x S' \<Longrightarrow> triple (at_phase f t0 S) (perform x m) (\<lambda>_. at_phase f t0 S') (\<lambda>_. at_phase f t0 S')"
  by (rule tripleI) (erule (2) perform_phase)+

lemma triple_attempt:
  "triple P m (\<lambda>x. Q (Inr x)) (\<lambda>e. Q (Inl e)) \<Longrightarrow> triple P (attempt m) Q E"
proof (rule tripleI)
  fix s r s'
  assume "triple P m (\<lambda>x. Q (Inr x)) (\<lambda>e. Q (Inl e))" "P s" "attempt m s = (Inr r, s')"
  then show "Q r s'" by (cases r) (fastforce simp: attempt_def triple_def split: prod.splits)+
qed (simp add: attempt_def split: prod.splits)

lemma triple_gets_keep: "triple P (gets g) (\<lambda>_. P) E"
  by (rule triple_gets)

lemma triple_time_step_any:
  assumes "leads f S (Rpc q) S'"
  shows "triple (at_phase f t0 S) (time_step env step q) (\<lambda>_. at_phase f t0 S') (\<lambda>_. at_phase f t0 S')"
  unfolding time_step_def now_def send_def
  by (intro triple_bnd [OF triple_gets_keep] triple_bnd [OF triple_perform [OF assms]] triple_ret)

lemma triple_time_step:
  assumes "leads f S (Rpc q) S'" and "S' \<subseteq> T"
  shows "triple (at_phase f t0 S) (time_step env step q) (\<lambda>_. at_phase f t0 S') (\<lambda>_. at_phase f t0 T)"
  by (rule triple_conseq [OF triple_time_step_any [OF assms(1)]]) (use assms(2) in \<open>auto intro: at_phase_mono\<close>)

lemma triple_optional_step:
  assumes "leads f S (Rpc q) S'" and "S' \<subseteq> T"
  shows "triple (at_phase f t0 S) (optional_step env step q) (\<lambda>_. at_phase f t0 S') (\<lambda>_. at_phase f t0 T)"
  unfolding optional_step_def
  by (intro triple_bnd [where R = "\<lambda>_. at_phase f t0 S'"] triple_swallow
      triple_conseq [OF triple_time_step_any [OF assms(1)]] triple_ret)
    (use assms(2) in \<open>auto intro: at_phase_mono\<close>)

lemma triple_close_session:
  assumes "leads f S CloseSession {Closed}"
  shows "triple (at_phase f t0 S) (close_session env) (\<lambda>_. at_phase f t0 {Closed}) (\<lambda>_. at_phase f t0 {Closed})"
  unfolding close_session_def
  by (rule triple_swallow, rule triple_conseq [OF triple_perform [OF assms]]) auto

lemmas phase_leads = leads_def next_phase_def mutation_target_def Let_def

lemma triple_stage_steps:
  "triple (at_phase (next_phase cfg vf tt fin per) t0 {Locked}) (stage_steps env cfg tt per)
    (\<lambda>_. at_phase (next_phase cfg vf tt fin per) t0 {Pending})
    (\<lambda>_. at_phase (next_phase cfg vf tt fin per) t0 {Edited, Validated, Pending})"
  unfolding stage_steps_def
  by (rule triple_bnd [OF triple_time_step [where S' = "{Edited}"]]
      triple_bnd [OF triple_time_step [where S' = "{Validated}"]]
      triple_bnd [OF triple_time_step [where S' = "{Pending}"]] triple_ret | assumption
     | force simp: phase_leads)+

lemma triple_after_commit_steps:
  "triple (at_phase (next_phase cfg vf tt fin per) t0 {Pending}) (after_commit_steps env vf fin per)
    (\<lambda>_. at_phase (next_phase cfg vf tt fin per) t0 {Pending})
    (\<lambda>_. at_phase (next_phase cfg vf tt fin per) t0 {Pending})"
  unfolding after_commit_steps_def
  by (rule triple_bnd [where R = "\<lambda>_. at_phase (next_phase cfg vf tt fin per) t0 {Pending}"])
    (auto intro!: triple_bnd [where R = "\<lambda>_. at_phase (next_phase cfg vf tt fin per) t0 {Pending}"]
      triple_ret triple_time_step_any simp: phase_leads split: option.split)

lemma triple_locked_transaction:
  "triple (at_phase (next_phase cfg vf tt fin per) t0 {Locked}) (locked_transaction env cfg vf tt fin per)
    (\<lambda>_. at_phase (next_phase cfg vf tt fin per) t0 {Unlocked})
    (\<lambda>_. at_phase (next_phase cfg vf tt fin per) t0 {Discarded, Unlocked})"
  (is "triple (?at _) _ _ _")
proof -
  have discard: "triple (?at {Edited, Validated, Pending}) (optional_step env n RpcDiscardChanges)
      (\<lambda>_. ?at {Discarded}) (\<lambda>_. ?at {Discarded, Unlocked})" for n
    by (rule triple_optional_step) (simp_all add: phase_leads)
  have unlock: "triple (?at S) (optional_step env n (RpcUnlock mutation_target))
      (\<lambda>_. ?at {Unlocked}) (\<lambda>_. ?at {Discarded, Unlocked})" if "S \<subseteq> {Pending, Discarded}" for n S
    by (rule triple_optional_step) (use that in \<open>auto simp only: phase_leads exchange.case rpc.case\<close>, auto)
  have fail: "triple (?at {Edited, Validated, Pending})
      (bnd (optional_step env n RpcDiscardChanges) (\<lambda>_. bnd (optional_step env n' (RpcUnlock mutation_target)) (\<lambda>_. throw e)))
      Q (\<lambda>_. ?at {Discarded, Unlocked})" for n n' e and Q :: "mutation_step list \<Rightarrow> 'a net \<Rightarrow> bool"
  proof (rule triple_bnd [OF discard], rule triple_bnd [OF unlock])
    show "triple (?at {Unlocked}) (throw e) Q (\<lambda>_. ?at {Discarded, Unlocked})"
      by (rule triple_throw) (erule at_phase_mono, simp)
  qed simp
  have succeed: "triple (?at {Pending})
      (bnd (try_finally (after_commit_steps env vf fin per) (optional_step env n (RpcUnlock mutation_target)))
        (\<lambda>(later, unlocked). ret (steps @ later @ unlocked)))
      (\<lambda>_. ?at {Unlocked}) (\<lambda>_. ?at {Discarded, Unlocked})" for n steps
  proof (rule triple_bnd)
    show "triple (?at {Pending})
        (try_finally (after_commit_steps env vf fin per) (optional_step env n (RpcUnlock mutation_target)))
        (\<lambda>_. ?at {Unlocked}) (\<lambda>_. ?at {Discarded, Unlocked})"
    proof (rule triple_finally [OF triple_after_commit_steps])
      show "triple (?at {Pending}) (optional_step env n (RpcUnlock mutation_target))
          (\<lambda>_. ?at {Unlocked}) (\<lambda>_. ?at {Discarded, Unlocked})" by (rule unlock) simp
      show "triple (?at {Pending}) (optional_step env n (RpcUnlock mutation_target))
          (\<lambda>_. ?at {Discarded, Unlocked}) (\<lambda>_. ?at {Discarded, Unlocked})"
        by (rule triple_conseq [OF unlock [of "{Pending}"]]) (assumption | simp | erule at_phase_mono)+
    qed
  qed (auto intro: triple_ret)
  show ?thesis
    unfolding locked_transaction_def
  proof (rule triple_bnd)
    show "triple (?at {Locked}) (attempt (stage_steps env cfg tt per))
        (\<lambda>r. ?at (case r of Inl _ \<Rightarrow> {Edited, Validated, Pending} | Inr _ \<Rightarrow> {Pending}))
        (\<lambda>_. ?at {Discarded, Unlocked})"
      by (rule triple_attempt) (simp add: triple_stage_steps)
  qed (auto intro: fail succeed split: sum.split)
qed

lemma triple_session_transaction:
  "triple (at_phase (next_phase cfg vf tt fin per) t0 {Session}) (session_transaction env caps cfg vf tt fin per)
    (\<lambda>_. at_phase (next_phase cfg vf tt fin per) t0 {Unlocked})
    (\<lambda>_. at_phase (next_phase cfg vf tt fin per) t0 {Session, Locked, Discarded, Unlocked})"
  (is "triple (?at _) _ _ _")
proof -
  have lock: "triple (?at {Session}) (time_step env n (RpcLock mutation_target)) (\<lambda>_. ?at {Locked})
      (\<lambda>_. ?at {Session, Locked, Discarded, Unlocked})" for n
    by (rule triple_time_step) (simp_all add: phase_leads)
  have rest: "triple (?at {Locked}) (bnd (locked_transaction env cfg vf tt fin per) (\<lambda>steps. ret (x # steps)))
      (\<lambda>_. ?at {Unlocked}) (\<lambda>_. ?at {Session, Locked, Discarded, Unlocked})" for x
  proof (rule triple_bnd)
    show "triple (?at {Locked}) (locked_transaction env cfg vf tt fin per) (\<lambda>_. ?at {Unlocked})
        (\<lambda>_. ?at {Session, Locked, Discarded, Unlocked})"
      by (rule triple_conseq [OF triple_locked_transaction]) (assumption | erule at_phase_mono, simp)+
  qed (rule triple_ret)
  have guard: "triple (?at {Session}) (guard_not c e) (\<lambda>_. ?at {Session})
      (\<lambda>_. ?at {Session, Locked, Discarded, Unlocked})" for c e
    by (rule triple_guard_not) (assumption | erule at_phase_mono, simp)+
  show ?thesis
    unfolding session_transaction_def Let_def
    by (rule triple_bnd [OF guard], rule triple_bnd [OF lock rest])
qed

lemma triple_open_session:
  "triple (at_phase (next_phase cfg vf tt fin per) t0 {Idle}) (open_ncclient_session env client)
    (\<lambda>_. at_phase (next_phase cfg vf tt fin per) t0 {Session})
    (\<lambda>_. at_phase (next_phase cfg vf tt fin per) t0 {Keyed, Session, Closed})"
  (is "triple (?at _) _ _ _")
proof -
  have step: "triple (?at S) (perform x m) (\<lambda>_. ?at S') (\<lambda>_. ?at T)"
    if "leads (next_phase cfg vf tt fin per) S x S'" and "S' \<subseteq> T" for S S' T x and m :: "('a, 'b) act"
    by (rule triple_conseq [OF triple_perform [OF that(1)]])
      (assumption | erule at_phase_mono, rule that(2))+
  have body: "triple (?at {Idle})
      (bnd (perform KeyExchange (key_exchange env)) (\<lambda>key. bnd (lift (verify_server_key env client key)) (\<lambda>_.
        perform (Authenticate u p) (authenticate env u p))))
      (\<lambda>_. ?at {Session}) (\<lambda>_. ?at {Keyed, Session})" for u p
  proof (rule triple_bnd, rule step)
    show "triple (?at {Keyed}) (bnd (lift (verify_server_key env client key)) (\<lambda>_.
        perform (Authenticate u p) (authenticate env u p))) (\<lambda>_. ?at {Session}) (\<lambda>_. ?at {Keyed, Session})" for key
      by (rule triple_bnd [OF triple_lift step]) (assumption | erule at_phase_mono | simp add: phase_leads)+
  qed (simp_all add: phase_leads)
  have close: "triple (?at {Keyed, Session}) (bnd (if up then perform CloseTransport m else ret ()) (\<lambda>_. throw e))
      Q (\<lambda>_. ?at {Keyed, Session, Closed})" for up e and m :: "('a, unit) act" and Q :: "hello \<Rightarrow> 'a net \<Rightarrow> bool"
  proof (rule triple_bnd [OF triple_if])
    show "triple (?at {Keyed, Session}) (perform CloseTransport m) (\<lambda>_. ?at {Keyed, Session, Closed})
        (\<lambda>_. ?at {Keyed, Session, Closed})"
      by (rule step) (simp_all add: phase_leads)
  qed (auto intro!: triple_ret triple_throw intro: at_phase_mono)
  show ?thesis
    unfolding open_ncclient_session_def
    by (rule triple_catch [OF body], rule triple_bnd [OF triple_gets_keep close]) (erule at_phase_mono, simp)
qed

lemma triple_connect:
  "triple (at_phase (next_phase cfg vf tt fin per) t0 {Idle}) (connect env client)
    (\<lambda>_. at_phase (next_phase cfg vf tt fin per) t0 {Session})
    (\<lambda>_. at_phase (next_phase cfg vf tt fin per) t0 {Idle, Keyed, Session, Closed})"
  (is "triple (?at _) _ _ ?E")
proof -
  have check: "triple (?at {Idle}) (lift r) (\<lambda>_. ?at {Idle}) ?E" for r :: "unit result"
    by (rule triple_lift) (assumption | erule at_phase_mono, simp)+
  have guard: "triple (?at {Idle}) (guard_not c e) (\<lambda>_. ?at {Idle}) ?E" for c e
    by (rule triple_guard_not) (assumption | erule at_phase_mono, simp)+
  have start: "triple (?at {Idle}) (open_ncclient_session env client) (\<lambda>_. ?at {Session}) ?E"
    by (rule triple_conseq [OF triple_open_session]) (assumption | erule at_phase_mono, simp)+
  have verify: "triple (?at {Session})
      (bnd (gets (\<lambda>s. verify_host_key env client (world s))) (\<lambda>r. bnd (lift r) (\<lambda>_. ret session)))
      (\<lambda>_. ?at {Session}) (\<lambda>_. ?at {Session})" for session
    by (rule triple_bnd [OF triple_gets_keep], rule triple_bnd [OF triple_lift]) (assumption | rule triple_ret)+
  have close: "triple (?at {Session}) (bnd (close_session env) (\<lambda>_. throw e)) Q ?E"
    for e and Q :: "hello \<Rightarrow> 'a net \<Rightarrow> bool"
  proof (rule triple_bnd)
    show "triple (?at {Session}) (close_session env) (\<lambda>_. ?at {Closed}) ?E"
    proof (rule triple_conseq)
      show "triple (?at {Session}) (close_session env) (\<lambda>_. ?at {Closed}) (\<lambda>_. ?at {Closed})"
        by (rule triple_close_session) (simp add: leads_def next_phase_def)
    qed (assumption | erule at_phase_mono, simp)+
  qed (rule triple_throw, erule at_phase_mono, simp)
  show ?thesis
    unfolding connect_def
    by (rule triple_bnd [OF check], rule triple_bnd [OF guard], rule triple_bnd [OF start],
        rule triple_catch [OF verify close]) (erule at_phase_mono, simp)
qed

lemma triple_execute_confirmed_commit:
  assumes "confirm_timeout_text ct = Inr tt"
  shows "triple (at_phase (next_phase cfg vf tt fin per) t0 {Idle})
    (execute_confirmed_commit env client cfg vf ct fin per)
    (\<lambda>_. at_phase (next_phase cfg vf tt fin per) t0 {Closed})
    (\<lambda>_. at_phase (next_phase cfg vf tt fin per) t0 {Idle, Keyed, Session, Closed})"
  (is "triple (?at _) _ _ ?E")
proof -
  have token: "triple (?at {Idle}) (case per of None \<Rightarrow> ret () | Some token \<Rightarrow> lift (validate_persist_token token))
      (\<lambda>_. ?at {Idle}) ?E"
    by (cases per) (auto intro!: triple_ret triple_lift intro: at_phase_mono)
  have close: "triple (?at S) (close_session env) (\<lambda>_. ?at {Closed}) (\<lambda>_. ?at {Closed})"
    if "S \<subseteq> {Session, Locked, Discarded, Unlocked}" for S
    by (rule triple_close_session) (use that in \<open>auto simp: leads_def next_phase_def\<close>)
  have body: "triple (?at {Session}) (try_finally (session_transaction env caps cfg vf tt fin per) (close_session env))
      (\<lambda>_. ?at {Closed}) ?E" for caps
  proof (rule triple_finally [OF triple_session_transaction])
    show "triple (?at {Unlocked}) (close_session env) (\<lambda>_. ?at {Closed}) ?E"
      by (rule triple_conseq [OF close [of "{Unlocked}"]]) (simp | assumption | erule at_phase_mono)+
    show "triple (?at {Session, Locked, Discarded, Unlocked}) (close_session env) (\<lambda>_. ?E e) ?E" for e
      by (rule triple_conseq [OF close [of "{Session, Locked, Discarded, Unlocked}"]])
        (simp | assumption | erule at_phase_mono)+
  qed
  show ?thesis
    unfolding execute_confirmed_commit_def assms lift_simps bnd_ret
    by (rule triple_bnd [OF token], rule triple_bnd [OF triple_connect], rule triple_bnd [OF body])
      (auto intro: triple_ret)
qed

section \<open>A server by RFC 6241\<close>

text \<open>
  The documented behaviour of the server for confirmed commit (RFC 6241, section 8.4), as an instance of
  the environment. Each exchange meets the next fault of a schedule: it succeeds, it is rejected without
  an effect, or its effect happens but the reply is lost. The end of the session reverts an unconfirmed
  commit that has no persist token, however the session ends.
\<close>

datatype fault = Good | Rejected | ReplyLost

record server =
  srv_running :: string
  srv_candidate :: string
  srv_rollback :: "string option"      \<comment> \<open>running before the pending confirmed commit\<close>
  srv_persist :: "string option"
  srv_faults :: "fault list"
  srv_capabilities :: "string list"
  srv_key :: string

definition with_fault :: "'a \<Rightarrow> (server \<Rightarrow> server) \<Rightarrow> (server, 'a) act" where
  "with_fault answer f w =
     (case srv_faults w of
        [] \<Rightarrow> (Inr answer, f w)
      | Good # fs \<Rightarrow> (Inr answer, f (w\<lparr>srv_faults := fs\<rparr>))
      | Rejected # fs \<Rightarrow> (Inl (OtherException ''RPCError'' ''rejected''), w\<lparr>srv_faults := fs\<rparr>)
      | ReplyLost # fs \<Rightarrow> (Inl (OtherException ''SessionCloseError'' ''lost''), f (w\<lparr>srv_faults := fs\<rparr>)))"

fun server_rpc :: "(string \<Rightarrow> string \<Rightarrow> string) \<Rightarrow> rpc \<Rightarrow> server \<Rightarrow> server" where
  "server_rpc merge (RpcEditConfig target config) w =
     (if target = ''candidate'' then w\<lparr>srv_candidate := merge (srv_candidate w) config\<rparr>
      else if target = ''running'' then w\<lparr>srv_running := merge (srv_running w) config\<rparr> else w)"
| "server_rpc merge (RpcCommit a) w =
     (if ca_confirmed a
      then w\<lparr>srv_rollback := Some (case srv_rollback w of None \<Rightarrow> srv_running w | Some r \<Rightarrow> r),
             srv_running := srv_candidate w, srv_persist := ca_persist a\<rparr>
      else if ca_persist_id a = srv_persist w
      then w\<lparr>srv_running := srv_candidate w, srv_rollback := None, srv_persist := None\<rparr>
      else w)"
| "server_rpc merge (RpcCancelCommit token) w =
     (case srv_rollback w of
        Some r \<Rightarrow> if srv_persist w = Some token
                   then w\<lparr>srv_running := r, srv_rollback := None, srv_persist := None\<rparr> else w
      | None \<Rightarrow> w)"
| "server_rpc merge RpcDiscardChanges w = w\<lparr>srv_candidate := srv_running w\<rparr>"
| "server_rpc merge _ w = w"

definition end_session :: "server \<Rightarrow> server" where
  "end_session w =
     (case srv_rollback w of
        Some r \<Rightarrow> if srv_persist w = None then w\<lparr>srv_running := r, srv_rollback := None\<rparr> else w
      | None \<Rightarrow> w)"

definition rfc_env :: "(string \<Rightarrow> string \<Rightarrow> string) \<Rightarrow> (string \<Rightarrow> string) \<Rightarrow> server netconf_env" where
  "rfc_env merge hash =
     \<lparr>ncclient_installed = True, clock = (\<lambda>_. 0),
      key_exchange = (\<lambda>w. with_fault (srv_key w) id w),
      authenticate = (\<lambda>u p w. with_fault \<lparr>hello_session_id = Some ''1'', hello_capabilities = srv_capabilities w\<rparr> id w),
      transport_up = (\<lambda>_. True), session_key = (\<lambda>w. Some (srv_key w)),
      call_rpc = (\<lambda>q. with_fault \<lparr>reply_attr = None, reply_str = ''<ok/>''\<rparr> (server_rpc merge q)),
      call_close_session = (\<lambda>w. (fst (with_fault () id w), end_session (snd (with_fault () id w)))),
      call_close_transport = (\<lambda>w. (Inr (), end_session w)),
      sha256 = hash\<rparr>"

subsection \<open>Rollback\<close>

definition settled :: "string \<Rightarrow> server \<Rightarrow> bool" where
  "settled config w = (srv_running w = config \<and> srv_rollback w = None \<and> srv_persist w = None)"

definition revertible :: "string \<Rightarrow> server \<Rightarrow> bool" where
  "revertible config w =
     (srv_persist w = None \<and> (srv_rollback w = Some config \<or> srv_rollback w = None \<and> srv_running w = config))"

lemma settled_revertible: "settled config w \<Longrightarrow> revertible config w"
  by (simp add: settled_def revertible_def)

lemma end_session_settled: "revertible config w \<Longrightarrow> settled config (end_session w)"
  by (auto simp: settled_def revertible_def end_session_def)

lemma keeps_with_fault:
  assumes "\<And>w fs. I w \<Longrightarrow> I (w\<lparr>srv_faults := fs\<rparr>)" and "\<And>w. I w \<Longrightarrow> I (f w)"
  shows "keeps I (\<lambda>w. with_fault (a w) f w)"
proof -
  have "I (snd (with_fault (a w) f w))" if "I w" for w
  proof (cases "srv_faults w")
    case (Cons x fs)
    then show ?thesis using that assms by (cases x) (simp_all add: with_fault_def)
  qed (use that assms in \<open>simp add: with_fault_def\<close>)
  then show ?thesis by (simp add: keeps_def)
qed

lemma keeps_perform: "keeps I m \<Longrightarrow> keeps (\<lambda>s. I (world s)) (perform x m)"
  by (fastforce simp: keeps_def perform_def split: prod.split)

lemma faults_irrelevant:
  "settled config (w\<lparr>srv_faults := fs\<rparr>) = settled config w"
  "revertible config (w\<lparr>srv_faults := fs\<rparr>) = revertible config w"
  by (simp_all add: settled_def revertible_def)

lemma keeps_rfc_rpc:
  assumes "\<And>w. revertible config w \<Longrightarrow> revertible config (server_rpc merge q w)"
  shows "keeps (\<lambda>s. revertible config (world s)) (time_step (rfc_env merge hash) step q)"
  unfolding time_step_def send_def now_def
  by (intro keeps_intros keeps_perform) (simp add: rfc_env_def keeps_with_fault faults_irrelevant assms)

lemma revertible_rpcs:
  assumes "revertible config w"
  shows "revertible config (server_rpc merge (RpcLock t) w)"
    "revertible config (server_rpc merge (RpcUnlock t) w)"
    "revertible config (server_rpc merge (RpcEditConfig mutation_target cfg) w)"
    "revertible config (server_rpc merge (RpcValidate t) w)"
    "revertible config (server_rpc merge (RpcCommit (confirmed_commit_kwargs tt None)) w)"
    "revertible config (server_rpc merge RpcDiscardChanges w)"
    "revertible config (server_rpc merge (RpcGet f) w)"
  using assms by (auto simp: revertible_def mutation_target_def confirmed_commit_kwargs_def)

lemma keeps_attempt [keeps_intros]: "keeps I m \<Longrightarrow> keeps I (attempt m)"
  by (fastforce simp: keeps_def attempt_def split: prod.split)

lemma keeps_session_transaction:
  "keeps (\<lambda>s. revertible config (world s)) (session_transaction (rfc_env merge hash) caps cfg vf tt False None)"
  unfolding session_transaction_def locked_transaction_def stage_steps_def after_commit_steps_def
    optional_step_def Let_def
  unfolding if_False option.case
  by (intro keeps_intros keeps_rfc_rpc) (rule revertible_rpcs, assumption)+

lemma settled_end_session: "settled config w \<Longrightarrow> settled config (end_session w)"
  by (rule end_session_settled [OF settled_revertible])

lemma keeps_rfc_env:
  "keeps (settled config) (key_exchange (rfc_env merge hash))"
  "keeps (settled config) (authenticate (rfc_env merge hash) u p)"
  "keeps (settled config) (call_close_transport (rfc_env merge hash))"
  "keeps (settled config) (call_close_session (rfc_env merge hash))"
proof -
  have fault: "keeps (settled config) (\<lambda>w. with_fault (a w) id w)" for a :: "server \<Rightarrow> 'c"
    by (rule keeps_with_fault) (simp_all add: faults_irrelevant)
  show "keeps (settled config) (key_exchange (rfc_env merge hash))"
    "keeps (settled config) (authenticate (rfc_env merge hash) u p)"
    by (simp_all add: rfc_env_def fault)
  show "keeps (settled config) (call_close_transport (rfc_env merge hash))"
    by (simp add: rfc_env_def keeps_def settled_end_session)
  show "keeps (settled config) (call_close_session (rfc_env merge hash))"
    using fault [of "\<lambda>_. ()"] by (auto simp: rfc_env_def keeps_def intro: settled_end_session)
qed

lemma keeps_connect: "keeps (\<lambda>s. settled config (world s)) (connect (rfc_env merge hash) client)"
  unfolding connect_def open_ncclient_session_def close_session_def
  by (intro keeps_intros keeps_perform keeps_rfc_env)

lemma execute_unfinalized_settled:
  assumes "execute_confirmed_commit (rfc_env merge hash) client cfg vf ct False None s = (r, s')"
    and "settled config (world s)"
  shows "settled config (world s')"
proof -
  let ?env = "rfc_env merge hash"
  have close: "triple (\<lambda>s. revertible config (world s)) (close_session ?env)
      (\<lambda>_ s. settled config (world s)) (\<lambda>_ s. settled config (world s))"
  proof -
    have "triple (\<lambda>s. revertible config (world s)) (perform CloseSession (call_close_session ?env))
        (\<lambda>_ s. settled config (world s)) (\<lambda>_ s. settled config (world s))"
    proof -
      have "keeps (revertible config) (\<lambda>w. with_fault () id w)"
        by (rule keeps_with_fault) (simp_all add: faults_irrelevant)
      then show ?thesis
        by (auto simp: triple_def perform_def rfc_env_def keeps_def intro!: end_session_settled
            split: prod.splits sum.split) 
    qed
    then show ?thesis unfolding close_session_def by (intro triple_swallow) (auto elim: triple_conseq)
  qed
  have body: "triple (\<lambda>s. settled config (world s))
      (try_finally (session_transaction ?env caps cfg vf tt False None) (close_session ?env))
      (\<lambda>_ s. settled config (world s)) (\<lambda>_ s. settled config (world s))" for caps tt
    by (rule triple_finally [OF triple_conseq [OF iffD1 [OF keeps_triple keeps_session_transaction]] close close])
      (assumption | rule settled_revertible)+
  have "keeps (\<lambda>s. settled config (world s)) (execute_confirmed_commit ?env client cfg vf ct False None)"
    unfolding execute_confirmed_commit_def
    by (intro keeps_bnd keeps_lift keeps_option keeps_ret keeps_prod keeps_connect) (simp add: keeps_triple body)
  then show ?thesis using assms by (rule keepsD)
qed

subsection \<open>What a successful mutation leaves behind\<close>

text \<open>A predicate of the datastores, which does not see the schedule of faults.\<close>

definition stores :: "(string \<Rightarrow> string \<Rightarrow> string option \<Rightarrow> string option \<Rightarrow> bool) \<Rightarrow> server net \<Rightarrow> bool" where
  "stores P s = P (srv_running (world s)) (srv_candidate (world s)) (srv_rollback (world s)) (srv_persist (world s))"

definition done_with :: "string \<Rightarrow> server net \<Rightarrow> bool" where
  "done_with config = stores (\<lambda>run cand rb per. run = config \<and> cand = config \<and> rb = None \<and> per = None)"

definition pending_with :: "string option \<Rightarrow> string \<Rightarrow> string \<Rightarrow> server net \<Rightarrow> bool" where
  "pending_with token before config =
     stores (\<lambda>run cand rb per. run = config \<and> cand = config \<and> rb = Some before \<and> per = token)"

lemma with_fault_Inr:
  "with_fault a f w = (Inr x, w') \<Longrightarrow> x = a \<and> (\<exists>fs. w' = f (w\<lparr>srv_faults := fs\<rparr>) \<or> w' = f w)"
  by (auto simp: with_fault_def split: list.splits fault.splits)

lemma triple_send:
  assumes "\<And>s. stores P s \<Longrightarrow> stores Q (s\<lparr>world := server_rpc merge q (world s)\<rparr>)"
  shows "triple (stores P) (send (rfc_env merge hash) q) (\<lambda>_. stores Q) (\<lambda>_ _. True)"
proof (rule tripleI)
  fix s y s'
  assume P: "stores P s" and "send (rfc_env merge hash) q s = (Inr y, s')"
  then have "with_fault \<lparr>reply_attr = None, reply_str = ''<ok/>''\<rparr> (server_rpc merge q) (world s) = (Inr y, world s')"
    by (auto simp: send_def perform_def rfc_env_def split: prod.splits)
  from with_fault_Inr [OF this] obtain w where
    w: "world s' = server_rpc merge q w" "\<exists>fs. w = (world s)\<lparr>srv_faults := fs\<rparr> \<or> w = world s" by blast
  have "stores P (s\<lparr>world := w\<rparr>)" using P w(2) by (auto simp: stores_def)
  from assms [OF this] w(1) show "stores Q s'" by (simp add: stores_def)
qed simp

lemma triple_rpc:
  assumes "\<And>s. stores P s \<Longrightarrow> stores Q (s\<lparr>world := server_rpc merge q (world s)\<rparr>)"
  shows "triple (stores P) (time_step (rfc_env merge hash) n q) (\<lambda>_. stores Q) (\<lambda>_ _. True)"
  unfolding time_step_def now_def
  by (rule triple_bnd [OF triple_gets_keep], rule triple_bnd [OF triple_send [OF assms]], assumption,
      rule triple_bnd [OF triple_gets_keep], rule triple_ret)

lemma triple_lift_keep: "triple P (lift r) (\<lambda>_. P) (\<lambda>_ _. True)"
  by (rule triple_lift) simp_all

lemma triple_optional_rpc:
  assumes "\<And>w. stores P w \<Longrightarrow> stores P (w\<lparr>world := server_rpc merge q (world w)\<rparr>)"
  shows "triple (stores P) (optional_step (rfc_env merge hash) n q) (\<lambda>_. stores P) (\<lambda>_ _. True)"
proof -
  have "keeps (\<lambda>w. stores P \<lparr>world = w, trace = []\<rparr>) (call_rpc (rfc_env merge hash) q)"
    unfolding rfc_env_def netconf_env.simps
  proof (rule keeps_with_fault)
    show "stores P \<lparr>world = server_rpc merge q w, trace = []\<rparr>" if "stores P \<lparr>world = w, trace = []\<rparr>" for w
      using assms [OF that] by simp
  qed (simp add: stores_def)
  moreover have "stores P s = stores P \<lparr>world = world s, trace = []\<rparr>" for s by (simp add: stores_def)
  ultimately have "keeps (stores P) (time_step (rfc_env merge hash) n q)"
    unfolding time_step_def send_def now_def
    by (intro keeps_intros) (metis (no_types, lifting) keeps_perform keeps_def)
  then show ?thesis
    unfolding optional_step_def keeps_triple
    by (intro triple_bnd triple_swallow)
      (auto elim!: triple_conseq intro!: triple_ret simp: rfc_env_def)
qed

lemma triple_raises: "triple P (bnd m (\<lambda>_. throw e)) Q (\<lambda>_ _. True)"
  by (auto simp: triple_def bnd_def throw_def split: prod.split sum.split)

lemma triple_answer:
  assumes "m = (\<lambda>w. with_fault (a w) id w)"
  shows "triple (stores P) (perform x m) (\<lambda>_. stores P) (\<lambda>_ _. True)"
proof (rule tripleI)
  fix s y s'
  assume "stores P s" and "perform x m s = (Inr y, s')"
  then show "stores P s'"
    using assms by (auto simp: perform_def stores_def split: prod.splits dest!: with_fault_Inr)
qed simp

lemma triple_connect_stores: "triple (stores P) (connect (rfc_env merge hash) client) (\<lambda>_. stores P) (\<lambda>_ _. True)"
proof -
  let ?env = "rfc_env merge hash"
  have lift: "triple (stores P) (lift r) (\<lambda>_. stores P) (\<lambda>_ _. True)" for r :: "unit result"
    by (rule triple_lift) simp_all
  have key: "triple (stores P) (perform KeyExchange (key_exchange ?env)) (\<lambda>_. stores P) (\<lambda>_ _. True)"
    by (rule triple_answer) (simp add: rfc_env_def)
  have auth: "triple (stores P) (perform (Authenticate u p) (authenticate ?env u p)) (\<lambda>_. stores P) (\<lambda>_ _. True)" for u p
    by (rule triple_answer) (simp add: rfc_env_def)
  have opened: "triple (stores P) (open_ncclient_session ?env client) (\<lambda>_. stores P) (\<lambda>_ _. True)"
    unfolding open_ncclient_session_def
    by (rule triple_catch [OF triple_bnd [OF key triple_bnd [OF lift auth]]])
      (simp_all add: triple_raises triple_bnd [OF triple_gets_keep])
  have verify: "triple (stores P) (bnd (gets (\<lambda>s. verify_host_key ?env client (world s)))
      (\<lambda>r. bnd (lift r) (\<lambda>_. ret session))) (\<lambda>_. stores P) (\<lambda>_ _. True)" for session
    by (rule triple_bnd [OF triple_gets_keep], rule triple_bnd [OF lift], rule triple_ret)
  have guard: "triple (stores P) (guard_not c e) (\<lambda>_. stores P) (\<lambda>_ _. True)" for c e
    by (rule triple_guard_not) simp_all
  show ?thesis
    unfolding connect_def
    by (rule triple_bnd [OF lift], rule triple_bnd [OF guard], rule triple_bnd [OF opened],
        rule triple_catch [OF verify]) (simp_all add: triple_raises)
qed

lemma stores_end_session:
  assumes "stores P s" and "\<And>run cand rb per. P run cand rb per \<Longrightarrow> rb = None \<or> per \<noteq> None"
  shows "stores P (s\<lparr>world := end_session (world s)\<rparr>)"
  using assms(1) assms(2) [of "srv_running (world s)" "srv_candidate (world s)" "srv_rollback (world s)"
    "srv_persist (world s)"]
  by (auto simp: stores_def end_session_def split: option.split)

lemma triple_close_stores:
  assumes "\<And>run cand rb per. P run cand rb per \<Longrightarrow> rb = None \<or> per \<noteq> None"
  shows "triple (stores P) (close_session (rfc_env merge hash)) (\<lambda>_. stores P) (\<lambda>_ _. True)"
proof -
  have "keeps (stores P) (perform CloseSession (call_close_session (rfc_env merge hash)))"
  proof -
    have "keeps (\<lambda>w. stores P \<lparr>world = w, trace = []\<rparr>) (\<lambda>w. with_fault () id w)"
      by (rule keeps_with_fault) (simp_all add: stores_def)
    moreover have "stores P s = stores P \<lparr>world = world s, trace = []\<rparr>" for s by (simp add: stores_def)
    ultimately show ?thesis
      using stores_end_session [OF _ assms]
      by (fastforce simp: keeps_def perform_def rfc_env_def split: prod.splits)
  qed
  then show ?thesis
    unfolding close_session_def keeps_triple by (intro triple_swallow) (auto elim!: triple_conseq)
qed

definition fresh :: "string \<Rightarrow> string \<Rightarrow> server net \<Rightarrow> bool" where
  "fresh before candidate = stores (\<lambda>run cand rb per. run = before \<and> cand = candidate \<and> rb = None \<and> per = None)"

lemma triple_stage_stores:
  "triple (fresh before cand) (stage_steps (rfc_env merge hash) cfg tt per)
     (\<lambda>_. pending_with per before (merge cand cfg)) (\<lambda>_ _. True)"
proof -
  let ?edited = "\<lambda>run c rb p. run = before \<and> c = merge cand cfg \<and> rb = None \<and> p = None"
  have 1: "triple (fresh before cand) (time_step (rfc_env merge hash) n (RpcEditConfig mutation_target cfg))
      (\<lambda>_. stores ?edited) (\<lambda>_ _. True)" for n
    unfolding fresh_def by (rule triple_rpc) (auto simp: stores_def mutation_target_def)
  have 2: "triple (stores ?edited) (time_step (rfc_env merge hash) n (RpcValidate mutation_target))
      (\<lambda>_. stores ?edited) (\<lambda>_ _. True)" for n
    by (rule triple_rpc) (simp add: stores_def)
  have 3: "triple (stores ?edited) (time_step (rfc_env merge hash) n (RpcCommit (confirmed_commit_kwargs tt per)))
      (\<lambda>_. pending_with per before (merge cand cfg)) (\<lambda>_ _. True)" for n
    unfolding pending_with_def by (rule triple_rpc) (auto simp: stores_def confirmed_commit_kwargs_def)
  show ?thesis
    unfolding stage_steps_def
    by (rule triple_bnd [OF 1], rule triple_bnd [OF 2], rule triple_bnd [OF 3], rule triple_ret)
qed

lemma stores_get: "stores P s = stores P (s\<lparr>world := server_rpc merge (RpcGet f) (world s)\<rparr>)"
  by (simp add: stores_def)

lemma triple_after_stores:
  "triple (pending_with per before config) (after_commit_steps (rfc_env merge hash) vf fin per)
     (\<lambda>_. if fin then done_with config else pending_with per before config) (\<lambda>_ _. True)"
proof -
  have verify: "triple (pending_with per before config)
      (case vf of None \<Rightarrow> ret [] | Some f \<Rightarrow> bnd (time_step (rfc_env merge hash) n (RpcGet (Some f))) (\<lambda>s. ret [s]))
      (\<lambda>_. pending_with per before config) (\<lambda>_ _. True)" for n
    unfolding pending_with_def
    by (cases vf) (simp_all add: triple_ret triple_bnd [OF triple_rpc [OF iffD1 [OF stores_get]]])
  have confirm: "triple (pending_with per before config)
      (time_step (rfc_env merge hash) n
        (RpcCommit (case per of None \<Rightarrow> plain_commit | Some token \<Rightarrow> persist_id_commit token)))
      (\<lambda>_. done_with config) (\<lambda>_ _. True)" for n
    unfolding pending_with_def done_with_def
    by (rule triple_rpc) (auto simp: stores_def plain_commit_def persist_id_commit_def split: option.split)
  show ?thesis
    unfolding after_commit_steps_def
  proof (rule triple_bnd [OF verify])
    fix s1 :: "mutation_step list"
    show "triple (pending_with per before config)
      (bnd (if fin then bnd (time_step (rfc_env merge hash) ''finalize'' (RpcCommit
             (case per of None \<Rightarrow> plain_commit | Some token \<Rightarrow> persist_id_commit token))) (\<lambda>s. ret [s]) else ret [])
        (\<lambda>s2. ret (s1 @ s2)))
      (\<lambda>_. if fin then done_with config else pending_with per before config) (\<lambda>_ _. True)"
      by (cases fin) (simp_all add: triple_ret bnd_assoc triple_bnd [OF confirm])
  qed
qed

lemma triple_unlock_stores:
  "triple (stores P) (optional_step (rfc_env merge hash) n (RpcUnlock t)) (\<lambda>_. stores P) (\<lambda>_ _. True)"
  by (rule triple_optional_rpc) (simp add: stores_def)

lemma triple_finally_Inr:
  assumes "triple P m (\<lambda>_. R) (\<lambda>_ _. True)" and "triple R fin (\<lambda>_. Q) (\<lambda>_ _. True)"
  shows "triple P (try_finally m fin) (\<lambda>_. Q) (\<lambda>_ _. True)"
  by (rule triple_finally [OF assms(1)]) (use assms(2) in \<open>auto simp: triple_def split: prod.split sum.split\<close>)

lemma triple_execute_stores:
  "triple (fresh before cand) (execute_confirmed_commit (rfc_env merge hash) client cfg vf ct fin per)
    (\<lambda>_. if fin then done_with (merge cand cfg)
         else if per = None then (\<lambda>_. True) else pending_with per before (merge cand cfg)) (\<lambda>_ _. True)"
proof -
  let ?env = "rfc_env merge hash" and ?new = "merge cand cfg"
  let ?after = "if fin then done_with ?new else pending_with per before ?new"
  have unlock: "triple ?after (optional_step ?env n q) (\<lambda>_. ?after) (\<lambda>_ _. True)" if "q = RpcUnlock t" for n q t
    using that triple_unlock_stores by (simp add: done_with_def pending_with_def)
  have fail: "triple P (bnd m (\<lambda>_. bnd m' (\<lambda>_. throw e))) Q (\<lambda>_ _. True)"
    for P e and m m' :: "(server net, mutation_step list) act" and Q :: "mutation_step list \<Rightarrow> server net \<Rightarrow> bool"
    by (simp only: bnd_assoc [symmetric]) (rule triple_raises)
  have locked: "triple (fresh before cand) (locked_transaction ?env cfg vf tt fin per) (\<lambda>_. ?after) (\<lambda>_ _. True)" for tt
    unfolding locked_transaction_def
  proof (rule triple_bnd)
    show "triple (fresh before cand) (attempt (stage_steps ?env cfg tt per))
        (\<lambda>r. case r of Inl _ \<Rightarrow> \<lambda>_. True | Inr _ \<Rightarrow> pending_with per before ?new) (\<lambda>_ _. True)"
      by (rule triple_attempt) (simp add: triple_stage_stores)
  next
    fix r :: "mutation_step list result"
    have "triple (pending_with per before ?new)
        (bnd (try_finally (after_commit_steps ?env vf fin per) (optional_step ?env n (RpcUnlock mutation_target)))
          (\<lambda>(later, unlocked). ret (steps @ later @ unlocked))) (\<lambda>_. ?after) (\<lambda>_ _. True)" for n steps
      by (rule triple_bnd [OF triple_finally_Inr [OF triple_conseq [OF triple_after_stores] unlock [OF refl]]])
        (auto intro: triple_ret)
    then show "triple (case r of Inl _ \<Rightarrow> \<lambda>_. True | Inr _ \<Rightarrow> pending_with per before ?new)
      (case r of Inl e \<Rightarrow> bnd (optional_step ?env ''discard-changes'' RpcDiscardChanges)
           (\<lambda>_. bnd (optional_step ?env ''unlock'' (RpcUnlock mutation_target)) (\<lambda>_. throw e))
       | Inr steps \<Rightarrow> bnd (try_finally (after_commit_steps ?env vf fin per)
           (optional_step ?env ''unlock'' (RpcUnlock mutation_target))) (\<lambda>(later, unlocked). ret (steps @ later @ unlocked)))
      (\<lambda>_. ?after) (\<lambda>_ _. True)"
      by (cases r) (simp_all add: fail)
  qed
  have lock: "triple (fresh before cand) (time_step ?env n (RpcLock t)) (\<lambda>_. fresh before cand) (\<lambda>_ _. True)" for n t
    unfolding fresh_def by (rule triple_rpc) (simp add: stores_def)
  have transaction: "triple (fresh before cand) (session_transaction ?env caps cfg vf tt fin per) (\<lambda>_. ?after)
      (\<lambda>_ _. True)" for caps tt
    unfolding session_transaction_def Let_def
    by (rule triple_bnd [OF triple_guard_not [where Q = "\<lambda>_. fresh before cand"]], simp, assumption,
        rule triple_bnd [OF lock], rule triple_bnd [OF locked], rule triple_ret)
  have close: "triple ?after (close_session ?env)
      (\<lambda>_. if fin then done_with ?new else if per = None then (\<lambda>_. True) else pending_with per before ?new) (\<lambda>_ _. True)"
  proof (cases "fin \<or> per \<noteq> None")
    case True
    then show ?thesis
      by (cases fin) (auto simp: done_with_def pending_with_def intro!: triple_close_stores)
  qed (simp add: triple_def split: prod.split sum.split)
  have start: "triple (fresh before cand) (lift r) (\<lambda>_. fresh before cand) (\<lambda>_ _. True)" for r :: "string result"
    by (rule triple_lift) simp_all
  have token: "triple (fresh before cand) (case per of None \<Rightarrow> ret () | Some token \<Rightarrow> lift (validate_persist_token token))
      (\<lambda>_. fresh before cand) (\<lambda>_ _. True)"
    by (cases per) (auto intro!: triple_ret triple_lift)
  have conn: "triple (fresh before cand) (connect ?env client) (\<lambda>_. fresh before cand) (\<lambda>_ _. True)"
    unfolding fresh_def by (rule triple_connect_stores)
  have whole: "triple (fresh before cand)
      (bnd (try_finally (session_transaction ?env caps cfg vf tt fin per) (close_session ?env)) (\<lambda>(steps, _). ret (h steps)))
      (\<lambda>_. if fin then done_with ?new else if per = None then (\<lambda>_. True) else pending_with per before ?new)
      (\<lambda>_ _. True)" for caps tt and h :: "mutation_step list \<Rightarrow> mutation_result"
    by (rule triple_bnd [OF triple_finally_Inr [OF transaction close]]) (simp add: triple_ret case_prod_unfold)
  show ?thesis
    unfolding execute_confirmed_commit_def
    by (rule triple_bnd [OF start], rule triple_bnd [OF token], rule triple_bnd [OF conn], rule whole)
qed

subsection \<open>Confirming and cancelling later\<close>

lemma triple_run_persist_step:
  assumes "\<And>s. stores P s \<Longrightarrow> stores Q (s\<lparr>world := server_rpc merge q (world s)\<rparr>)"
    and "\<And>run cand rb per. Q run cand rb per \<Longrightarrow> rb = None \<or> per \<noteq> None"
  shows "triple (stores P) (run_persist_step (rfc_env merge hash) client n q) (\<lambda>_. stores Q) (\<lambda>_ _. True)"
proof -
  let ?env = "rfc_env merge hash"
  note sent = triple_send [OF assms(1)]
  have call: "triple (stores P) (bnd (guard_not c e) (\<lambda>_. send ?env q)) (\<lambda>_. stores Q) (\<lambda>_ _. True)" for c e
    by (rule triple_bnd [OF triple_guard_not [where Q = "\<lambda>_. stores P"]], simp, assumption, rule sent)
  have timed: "triple (stores P) (bnd (bnd (guard_not c e) (\<lambda>_. send ?env q)) (\<lambda>r. bnd (now ?env) (\<lambda>ended. ret (h r ended))))
      (\<lambda>_. stores Q) (\<lambda>_ _. True)" for c e and h :: "reply \<Rightarrow> rat \<Rightarrow> operation_result"
    unfolding now_def by (rule triple_bnd [OF call], rule triple_bnd [OF triple_gets_keep], rule triple_ret)
  have whole: "triple (stores P) (bnd (try_finally (bnd (bnd (guard_not c e) (\<lambda>_. send ?env q))
        (\<lambda>r. bnd (now ?env) (\<lambda>ended. ret (h r ended)))) (close_session ?env)) (\<lambda>(result, _). ret result))
      (\<lambda>_. stores Q) (\<lambda>_ _. True)" for c e and h :: "reply \<Rightarrow> rat \<Rightarrow> operation_result"
    by (rule triple_bnd [OF triple_finally_Inr [OF timed triple_close_stores]])
      (use assms(2) in \<open>simp_all add: triple_ret case_prod_unfold\<close>)
  have start: "triple (stores P) (now ?env) (\<lambda>_. stores P) (\<lambda>_ _. True)"
    unfolding now_def by (rule triple_gets_keep)
  show ?thesis
    unfolding run_persist_step_def run_operation_def Let_def
    by (rule triple_bnd [OF start], rule triple_bnd [OF triple_connect_stores], rule whole)
qed

lemma triple_confirm:
  "triple (pending_with (Some token) before config) (confirm_persisted_commit (rfc_env merge hash) client token)
     (\<lambda>_. done_with config) (\<lambda>_ _. True)"
  unfolding confirm_persisted_commit_def pending_with_def done_with_def
  by (rule triple_bnd [OF triple_lift_keep triple_run_persist_step])
    (auto simp: stores_def persist_id_commit_def)

lemma triple_cancel:
  "triple (pending_with (Some token) before config) (cancel_persisted_commit (rfc_env merge hash) client token)
     (\<lambda>_ s. settled before (world s)) (\<lambda>_ _. True)"
proof -
  have "triple (pending_with (Some token) before config) (cancel_persisted_commit (rfc_env merge hash) client token)
     (\<lambda>_. stores (\<lambda>run cand rb per. run = before \<and> rb = None \<and> per = None)) (\<lambda>_ _. True)"
    unfolding cancel_persisted_commit_def pending_with_def
    by (rule triple_bnd [OF triple_lift_keep triple_run_persist_step]) (auto simp: stores_def)
  then show ?thesis by (rule triple_conseq) (simp_all add: stores_def settled_def)
qed

section \<open>Lemmas: host key\<close>

lemma rstrip_of_append: "x \<noteq> [] \<Longrightarrow> \<not> P (last x) \<Longrightarrow> list_all P y \<Longrightarrow> rstrip_of P (x @ y) = x"
proof -
  assume x: "x \<noteq> []" "\<not> P (last x)" and y: "list_all P y"
  then have "dropWhile P (rev y @ rev x) = rev x"
    by (subst dropWhile_append2) (auto simp: list_all_iff hd_rev dropWhile_eq_self_iff)
  then show ?thesis by (simp add: rstrip_of_def)
qed

lemma key_fingerprint_shape:
  assumes "sha256 env key \<noteq> []"
  obtains k where "b64encode (sha256 env key) = key_fingerprint env key @ replicate k (CHR ''='')"
    "key_fingerprint env key \<noteq> []" "list_all is_base64_char (key_fingerprint env key)"
proof -
  obtain body k where b: "b64encode (sha256 env key) = body @ replicate k (CHR ''='')" "list_all is_base64_char body"
    using b64encode_shape by blast
  have "hd (b64encode (sha256 env key)) \<noteq> CHR ''=''"
  proof -
    have "\<exists>n. hd (b64encode d) = base64_char n" if "d \<noteq> []" for d
      using that by (induction d rule: b64encode.induct) (auto simp: Let_def)
    then obtain n where "hd (b64encode (sha256 env key)) = base64_char n" using assms by blast
    then show ?thesis using base64_plain(2) [OF base64_char_ok [of n]] by simp
  qed
  moreover have "b64encode (sha256 env key) \<noteq> []" using assms
    by (cases "sha256 env key" rule: b64encode.cases) (simp_all add: Let_def)
  ultimately have "body \<noteq> []" using b(1) by (cases k) (auto split: if_splits)
  moreover have "last body \<noteq> CHR ''=''"
    using b(2) base64_plain(2) \<open>body \<noteq> []\<close> by (metis last_in_set list_all_iff)
  ultimately have "key_fingerprint env key = body"
    unfolding key_fingerprint_def b(1) by (intro rstrip_of_append) (simp_all add: list_all_iff)
  with b \<open>body \<noteq> []\<close> show ?thesis using that by simp
qed

lemma strip_plain: "list_all (\<lambda>c. \<not> is_space c) w \<Longrightarrow> strip w = w"
  by (rule strip_trimmed) (auto simp: trimmed_def list_all_iff)

lemma normalize_fingerprint_pin:
  assumes "fp \<noteq> []" and "list_all is_base64_char fp" and "pre \<in> {[], ''SHA256:''}"
  shows "normalize_fingerprint (pre @ fp @ replicate k (CHR ''='')) = Inr fp"
proof -
  let ?tail = "fp @ replicate k (CHR ''='')"
  have eq: "\<not> is_space (CHR ''='')" "list_all (\<lambda>c. \<not> is_space c) ''SHA256:''" by code_simp+
  have tail: "list_all (\<lambda>c. \<not> is_space c) ?tail"
    using assms(2) base64_plain eq(1) by (auto simp: list_all_iff)
  have "list_all (\<lambda>c. lower_char c \<noteq> CHR '':'') (CHR ''='' # base64_alphabet)" by code_simp
  then have colon: "list_all (\<lambda>c. lower_char c \<noteq> CHR '':'') ?tail"
    using assms(2) by (auto simp: list_all_iff is_base64_char_def)
  note sp2 = tail
  have sp: "list_all (\<lambda>c. \<not> is_space c) (pre @ ?tail)"
    using assms(3) eq(2) sp2 by (elim insertE) (simp_all only: list_all_append append_Nil empty_iff)
  have "\<not> starts_with ''sha256:'' (lower ?tail)"
  proof
    assume "starts_with ''sha256:'' (lower ?tail)"
    then have "list_ex (\<lambda>c. c = CHR '':'') (lower ?tail)" by (auto simp: starts_with_iff)
    moreover have "\<not> list_ex (\<lambda>c. c = CHR '':'') (lower ?tail)"
      using colon by (simp only: lower_def list_ex_iff list_all_iff set_map) blast
    ultimately show False by simp
  qed
  moreover have "starts_with ''sha256:'' (lower (''SHA256:'' @ ?tail))" by (simp add: starts_with_def lower_def) code_simp
  moreover have "rstrip_of (\<lambda>c. c = CHR ''='') ?tail = fp"
  proof (rule rstrip_of_append)
    show "last fp \<noteq> CHR ''=''" using assms(1,2) base64_plain(2) by (metis last_in_set list_all_iff)
  qed (use assms(1) in \<open>simp_all add: list_all_iff\<close>)
  ultimately show ?thesis
    using assms(1,3) sp sp2 by (auto simp: normalize_fingerprint_def Let_def strip_plain)
qed

lemma check_fingerprint_mismatch:
  assumes "nc_expected client = Some fp" and "normalize_fingerprint fp \<noteq> Inr actual"
  shows "\<exists>e. check_fingerprint client actual = Inl e \<and> (is_exception e)"
proof (cases "normalize_fingerprint fp")
  case (Inl e)
  then show ?thesis using assms
    by (auto simp: check_fingerprint_def normalize_fingerprint_def Let_def split: if_splits)
next
  case (Inr expected)
  with assms show ?thesis by (simp add: check_fingerprint_def)
qed

lemma connect_mismatch:
  assumes "nc_expected client = Some fp"
    and "\<And>w key w'. key_exchange env w = (Inr key, w') \<Longrightarrow> normalize_fingerprint fp \<noteq> Inr (key_fingerprint env key)"
    and "connect env client s = (r, s')"
  shows "\<not> is_ok r \<and> (\<exists>t. trace s' = trace s @ t \<and> set t \<subseteq> {KeyExchange, CloseTransport})"
proof -
  let ?I = "\<lambda>s'. \<exists>t. trace s' = trace s @ t \<and> set t \<subseteq> {KeyExchange, CloseTransport}"
  have keep: "triple ?I (perform x m) (\<lambda>_. ?I) (\<lambda>_. ?I)" if "x \<in> {KeyExchange, CloseTransport}" for x and m :: "('a, 'b) act"
    using that by (auto simp: triple_def perform_def split: prod.split sum.split)
  have key: "triple ?I (perform KeyExchange (key_exchange env))
      (\<lambda>key s. ?I s \<and> normalize_fingerprint fp \<noteq> Inr (key_fingerprint env key)) (\<lambda>_. ?I)"
    using assms(2) by (fastforce simp: triple_def perform_def split: prod.split sum.split)
  have verify: "triple (\<lambda>s. ?I s \<and> normalize_fingerprint fp \<noteq> Inr (key_fingerprint env key))
      (lift (verify_server_key env client key)) (\<lambda>_ _. False) (\<lambda>_. ?I)" for key
    by (rule triple_lift)
      (use assms(1) check_fingerprint_mismatch [OF assms(1)] in \<open>fastforce simp: verify_server_key_def\<close>)+
  have opened: "triple ?I (open_ncclient_session env client) (\<lambda>_ _. False) (\<lambda>_. ?I)"
    unfolding open_ncclient_session_def
  proof (rule triple_catch)
    show "triple ?I (bnd (perform KeyExchange (key_exchange env)) (\<lambda>key.
        bnd (lift (verify_server_key env client key)) (\<lambda>_. perform (Authenticate (nc_username client)
          (nc_password client)) (authenticate env (nc_username client) (nc_password client)))))
        (\<lambda>_ _. False) (\<lambda>_. ?I)"
      by (rule triple_bnd [OF key], rule triple_bnd [OF verify]) (simp add: triple_def)
    show "triple ?I (bnd (gets (\<lambda>s. transport_up env (world s))) (\<lambda>up.
        bnd (if up then perform CloseTransport (call_close_transport env) else ret ()) (\<lambda>_. throw e)))
        (\<lambda>_ _. False) (\<lambda>_. ?I)" for e
      by (rule triple_bnd [OF triple_gets_keep], rule triple_bnd [OF triple_if, where R = "\<lambda>_. ?I"])
        (auto intro: keep triple_ret triple_throw)
  qed
  have "triple ?I (connect env client) (\<lambda>_ _. False) (\<lambda>_. ?I)"
    unfolding connect_def
    by (rule triple_bnd [OF triple_lift], assumption, assumption, rule triple_bnd [OF triple_guard_not],
        assumption, assumption, rule triple_bnd [OF opened]) (simp add: triple_def)
  from triple_run [OF this _ assms(3)] show ?thesis by (cases r) auto
qed

lemma execute_without_capabilities:
  assumes "\<And>w h w'. authenticate env u p w = (Inr h, w') \<Longrightarrow>
      (if per = None then missing_mutation_capabilities (hello_capabilities h)
       else missing_persist_capabilities (hello_capabilities h)) \<noteq> []"
    and "u = nc_username client" and "p = nc_password client"
    and "execute_confirmed_commit env client cfg vf ct fin per s = (r, s')"
  shows "\<not> is_ok r \<and> (\<exists>t. trace s' = trace s @ t \<and> (\<forall>q. Rpc q \<notin> set t))"
proof -
  let ?I = "\<lambda>s'. \<exists>t. trace s' = trace s @ t \<and> (\<forall>q. Rpc q \<notin> set t)"
  let ?no = "\<lambda>h. (if per = None then missing_mutation_capabilities (hello_capabilities h)
       else missing_persist_capabilities (hello_capabilities h)) \<noteq> []"
  have keep: "triple ?I (perform x m) (\<lambda>_. ?I) (\<lambda>_. ?I)" if "\<forall>q. x \<noteq> Rpc q" for x and m :: "('a, 'b) act"
    using that by (auto simp: triple_def perform_def split: prod.split sum.split)
  have keep': "triple ?I (perform x m) (\<lambda>_. ?I) (\<lambda>_. ?I)" if "\<forall>q. x \<noteq> Rpc q" for x and m :: "('a, unit) act"
    using that by (auto simp: triple_def perform_def split: prod.split sum.split)
  have auth: "triple ?I (perform (Authenticate u p) (authenticate env u p)) (\<lambda>h s. ?I s \<and> ?no h) (\<lambda>_. ?I)"
    using assms(1) by (fastforce simp: triple_def perform_def split: prod.split sum.split)
  have close: "triple ?I (close_session env) (\<lambda>_. ?I) (\<lambda>_. ?I)"
    unfolding close_session_def by (rule triple_swallow, rule triple_conseq [OF keep']) simp_all
  have opened: "triple ?I (open_ncclient_session env client) (\<lambda>h s. ?I s \<and> ?no h) (\<lambda>_. ?I)"
    unfolding open_ncclient_session_def assms(2,3) [symmetric]
  proof (rule triple_catch)
    show "triple ?I (bnd (perform KeyExchange (key_exchange env)) (\<lambda>key.
        bnd (lift (verify_server_key env client key)) (\<lambda>_. perform (Authenticate u p) (authenticate env u p))))
        (\<lambda>h s. ?I s \<and> ?no h) (\<lambda>_. ?I)"
      by (rule triple_bnd [OF keep], simp, rule triple_bnd [OF triple_lift auth]) simp_all
    show "triple ?I (bnd (gets (\<lambda>s. transport_up env (world s))) (\<lambda>up.
        bnd (if up then perform CloseTransport (call_close_transport env) else ret ()) (\<lambda>_. throw e)))
        (\<lambda>h s. ?I s \<and> ?no h) (\<lambda>_. ?I)" for e
      by (rule triple_bnd [OF triple_gets_keep], rule triple_bnd [OF triple_if, where R = "\<lambda>_. ?I"])
        (auto intro: keep' triple_ret triple_throw)
  qed
  have conn: "triple ?I (connect env client) (\<lambda>h s. ?I s \<and> ?no h) (\<lambda>_. ?I)"
    unfolding connect_def
  proof (rule triple_bnd [OF triple_lift], assumption, assumption, rule triple_bnd [OF triple_guard_not],
        assumption, assumption, rule triple_bnd [OF opened], rule triple_catch)
    fix h
    show "triple (\<lambda>s. ?I s \<and> ?no h) (bnd (gets (\<lambda>s. verify_host_key env client (world s)))
        (\<lambda>r. bnd (lift r) (\<lambda>_. ret h))) (\<lambda>h s. ?I s \<and> ?no h) (\<lambda>_. ?I)"
      by (rule triple_bnd [OF triple_gets_keep], rule triple_bnd [OF triple_lift [where Q = "\<lambda>_ s. ?I s \<and> ?no h"]])
        (auto intro: triple_ret)
    show "triple ?I (bnd (close_session env) (\<lambda>_. throw e)) (\<lambda>h s. ?I s \<and> ?no h) (\<lambda>_. ?I)" for e
      by (rule triple_bnd [OF close], rule triple_throw)
  qed
  have "triple ?I (execute_confirmed_commit env client cfg vf ct fin per) (\<lambda>_ _. False) (\<lambda>_. ?I)"
    unfolding execute_confirmed_commit_def
  proof (rule triple_bnd [OF triple_lift], assumption, assumption)
    fix tt
    have token: "triple ?I (case per of None \<Rightarrow> ret () | Some token \<Rightarrow> lift (validate_persist_token token))
        (\<lambda>_. ?I) (\<lambda>_. ?I)"
      by (cases per) (auto intro: triple_ret triple_lift)
    have refuse: "triple (\<lambda>s. ?I s \<and> ?no h) (session_transaction env (hello_capabilities h) cfg vf tt fin per)
        (\<lambda>_ _. False) (\<lambda>_. ?I)" for h
      unfolding session_transaction_def Let_def
      by (rule triple_bnd [OF triple_guard_not [where Q = "\<lambda>_ _. False"]]) (auto simp: triple_def)
    have "triple (\<lambda>s. ?I s \<and> ?no h)
        (bnd (try_finally (session_transaction env (hello_capabilities h) cfg vf tt fin per) (close_session env)) g)
        (\<lambda>_ _. False) (\<lambda>_. ?I)" for h and g :: "_ \<Rightarrow> ('a net, mutation_result) act"
      by (rule triple_bnd [OF triple_finally [OF refuse _ close, where Q = "\<lambda>_ _. False"]])
        (auto simp: triple_def)
    then show "triple ?I (bnd (case per of None \<Rightarrow> ret () | Some token \<Rightarrow> lift (validate_persist_token token)) (\<lambda>_.
        bnd (connect env client) (\<lambda>session.
        bnd (try_finally (session_transaction env (hello_capabilities session) cfg vf tt fin per)
               (close_session env)) (\<lambda>(steps, _).
        ret \<lparr>mut_steps = steps, mut_finalized = fin, mut_confirm_timeout = ct, mut_persist = per\<rparr>))))
      (\<lambda>_ _. False) (\<lambda>_. ?I)"
      by (intro triple_bnd [OF token] triple_bnd [OF conn])
  qed
  from triple_run [OF this _ assms(4)] show ?thesis by (cases r) auto
qed

lemma confirm_timeout_text_iff:
  "confirm_timeout_text v = Inr t \<longleftrightarrow>
   (\<exists>n. 1 \<le> n \<and> (v = PInt n \<or> v = PFloat (Fin (of_int n))) \<and> t = str_of_int n)"
proof (cases v)
  case (PFloat x)
  show ?thesis
  proof (cases x)
    case (Fin q)
    show ?thesis
    proof
      assume "confirm_timeout_text v = Inr t"
      then have "1 \<le> q" "q = of_int \<lfloor>q\<rfloor>" "t = str_of_int \<lfloor>q\<rfloor>"
        by (auto simp: PFloat Fin split: if_splits)
      then have "1 \<le> \<lfloor>q\<rfloor> \<and> (v = PInt \<lfloor>q\<rfloor> \<or> v = PFloat (Fin (of_int \<lfloor>q\<rfloor>))) \<and> t = str_of_int \<lfloor>q\<rfloor>"
        by (metis PFloat Fin one_le_floor)
      then show "\<exists>n. 1 \<le> n \<and> (v = PInt n \<or> v = PFloat (Fin (of_int n))) \<and> t = str_of_int n" ..
    qed (auto simp: PFloat Fin)
  qed (auto simp: PFloat)
qed auto

section \<open>Properties\<close>

definition demo_client :: netconf_client where
  "demo_client = \<lparr>nc_host = ''h'', nc_username = ''u'', nc_password = ''p'', nc_port = 830, nc_timeout = Fin 15,
     nc_allow_unknown = False, nc_expected = Some ''SHA256:a2V5''\<rparr>"

definition demo_server :: "fault list \<Rightarrow> string \<Rightarrow> server" where
  "demo_server faults key = \<lparr>srv_running = ''r'', srv_candidate = ''r'', srv_rollback = None, srv_persist = None,
     srv_faults = faults, srv_capabilities = candidate_capabilities @ confirmed_commit_capabilities, srv_key = key\<rparr>"

definition demo_net :: "fault list \<Rightarrow> server net" where
  "demo_net faults = \<lparr>world = demo_server faults ''key'', trace = []\<rparr>"

abbreviation demo_env :: "server netconf_env" where
  "demo_env \<equiv> rfc_env (\<lambda>old new. old @ new) id"

text \<open>C2. Protocol of a mutation: whatever the server answers and wherever the run fails, the exchanges of
  \<open>execute_confirmed_commit\<close> are a path of the automaton \<open>next_phase\<close>: only the candidate datastore is
  locked, edited, validated and unlocked, the commit is the confirmed one with the validated timeout and comes
  after edit and validate, the confirming commit is sent only when asked for, and a run that returns has closed
  its session.\<close>

theorem execute_confirmed_commit_protocol:
  assumes "execute_confirmed_commit env client cfg vf ct fin per s = (r, s')"
  shows "\<exists>t ph. trace s' = trace s @ t \<and>
    run_phases (next_phase cfg vf (projr (confirm_timeout_text ct)) fin per) Idle t = Some ph \<and>
    ph \<in> {Idle, Keyed, Session, Closed} \<and> (is_ok r \<longrightarrow> ph = Closed)"
proof (cases "confirm_timeout_text ct")
  case (Inl e)
  then have "s' = s" "r = Inl e" using assms by (simp_all add: execute_confirmed_commit_def throw_def)
  then show ?thesis by (intro exI [of _ "[]"] exI [of _ Idle]) simp
next
  case (Inr tt)
  have "at_phase (next_phase cfg vf tt fin per) (trace s) {Idle} s" by (simp add: at_phase_def)
  from triple_run [OF triple_execute_confirmed_commit [OF Inr] this assms] Inr show ?thesis
    by (cases r) (auto simp: at_phase_def)
qed

lemma execute_confirmed_commit_protocol_witness:
  "\<exists>t ph. trace (snd (execute_confirmed_commit demo_env demo_client ''x'' None (PInt 30) False None (demo_net [])))
      = trace (demo_net []) @ t \<and>
    run_phases (next_phase ''x'' None (projr (confirm_timeout_text (PInt 30))) False None) Idle t = Some ph \<and>
    ph \<in> {Idle, Keyed, Session, Closed} \<and>
    (is_ok (fst (execute_confirmed_commit demo_env demo_client ''x'' None (PInt 30) False None (demo_net []))) \<longrightarrow> ph = Closed)"
  by (rule execute_confirmed_commit_protocol) (simp add: prod_eq_iff)

text \<open>C1. Rollback by default: against a server that follows RFC 6241, a mutation without \<open>finalize\<close>
  and without a persist token leaves the running datastore exactly as it was, with no commit pending, for every
  configuration and every schedule of rejected operations and lost replies.\<close>

theorem execute_unfinalized_reverts:
  assumes "execute_confirmed_commit (rfc_env merge hash) client cfg vf ct False None s = (r, s')"
    and "srv_rollback (world s) = None" and "srv_persist (world s) = None"
  shows "srv_running (world s') = srv_running (world s) \<and> srv_rollback (world s') = None"
  using execute_unfinalized_settled [OF assms(1), of "srv_running (world s)"] assms(2,3)
  by (simp add: settled_def)

lemma execute_unfinalized_reverts_witness:
  "srv_running (world (snd (execute_confirmed_commit demo_env demo_client ''x'' None (PInt 30) False None
      (demo_net [Good, Good, Good, Good, Good, ReplyLost])))) =
    srv_running (world (demo_net [Good, Good, Good, Good, Good, ReplyLost])) \<and>
   srv_rollback (world (snd (execute_confirmed_commit demo_env demo_client ''x'' None (PInt 30) False None
      (demo_net [Good, Good, Good, Good, Good, ReplyLost])))) = None"
  by (rule execute_unfinalized_reverts [OF prod.collapse [symmetric]])
    (simp_all add: demo_net_def demo_server_def)

text \<open>C8. What a reported success means, against the same server: with \<open>finalize\<close> the edited configuration
  is running and nothing is pending; with a persist token and no \<open>finalize\<close> it is running and pending under
  that token, and then a successful \<open>confirm_persisted_commit\<close> makes it permanent while a successful
  \<open>cancel_persisted_commit\<close> restores what ran before.\<close>

theorem execute_success_outcomes:
  assumes "execute_confirmed_commit (rfc_env merge hash) client cfg vf ct fin per s = (Inr res, s')"
    and "srv_rollback (world s) = None" and "srv_persist (world s) = None"
    and "new = merge (srv_candidate (world s)) cfg"
  shows "(fin \<longrightarrow> srv_running (world s') = new \<and> srv_rollback (world s') = None) \<and>
    (\<not> fin \<and> per = Some token \<longrightarrow>
      srv_running (world s') = new \<and>
      (case confirm_persisted_commit (rfc_env merge hash) client2 token s' of
         (Inr _, s2) \<Rightarrow> srv_running (world s2) = new \<and> srv_rollback (world s2) = None | _ \<Rightarrow> True) \<and>
      (case cancel_persisted_commit (rfc_env merge hash) client2 token s' of
         (Inr _, s2) \<Rightarrow> srv_running (world s2) = srv_running (world s) \<and> srv_rollback (world s2) = None | _ \<Rightarrow> True))"
proof -
  have "fresh (srv_running (world s)) (srv_candidate (world s)) s"
    using assms(2,3) by (simp add: fresh_def stores_def)
  from triple_Inr [OF triple_execute_stores this assms(1)]
  have post: "(if fin then done_with new else if per = None then (\<lambda>_. True)
      else pending_with per (srv_running (world s)) new) s'" unfolding assms(4) .
  show ?thesis
  proof (intro conjI impI)
    assume "\<not> fin \<and> per = Some token"
    with post have p: "pending_with (Some token) (srv_running (world s)) new s'" by simp
    then show "srv_running (world s') = new" by (simp add: pending_with_def stores_def)
    show "case confirm_persisted_commit (rfc_env merge hash) client2 token s' of
         (Inr _, s2) \<Rightarrow> srv_running (world s2) = new \<and> srv_rollback (world s2) = None | _ \<Rightarrow> True"
      using triple_Inr [OF triple_confirm p]
      by (auto simp: done_with_def stores_def split: prod.split sum.split)
    show "case cancel_persisted_commit (rfc_env merge hash) client2 token s' of
         (Inr _, s2) \<Rightarrow> srv_running (world s2) = srv_running (world s) \<and> srv_rollback (world s2) = None | _ \<Rightarrow> True"
      using triple_Inr [OF triple_cancel p] by (auto simp: settled_def split: prod.split sum.split)
  qed (use post in \<open>simp_all add: done_with_def stores_def\<close>)
qed

definition demo_pending :: "server net" where
  "demo_pending = snd (execute_confirmed_commit demo_env demo_client ''x'' None (PInt 30) False (Some ''tok'') (demo_net []))"

lemma execute_success_outcomes_witness:
  "srv_running (world demo_pending) = ''rx'' \<and>
   srv_running (world (snd (cancel_persisted_commit demo_env demo_client ''tok'' demo_pending))) = ''r''"
proof -
  let ?run = "execute_confirmed_commit demo_env demo_client ''x'' None (PInt 30) False (Some ''tok'') (demo_net [])"
  have "is_ok (fst ?run)" by code_simp
  then obtain res where run: "?run = (Inr res, demo_pending)"
    by (cases ?run) (auto simp: is_ok_iff demo_pending_def)
  have "is_ok (fst (cancel_persisted_commit demo_env demo_client ''tok'' demo_pending))" by code_simp
  then obtain op s2 where cancel: "cancel_persisted_commit demo_env demo_client ''tok'' demo_pending = (Inr op, s2)"
    by (cases "cancel_persisted_commit demo_env demo_client ''tok'' demo_pending") (auto simp: is_ok_iff)
  have "(False \<longrightarrow> srv_running (world demo_pending) = ''rx'' \<and> srv_rollback (world demo_pending) = None) \<and>
    (\<not> False \<and> Some ''tok'' = Some ''tok'' \<longrightarrow> srv_running (world demo_pending) = ''rx'' \<and>
      (case confirm_persisted_commit demo_env demo_client ''tok'' demo_pending of
         (Inr _, s2) \<Rightarrow> srv_running (world s2) = ''rx'' \<and> srv_rollback (world s2) = None | _ \<Rightarrow> True) \<and>
      (case cancel_persisted_commit demo_env demo_client ''tok'' demo_pending of
         (Inr _, s2) \<Rightarrow> srv_running (world s2) = srv_running (world (demo_net [])) \<and> srv_rollback (world s2) = None
       | _ \<Rightarrow> True))"
    by (rule execute_success_outcomes [OF run]) (simp_all add: demo_net_def demo_server_def)
  then show ?thesis by (simp add: cancel demo_net_def demo_server_def)
qed

text \<open>C9. Capabilities first: when the server never advertises what the mutation needs (candidate and
  confirmed-commit, version 1.1 with a persist token), the run fails and sends no operation at all, not
  even the lock.\<close>

theorem execute_requires_capabilities:
  assumes "\<And>w h w'. authenticate env (nc_username client) (nc_password client) w = (Inr h, w') \<Longrightarrow>
      (if per = None then missing_mutation_capabilities (hello_capabilities h)
       else missing_persist_capabilities (hello_capabilities h)) \<noteq> []"
    and "execute_confirmed_commit env client cfg vf ct fin per s = (r, s')"
  shows "\<not> is_ok r \<and> (\<exists>t. trace s' = trace s @ t \<and> (\<forall>q. Rpc q \<notin> set t))"
  by (rule execute_without_capabilities [OF assms(1) refl refl assms(2)])

definition old_env :: "server netconf_env" where
  "old_env = demo_env\<lparr>authenticate := (\<lambda>u p w. (Inr \<lparr>hello_session_id = None,
     hello_capabilities = candidate_capabilities\<rparr>, w))\<rparr>"

lemma execute_requires_capabilities_witness:
  "\<not> is_ok (fst (execute_confirmed_commit old_env demo_client ''x'' None (PInt 30) True None (demo_net []))) \<and>
   (\<exists>t. trace (snd (execute_confirmed_commit old_env demo_client ''x'' None (PInt 30) True None (demo_net []))) =
     trace (demo_net []) @ t \<and> (\<forall>q. Rpc q \<notin> set t))"
proof (rule execute_requires_capabilities [OF _ prod.collapse [symmetric]])
  have "missing_mutation_capabilities candidate_capabilities \<noteq> []" by code_simp
  then show "(if (None :: string option) = None then missing_mutation_capabilities (hello_capabilities h)
      else missing_persist_capabilities (hello_capabilities h)) \<noteq> []"
    if "authenticate old_env u p w = (Inr h, w')" for u p w h w'
    using that by (auto simp: old_env_def)
qed

text \<open>C3. Host key pin: when no key that the server presents has the pinned fingerprint, connecting fails and
  neither the user name nor the password is ever sent; at most the transport is closed again.\<close>

theorem connect_pin_mismatch:
  assumes "nc_expected client = Some fp"
    and "\<And>w key w'. key_exchange env w = (Inr key, w') \<Longrightarrow> normalize_fingerprint fp \<noteq> Inr (key_fingerprint env key)"
    and "connect env client s = (r, s')"
  shows "\<not> is_ok r \<and> (\<exists>t. trace s' = trace s @ t \<and> set t \<subseteq> {KeyExchange, CloseTransport})"
  by (rule connect_mismatch [OF assms])

lemma connect_pin_mismatch_witness:
  "\<not> is_ok (fst (connect (demo_env\<lparr>key_exchange := (\<lambda>w. (Inr ''other'', w))\<rparr>) demo_client (demo_net []))) \<and>
   (\<exists>t. trace (snd (connect (demo_env\<lparr>key_exchange := (\<lambda>w. (Inr ''other'', w))\<rparr>) demo_client (demo_net []))) =
     trace (demo_net []) @ t \<and> set t \<subseteq> {KeyExchange, CloseTransport})"
proof (rule connect_pin_mismatch [OF _ _ prod.collapse [symmetric]])
  show "nc_expected demo_client = Some ''SHA256:a2V5''" by (simp add: demo_client_def)
  have other: "normalize_fingerprint ''SHA256:a2V5'' \<noteq> Inr (rstrip_of (\<lambda>c. c = CHR ''='') (b64encode ''other''))" by code_simp
  show "normalize_fingerprint ''SHA256:a2V5'' \<noteq>
      Inr (key_fingerprint (demo_env\<lparr>key_exchange := (\<lambda>w. (Inr ''other'', w))\<rparr>) key)"
    if "key_exchange (demo_env\<lparr>key_exchange := (\<lambda>w. (Inr ''other'', w))\<rparr>) w = (Inr key, w')" for w key w'
  proof -
    from that have "key = ''other''" by simp
    with other show ?thesis
      by (simp only: key_fingerprint_def rfc_env_def netconf_env.simps id_apply not_False_eq_True)
  qed
qed

text \<open>The pinned key is accepted in each form in which tools print a fingerprint: the base64 digest of the
  server's key, with or without the prefix \<open>SHA256:\<close> and with or without its padding, passes the
  pre-authentication check for exactly that key.\<close>

theorem pinned_key_accepted:
  assumes "sha256 env key \<noteq> []" and "pre \<in> {[], ''SHA256:''}"
    and "body \<in> {key_fingerprint env key, b64encode (sha256 env key)}"
    and "nc_expected client = Some (pre @ body)"
  shows "verify_server_key env client other = Inr () \<longleftrightarrow> key_fingerprint env other = key_fingerprint env key"
proof -
  obtain k where k: "b64encode (sha256 env key) = key_fingerprint env key @ replicate k (CHR ''='')"
    "key_fingerprint env key \<noteq> []" "list_all is_base64_char (key_fingerprint env key)"
    using assms(1) by (rule key_fingerprint_shape)
  have "\<exists>k. body = key_fingerprint env key @ replicate k (CHR ''='')"
    using assms(3) k(1) by (auto intro: exI [of _ 0])
  then have "normalize_fingerprint (pre @ body) = Inr (key_fingerprint env key)"
    using normalize_fingerprint_pin [OF k(2,3) assms(2)] by auto
  then show ?thesis using assms(4) by (simp add: verify_server_key_def check_fingerprint_def raise_when_def)
qed

lemma pinned_key_accepted_witness:
  "verify_server_key demo_env demo_client ''key'' = Inr () \<longleftrightarrow> key_fingerprint demo_env ''key'' = key_fingerprint demo_env ''key''"
  by (rule pinned_key_accepted [of _ _ "''SHA256:''" "''a2V5''"])
    (simp_all add: rfc_env_def demo_client_def key_fingerprint_def, code_simp)

text \<open>Confirm timeout: the text sent to the device is the decimal numeral of a whole number of seconds, at
  least one; booleans, other types, fractions, infinities and not-a-number are refused.\<close>

theorem confirm_timeout_text_whole:
  "confirm_timeout_text v = Inr t \<longleftrightarrow>
   (\<exists>n. 1 \<le> n \<and> (v = PInt n \<or> v = PFloat (Fin (of_int n))) \<and> t = str_of_int n)"
  by (rule confirm_timeout_text_iff)

end
