(* ===== verification/Readiness.thy ===== *)
theory Readiness
  imports PyRegex Verify
begin

text \<open>
  Terminal text, \<open>cli_tool/transport/readiness.py\<close>: normalisation, detection of the command
  prompt, and removal of the echoed command and the prompt from a response.
\<close>

section \<open>Definitions\<close>

definition esc :: char where "esc = CHR 27"

definition ansi_escape :: rx where
  "ansi_escape = seqs
     [lit [esc, CHR ''[''], rx_star (One (in_range 48 63)), rx_star (One (in_range 32 47)), One (in_range 64 126)]"

definition prompt_mark :: "char \<Rightarrow> bool" where
  "prompt_mark c = (c \<in> set ''#>$%'')"

definition line_char :: "char \<Rightarrow> bool" where
  "line_char c = (c \<noteq> CHR 13 \<and> c \<noteq> nl)"

definition default_prompt_pattern :: rx where
  "default_prompt_pattern = seqs
     [LineStart, Grp 1 (Cat (Rep True 1 (Some 200) (One line_char)) (One prompt_mark)),
      rx_star (One is_space), LineEnd]"

definition normalize_stream_text :: "string \<Rightarrow> string" where
  "normalize_stream_text output = normalize_text (rx_sub ansi_escape (\<lambda>_. []) output)"

definition detect_prompt :: "string \<Rightarrow> string option" where
  "detect_prompt output =
     (let matches = rx_finditer default_prompt_pattern (normalize_stream_text output)
      in if matches = [] then None
         else (case last matches of
                 (_, (_, after, gs)) \<Rightarrow> if \<not> blank after then None else Some (strip (group_or_empty gs 1))))"

definition prompt_tail :: "char \<Rightarrow> bool" where
  "prompt_tail c = (c = CHR '' '' \<or> c = CHR 9)"

definition prompt_at_end :: "string \<Rightarrow> rx" where
  "prompt_at_end prompt = seqs [Alt TextStart (lit [nl]), lit prompt, rx_star (One prompt_tail), TextEnd]"

definition ends_with_prompt :: "string \<Rightarrow> string \<Rightarrow> bool" where
  "ends_with_prompt output prompt = rx_found (prompt_at_end prompt) (normalize_stream_text output)"

definition drop_blank_ends :: "string list \<Rightarrow> string list" where
  "drop_blank_ends lines = rev (dropWhile (\<lambda>l. blank l) (rev (dropWhile (\<lambda>l. blank l) lines)))"

definition strip_command_envelope :: "string \<Rightarrow> string \<Rightarrow> string \<Rightarrow> string" where
  "strip_command_envelope output command prompt =
     (let lines = drop_blank_ends (splitlines (normalize_stream_text output));
          lines1 = (if lines \<noteq> [] \<and> strip (last lines) = prompt then butlast lines else lines);
          lines2 = (case lines1 of
                      [] \<Rightarrow> []
                    | l # ls \<Rightarrow>
                        let first = strip l
                        in if first = command then ls
                           else if first = prompt @ command \<or> first = prompt @ '' '' @ command then ls
                           else lines1)
      in strip (join [nl] (map rstrip lines2)))"

section \<open>Lemmas\<close>

lemma match_Grp: "st' \<in> set (rx_match (Grp n r) st) \<longleftrightarrow> (\<exists>s1 \<in> set (rx_match r st). st' = record_group n st s1)"
  by auto

lemma match_prompt_at_end:
  "(p', q', gs') \<in> set (rx_match (prompt_at_end prompt) (p, q, gs)) \<longleftrightarrow>
   q' = [] \<and> gs' = gs \<and> p' = rev q @ p \<and>
   (\<exists>pre tail. q = pre @ prompt @ tail \<and> list_all prompt_tail tail \<and> (pre = [nl] \<or> (pre = [] \<and> p = [])))"
proof -
  have head: "st \<in> set (rx_match (Alt TextStart (lit [nl])) (p, q, gs)) \<longleftrightarrow>
      (\<exists>pre rest. q = pre @ rest \<and> st = (rev pre @ p, rest, gs) \<and> (pre = [nl] \<or> (pre = [] \<and> p = [])))" for st
    by (auto simp: match_lit keep_if_def starts_with_iff)
  have body: "st \<in> set (rx_match (lit prompt) (p1, q1, gs)) \<longleftrightarrow>
      (\<exists>rest. q1 = prompt @ rest \<and> st = (rev prompt @ p1, rest, gs))" for st p1 q1
    by (auto simp: match_lit starts_with_iff)
  have tail: "(p', q', gs') \<in> set (rx_match (Cat (rx_star (One prompt_tail)) TextEnd) (p1, q1, gs)) \<longleftrightarrow>
      q' = [] \<and> gs' = gs \<and> p' = rev q1 @ p1 \<and> list_all prompt_tail q1" for p1 q1
    unfolding match_Cat by (auto simp: match_Rep_One keep_if_def simp del: rx_match.simps(5) split: if_splits)
  show ?thesis
  proof
    assume "(p', q', gs') \<in> set (rx_match (prompt_at_end prompt) (p, q, gs))"
    then obtain s1 s2 where s1: "s1 \<in> set (rx_match (Alt TextStart (lit [nl])) (p, q, gs))"
      and s2: "s2 \<in> set (rx_match (lit prompt) s1)"
      and s3: "(p', q', gs') \<in> set (rx_match (Cat (rx_star (One prompt_tail)) TextEnd) s2)"
      unfolding prompt_at_end_def seqs.simps by (subst (asm) match_Cat, subst (asm) match_Cat) blast
    from s1 obtain pre rest where 1: "q = pre @ rest" "s1 = (rev pre @ p, rest, gs)" "pre = [nl] \<or> (pre = [] \<and> p = [])"
      unfolding head by blast
    from s2 obtain rest2 where 2: "rest = prompt @ rest2" "s2 = (rev prompt @ rev pre @ p, rest2, gs)"
      unfolding 1(2) body by blast
    from s3 1 2 show "q' = [] \<and> gs' = gs \<and> p' = rev q @ p \<and>
      (\<exists>pre tail. q = pre @ prompt @ tail \<and> list_all prompt_tail tail \<and> (pre = [nl] \<or> (pre = [] \<and> p = [])))"
      unfolding 2(2) tail by auto
  next
    assume "q' = [] \<and> gs' = gs \<and> p' = rev q @ p \<and>
      (\<exists>pre tail. q = pre @ prompt @ tail \<and> list_all prompt_tail tail \<and> (pre = [nl] \<or> (pre = [] \<and> p = [])))"
    then obtain pre t where q: "q = pre @ prompt @ t" "list_all prompt_tail t" "pre = [nl] \<or> (pre = [] \<and> p = [])"
      and r: "q' = []" "gs' = gs" "p' = rev q @ p" by blast
    have "(rev pre @ p, prompt @ t, gs) \<in> set (rx_match (Alt TextStart (lit [nl])) (p, q, gs))"
      unfolding head using q by blast
    moreover have "(rev prompt @ rev pre @ p, t, gs) \<in> set (rx_match (lit prompt) (rev pre @ p, prompt @ t, gs))"
      unfolding body by blast
    moreover have "(p', q', gs') \<in> set (rx_match (Cat (rx_star (One prompt_tail)) TextEnd) (rev prompt @ rev pre @ p, t, gs))"
      unfolding tail using q r by simp
    ultimately show "(p', q', gs') \<in> set (rx_match (prompt_at_end prompt) (p, q, gs))"
      unfolding prompt_at_end_def seqs.simps by (subst match_Cat, subst match_Cat) blast
  qed
qed

text \<open>The regular expression and a description without one.\<close>

lemma ends_with_prompt_iff:
  "ends_with_prompt output prompt \<longleftrightarrow>
   (\<exists>pre tail. normalize_stream_text output = pre @ prompt @ tail \<and> list_all prompt_tail tail \<and>
      (pre = [] \<or> last pre = nl))"
proof -
  let ?s = "normalize_stream_text output"
  have "ends_with_prompt output prompt \<longleftrightarrow>
      (\<exists>u v. ?s = u @ v \<and> (\<exists>pre tail. v = pre @ prompt @ tail \<and> list_all prompt_tail tail \<and>
         (pre = [nl] \<or> (pre = [] \<and> u = []))))"
    unfolding ends_with_prompt_def rx_found_mem_iff match_prompt_at_end by simp
  also have "\<dots> \<longleftrightarrow> (\<exists>pre tail. ?s = pre @ prompt @ tail \<and> list_all prompt_tail tail \<and> (pre = [] \<or> last pre = nl))"
  proof
    assume "\<exists>u v. ?s = u @ v \<and> (\<exists>pre tail. v = pre @ prompt @ tail \<and> list_all prompt_tail tail \<and>
         (pre = [nl] \<or> (pre = [] \<and> u = [])))"
    then obtain u pre tail where "?s = (u @ pre) @ prompt @ tail" "list_all prompt_tail tail"
      "pre = [nl] \<or> (pre = [] \<and> u = [])" by auto
    then show "\<exists>pre tail. ?s = pre @ prompt @ tail \<and> list_all prompt_tail tail \<and> (pre = [] \<or> last pre = nl)"
      by (intro exI [of _ "u @ pre"] exI [of _ tail]) auto
  next
    assume "\<exists>pre tail. ?s = pre @ prompt @ tail \<and> list_all prompt_tail tail \<and> (pre = [] \<or> last pre = nl)"
    then obtain pre tail where s: "?s = pre @ prompt @ tail" "list_all prompt_tail tail" "pre = [] \<or> last pre = nl"
      by blast
    show "\<exists>u v. ?s = u @ v \<and> (\<exists>pre tail. v = pre @ prompt @ tail \<and> list_all prompt_tail tail \<and>
         (pre = [nl] \<or> (pre = [] \<and> u = [])))"
    proof (cases "pre = []")
      case True
      with s show ?thesis by (intro exI [of _ "[]"] exI [of _ "prompt @ tail"]) auto
    next
      case False
      with s have "?s = butlast pre @ [nl] @ prompt @ tail" by (metis append.assoc append_butlast_last_id)
      with s(2) show ?thesis by blast
    qed
  qed
  finally show ?thesis .
qed

lemma finditer_from_mem:
  "((p0, q0), st) \<in> set (finditer_from r p q) \<Longrightarrow>
   rev p @ q = rev p0 @ q0 \<and> rx_at r (p0, q0) = Some st"
proof (induction "length q" arbitrary: p q rule: less_induct)
  case less
  have tail: ?case if "((p0, q0), st) \<in> set (case q of [] \<Rightarrow> [] | x # q2 \<Rightarrow> finditer_from r (x # p) q2)"
    using that less.hyps by (cases q) fastforce+
  show ?case
  proof (cases "rx_at r (p, q)")
    case None
    with less.prems have "((p0, q0), st) \<in> set (case q of [] \<Rightarrow> [] | x # q2 \<Rightarrow> finditer_from r (x # p) q2)"
      by (subst (asm) finditer_from.simps) simp
    then show ?thesis by (rule tail)
  next
    case (Some st1)
    obtain p1 q1 gs1 where st1: "st1 = (p1, q1, gs1)" by (cases st1)
    obtain w where w: "q = w @ q1" "p1 = rev w @ p" using Some st1 rx_at_consumes by blast
    show ?thesis
    proof (cases "length q1 < length q")
      case True
      with less.prems Some st1 have "((p0, q0), st) = ((p, q), st1) \<or> ((p0, q0), st) \<in> set (finditer_from r p1 q1)"
        by (subst (asm) finditer_from.simps) simp
      then show ?thesis
      proof
        assume "((p0, q0), st) \<in> set (finditer_from r p1 q1)"
        from less.hyps [OF True this] w show ?thesis by simp
      qed (use Some in simp)
    next
      case False
      with less.prems Some st1
      have "((p0, q0), st) \<in> set (case q of [] \<Rightarrow> [] | x # q2 \<Rightarrow> finditer_from r (x # p) q2)"
        by (subst (asm) finditer_from.simps) simp
      then show ?thesis by (rule tail)
    qed
  qed
qed

text \<open>What a detected prompt is: the last line of the normalised text, up to white space.\<close>

lemma detect_prompt_Some:
  assumes "detect_prompt output = Some prompt"
  shows "\<exists>pre body mark tail. normalize_stream_text output = pre @ body @ [mark] @ tail \<and>
    (pre = [] \<or> last pre = nl) \<and> blank tail \<and> list_all line_char body \<and> prompt_mark mark \<and>
    1 \<le> length body \<and> length body \<le> 200 \<and> prompt = strip (body @ [mark])"
proof -
  let ?s = "normalize_stream_text output"
  let ?ms = "rx_finditer default_prompt_pattern ?s"
  have ne: "?ms \<noteq> []" using assms by (auto simp: detect_prompt_def Let_def)
  obtain p q p' after gs where m: "last ?ms = ((p, q), (p', after, gs))" by (metis prod_cases3 surj_pair)
  have "last ?ms \<in> set ?ms" using ne by (rule last_in_set)
  then have found: "?s = rev p @ q" "rx_at default_prompt_pattern (p, q) = Some (p', after, gs)"
    using m finditer_from_mem [of p q "(p', after, gs)" default_prompt_pattern "[]" ?s]
    by (simp_all add: rx_finditer_def)
  have after: "blank after" and prompt: "prompt = strip (group_or_empty gs 1)"
    using assms ne m by (auto simp: detect_prompt_def Let_def split: if_splits)
  have "(p', after, gs) \<in> set (rx_match default_prompt_pattern (p, q, []))"
    using found(2) by (rule rx_at_mem)
  then obtain s1 s2 s3 where s1: "s1 \<in> set (rx_match LineStart (p, q, []))"
    and s2: "s2 \<in> set (rx_match (Grp 1 (Cat (Rep True 1 (Some 200) (One line_char)) (One prompt_mark))) s1)"
    and s3: "s3 \<in> set (rx_match (rx_star (One is_space)) s2)"
    and s4: "(p', after, gs) \<in> set (rx_match LineEnd s3)"
    unfolding default_prompt_pattern_def seqs.simps match_Cat by blast
  have start: "at_line_start (p, q)" "s1 = (p, q, [])" using s1 by (simp_all add: keep_if_def split: if_splits)
  from s2 obtain p1 q1 g1
    where grp: "(p1, q1, g1) \<in> set (rx_match (Cat (Rep True 1 (Some 200) (One line_char)) (One prompt_mark)) (p, q, []))"
      and s2': "s2 = (p1, q1, (1, rev (take (length p1 - length p) p1)) # g1)"
  proof -
    from s2 obtain s0 where "s0 \<in> set (rx_match (Cat (Rep True 1 (Some 200) (One line_char)) (One prompt_mark)) (p, q, []))"
      "s2 = record_group 1 (p, q, []) s0"
      unfolding start(2) match_Grp by blast
    moreover obtain a b c where "s0 = (a, b, c)" by (metis prod_cases3)
    ultimately show thesis using that [of a b c] by (simp only: record_group.simps)
  qed
  have s3': "s3 = (p', after, gs)" using s4 by (simp add: keep_if_def split: if_splits)
  have rec: "gs = (1, rev (take (length p1 - length p) p1)) # g1" and star: "\<exists>w. q1 = w @ after \<and> list_all is_space w"
    using s3 unfolding s2' s3' match_Rep_One by auto
  from grp obtain body mark where b: "q = body @ mark # q1" "p1 = mark # rev body @ p" "list_all line_char body"
    "prompt_mark mark" "1 \<le> length body" "length body \<le> 200"
  proof -
    from grp obtain s0 where s0: "s0 \<in> set (rx_match (Rep True 1 (Some 200) (One line_char)) (p, q, []))"
      "(p1, q1, g1) \<in> set (rx_match (One prompt_mark) s0)"
      unfolding match_Cat by blast
    obtain a b c where abc: "s0 = (a, b, c)" by (metis prod_cases3)
    from s0(1) obtain w where w: "q = w @ b" "a = rev w @ p" "list_all line_char w" "1 \<le> length w" "length w \<le> 200"
      unfolding abc match_Rep_One by auto
    from s0(2) obtain m where "b = m # q1" "prompt_mark m" "p1 = m # a"
      unfolding abc by (cases b) (auto split: if_splits)
    with w show thesis by (intro that [of w m]) simp_all
  qed
  have "prompt = strip (body @ [mark])"
    using prompt rec b(2) by (simp add: group_or_empty_def)
  moreover have "rev p = [] \<or> last (rev p) = nl"
    using start(1) by (auto simp: at_line_start_def split: list.splits)
  moreover have "blank q1" using star after by (auto simp: blank_iff list_all_iff)
  ultimately show ?thesis
    using found(1) b by (intro exI [of _ "rev p"] exI [of _ body] exI [of _ mark] exI [of _ q1]) simp
qed

lemma prompt_mark_not_space: "prompt_mark c \<Longrightarrow> \<not> is_space c"
proof -
  have "list_all (\<lambda>c. \<not> is_space c) ''#>$%''" by code_simp
  then show "prompt_mark c \<Longrightarrow> \<not> is_space c" by (auto simp: prompt_mark_def)
qed

section \<open>Properties\<close>

text \<open>The readiness test is the plain one: text ends with a prompt exactly when, after normalisation, its last
  line is the prompt followed by nothing but blanks and tabs.\<close>

theorem ends_with_prompt_spec:
  "ends_with_prompt output prompt \<longleftrightarrow>
   (\<exists>pre tail. normalize_stream_text output = pre @ prompt @ tail \<and> list_all prompt_tail tail \<and>
      (pre = [] \<or> last pre = nl))"
  by (rule ends_with_prompt_iff)

text \<open>A detected prompt is one: it is the last non-blank line of the normalised text, on a line of its own,
  ends with one of \<open># > $ %\<close>, has at most 201 characters and no surrounding white space.\<close>

theorem detect_prompt_sound:
  assumes "detect_prompt output = Some prompt"
  shows "\<exists>pre body mark tail. normalize_stream_text output = pre @ body @ [mark] @ tail \<and>
    (pre = [] \<or> last pre = nl) \<and> blank tail \<and> list_all line_char body \<and> prompt_mark mark \<and>
    prompt = strip (body @ [mark]) \<and> last prompt = mark \<and> length prompt \<le> 201 \<and> trimmed prompt"
proof -
  obtain pre body mark tail where p: "normalize_stream_text output = pre @ body @ [mark] @ tail"
    "pre = [] \<or> last pre = nl" "blank tail" "list_all line_char body" "prompt_mark mark"
    "length body \<le> 200" "prompt = strip (body @ [mark])"
    using detect_prompt_Some [OF assms] by blast
  have nsp: "\<not> is_space mark" using p(5) by (rule prompt_mark_not_space)
  then have "rstrip (w @ [mark]) = w @ [mark]" for w by (simp add: rstrip_def rstrip_of_def)
  moreover have "lstrip (body @ [mark]) = dropWhile is_space body @ [mark]"
    using nsp by (simp add: lstrip_def dropWhile_append)
  ultimately have "prompt = dropWhile is_space body @ [mark]" using p(7) by (simp add: strip_def)
  moreover have "length (dropWhile is_space body) \<le> length body" by (rule length_dropWhile_le)
  ultimately have "last prompt = mark \<and> length prompt \<le> 201" using p(6) by simp
  with p show ?thesis using trimmed_strip by blast
qed

lemma detect_prompt_sound_witness:
  "\<exists>pre body mark tail. normalize_stream_text (''Welcome'' @ [nl] @ '' OLT# '') = pre @ body @ [mark] @ tail \<and>
    (pre = [] \<or> last pre = nl) \<and> blank tail \<and> list_all line_char body \<and> prompt_mark mark \<and>
    ''OLT#'' = strip (body @ [mark]) \<and> last ''OLT#'' = mark \<and> length ''OLT#'' \<le> 201 \<and> trimmed ''OLT#''"
  by (rule detect_prompt_sound) code_simp

end
