(* ===== verification/LineSession.thy ===== *)
theory LineSession
  imports Readiness Effects PyValue PyBytes
begin

text \<open>
  The interactive session that the Telnet, serial and SSH transports share line for line: reading until a
  prompt, answering pagers, logging in, running one command. Each transport instantiates it with its
  \<open>reader\<close>.

  The other end of a connection is a script: what each poll of the connection will find, with the time that
  passes until then. A script is finite; once it is exhausted nothing arrives any more and the deadline
  passes. Every run that ends is the run of such a script, so the script is the measure of the reading loop.
\<close>

section \<open>Connections\<close>

datatype arrival = Chunk string | Nothing | Lost | Failing exn

record session =
  lk_open :: bool                             \<comment> \<open>\<open>self.connection is not None\<close>\<close>
  lk_up :: bool                               \<comment> \<open>the connection was not found closed by a poll\<close>
  lk_prompt :: "string option"                \<comment> \<open>\<open>self.prompt\<close>\<close>
  lk_buffer :: string                         \<comment> \<open>bytes of an unfinished Telnet command\<close>
  lk_time :: rat                              \<comment> \<open>\<open>time.monotonic()\<close>\<close>
  lk_script :: "(rat \<times> arrival) list"         \<comment> \<open>the polls to come\<close>
  lk_sent :: "string list"                    \<comment> \<open>what was written, oldest first\<close>
  lk_faults :: "exn option list"              \<comment> \<open>outcomes of the writes to come; then success\<close>
  lk_connects :: "(rat \<times> exn option) list"   \<comment> \<open>connection steps to come: time and outcome; then success\<close>

definition write_raw :: "string \<Rightarrow> (session, unit) act" where
  "write_raw data s =
     (case lk_faults s of
        Some e # fs \<Rightarrow> (Inl e, s\<lparr>lk_faults := fs\<rparr>)
      | fs \<Rightarrow> (Inr (), s\<lparr>lk_faults := drop 1 fs, lk_sent := lk_sent s @ [data]\<rparr>))"

definition connect_step :: "(session, unit) act" where
  "connect_step s =
     (case lk_connects s of
        [] \<Rightarrow> (Inr (), s)
      | (dt, outcome) # cs \<Rightarrow>
          (case outcome of None \<Rightarrow> Inr () | Some e \<Rightarrow> Inl e,
           s\<lparr>lk_connects := cs, lk_time := lk_time s + max 0 dt\<rparr>))"

definition open_connection :: "(session, unit) act" where
  "open_connection = bnd connect_step (\<lambda>_. modify (\<lambda>s. s\<lparr>lk_open := True, lk_up := True\<rparr>))"

definition sleep :: "rat \<Rightarrow> (session, unit) act" where
  "sleep seconds = modify (\<lambda>s. s\<lparr>lk_time := lk_time s + seconds\<rparr>)"

section \<open>Reading\<close>

text \<open>
  What differs between the transports: how a raw chunk becomes visible text and automatic responses (given
  the protocol buffer), how the joined chunks become text, whether an empty chunk means the end, whether a
  receive timeout is nothing, the line terminator, the timeout with its text, and the messages.
\<close>

record reader =
  rd_feed :: "string \<Rightarrow> string \<Rightarrow> string \<times> string \<times> string"
  rd_view :: "string \<Rightarrow> string"
  rd_empty_ends :: bool
  rd_timeout_nothing :: bool
  rd_newline :: string
  rd_timeout :: rat
  rd_timeout_text :: string
  rd_unavailable :: string
  rd_no_prompt :: string
  rd_closed :: string

type_synonym stop_patterns = "(string \<times> rx) list"
type_synonym readiness = "string \<times> string \<times> string option"

definition yes_no_confirm_prompt :: rx where
  "yes_no_confirm_prompt =
     Alt (seqs [rx_opt (Cat (lit_i ''please'') (rx_plus (One is_space))), lit_i ''confirm'', rx_star (One is_space),
            lit_i ''[y/n]''])
         (seqs [lit_i ''confirm'', rx_star (One is_space), lit_i ''(y/n)''])"

definition pager_prompt :: rx where
  "pager_prompt =
     (let sp = rx_star (One is_space)
      in seqs [lit ''--'', sp, lit_i ''more'', sp, lit ''--'', rx_lazy (One (\<lambda>c. c \<noteq> nl)),
           alts [seqs [lit_i ''next'', rx_plus (One is_space), lit_i ''page''],
                 seqs [lit_i ''continue'', sp, lit '':'', sp, lit_i ''c''],
                 seqs [lit_i ''quit'', sp, lit '':'', sp, lit_i ''esc'']]])"

definition max_pager_continuations :: nat where "max_pager_continuations = 5"

definition pager_count :: "string \<Rightarrow> nat" where
  "pager_count output = length (rx_finditer pager_prompt output)"

fun is_timeout :: "exn \<Rightarrow> bool" where
  "is_timeout (TimeoutError _) = True"
| "is_timeout _ = False"

definition feed_chunk :: "reader \<Rightarrow> string \<Rightarrow> (session, string) act" where
  "feed_chunk r raw s =
     (case rd_feed r (lk_buffer s) raw of
        (visible, responses, buffer) \<Rightarrow>
          bnd (if responses = [] then ret () else write_raw responses) (\<lambda>_. ret visible)
            (s\<lparr>lk_buffer := buffer\<rparr>))"

definition arrive :: "reader \<Rightarrow> arrival \<Rightarrow> (session, string) act" where
  "arrive r a =
     (case a of
        Chunk raw \<Rightarrow> if raw = [] \<and> rd_empty_ends r then throw (ConnectionError (rd_closed r)) else feed_chunk r raw
      | Nothing \<Rightarrow> ret []
      | Lost \<Rightarrow> bnd (modify (\<lambda>s. s\<lparr>lk_up := False\<rparr>)) (\<lambda>_. throw (ConnectionError (rd_closed r)))
      | Failing e \<Rightarrow> if rd_timeout_nothing r \<and> is_timeout e then ret [] else throw e)"

text \<open>\<open>while handled_pagers < pager_count\<close>, by the number of pagers still to handle.\<close>

fun answer_pagers :: "nat \<Rightarrow> nat \<Rightarrow> (session, string \<times> nat) act" where
  "answer_pagers handled 0 = ret ([], handled)"
| "answer_pagers handled (Suc n) =
     (if max_pager_continuations \<le> handled
      then throw (RuntimeError ''CLI pager did not finish after sending continue'')
      else bnd (write_raw ''c'') (\<lambda>_.
           bnd (answer_pagers (Suc handled) n) (\<lambda>(newlines, handled'). ret (nl # newlines, handled'))))"

definition decide :: "string option \<Rightarrow> stop_patterns \<Rightarrow> string \<Rightarrow> readiness option" where
  "decide prompt stops output =
     (let stop = (case find (\<lambda>(name, pattern). rx_found pattern output) stops of
                    None \<Rightarrow> None | Some (name, pattern) \<Rightarrow> Some (output, name, prompt))
      in case prompt of
           Some p \<Rightarrow> if ends_with_prompt output p then Some (output, ''prompt'', prompt) else stop
         | None \<Rightarrow> (case detect_prompt output of
                      Some d \<Rightarrow> Some (output, ''prompt'', Some d)
                    | None \<Rightarrow> stop))"

definition timed_out :: "reader \<Rightarrow> string option \<Rightarrow> exn" where
  "timed_out r prompt = TimeoutError (''timed out after '' @ rd_timeout_text r @ ''s waiting for '' @
     (case prompt of None \<Rightarrow> ''CLI prompt'' | Some p \<Rightarrow> ''CLI prompt '' @ py_repr p))"

lemma write_raw_script [simp]: "lk_script (snd (write_raw d s)) = lk_script s"
  by (auto simp: write_raw_def split: list.split option.split)

lemma arrive_script: "arrive r a s = (res, s') \<Longrightarrow> lk_script s' = lk_script s"
  by (auto simp: arrive_def feed_chunk_def bnd_def ret_def throw_def write_raw_def modify_def
      split: arrival.splits if_splits prod.splits sum.splits list.splits option.splits)

lemma answer_pagers_script: "answer_pagers h n s = (res, s') \<Longrightarrow> lk_script s' = lk_script s"
proof (induction h n arbitrary: s res s' rule: answer_pagers.induct)
  case (2 h n)
  show ?case
  proof (cases "max_pager_continuations \<le> h")
    case False
    obtain r1 s1 where w: "write_raw ''c'' s = (r1, s1)" by (cases "write_raw ''c'' s")
    then have s1: "lk_script s1 = lk_script s" by (metis write_raw_script snd_conv)
    obtain r2 s2 where p: "answer_pagers (Suc h) n s1 = (r2, s2)" by (cases "answer_pagers (Suc h) n s1")
    show ?thesis
      using "2.prems" False w s1 p "2.IH" [OF False p]
      by (cases r1; cases r2) (auto simp: bnd_def ret_def split: prod.splits)
  qed (use "2.prems" in \<open>simp add: throw_def\<close>)
qed (simp add: ret_def)

function read_loop ::
  "reader \<Rightarrow> string option \<Rightarrow> stop_patterns \<Rightarrow> rat \<Rightarrow> string \<Rightarrow> nat \<Rightarrow> session \<Rightarrow> readiness result \<times> session" where
  "read_loop r prompt stops deadline acc handled s =
     (if deadline \<le> lk_time s then (Inl (timed_out r prompt), s)
      else case lk_script s of
             [] \<Rightarrow> (Inl (timed_out r prompt), s\<lparr>lk_time := deadline\<rparr>)
           | (dt, a) # rest \<Rightarrow>
               (case arrive r a (s\<lparr>lk_script := rest, lk_time := lk_time s + max 0 dt\<rparr>) of
                  (Inl e, s1) \<Rightarrow> (Inl e, s1)
                | (Inr visible, s1) \<Rightarrow>
                    let output = normalize_stream_text (rd_view r (acc @ visible))
                    in (case answer_pagers handled (pager_count output - handled) s1 of
                          (Inl e, s2) \<Rightarrow> (Inl e, s2)
                        | (Inr (newlines, handled'), s2) \<Rightarrow>
                            (case decide prompt stops output of
                               Some res \<Rightarrow> (Inr res, s2)
                             | None \<Rightarrow> read_loop r prompt stops deadline (acc @ visible @ newlines) handled' s2))))"
  by pat_completeness auto
termination
  by (relation "measure (\<lambda>(r, prompt, stops, deadline, acc, handled, s). length (lk_script s))")
    (auto dest!: arrive_script [OF sym] answer_pagers_script [OF sym])

declare read_loop.simps [simp del]

definition read_until_ready :: "reader \<Rightarrow> string option \<Rightarrow> stop_patterns \<Rightarrow> (session, readiness) act" where
  "read_until_ready r prompt stops s =
     (if \<not> lk_open s then (Inl (RuntimeError (rd_unavailable r)), s)
      else read_loop r prompt stops (lk_time s + rd_timeout r) [] 0 s)"

subsection \<open>Reading what is available\<close>

definition normalize_cli_output :: "string \<Rightarrow> string" where
  "normalize_cli_output output =
     join [nl] (filter (\<lambda>l. l \<noteq> []) (map strip (splitlines
       (replace_char (CHR 13) [nl] (rx_sub ansi_escape (\<lambda>_. []) output)))))"

definition logout_confirm_prompt :: rx where
  "logout_confirm_prompt = seqs
     [lit_i ''logout'', rx_plus (One is_space), lit_i ''system'', rx_plus (One is_space), lit_i ''now'',
      rx_star (One is_space), lit_i ''(y/n)?'']"

text \<open>The loop of \<open>_read_available\<close>: until the deadline or an idle time. A poll that finds nothing, or
  the connection closed, is an idle one.\<close>

function available_loop :: "reader \<Rightarrow> rat \<Rightarrow> rat \<Rightarrow> rat \<Rightarrow> string \<Rightarrow> session \<Rightarrow> string result \<times> session" where
  "available_loop r idle_wait deadline idle_deadline acc s =
     (if deadline \<le> lk_time s \<or> idle_deadline \<le> lk_time s then (Inr acc, s)
      else case lk_script s of
             [] \<Rightarrow> (Inr acc, s\<lparr>lk_time := min deadline idle_deadline\<rparr>)
           | (dt, a) # rest \<Rightarrow>
               (let s1 = s\<lparr>lk_script := rest, lk_time := lk_time s + max 0 dt\<rparr>
                in case a of
                     Chunk raw \<Rightarrow>
                       available_loop r idle_wait deadline (lk_time s1 + idle_wait)
                         (acc @ fst (rd_feed r [] raw)) s1
                   | Failing e \<Rightarrow> (Inl e, s1)
                   | _ \<Rightarrow> available_loop r idle_wait deadline idle_deadline acc s1))"
  by pat_completeness auto
termination
  by (relation "measure (\<lambda>(r, iw, d, id, acc, s). length (lk_script s))") (auto simp: Let_def)

declare available_loop.simps [simp del]

definition read_available :: "reader \<Rightarrow> rat \<Rightarrow> rat \<Rightarrow> rat \<Rightarrow> (session, string) act" where
  "read_available r first_wait idle_wait max_wait =
     bnd (gets lk_open) (\<lambda>is_open.
     bnd (guard_not (\<not> is_open) (RuntimeError (rd_unavailable r))) (\<lambda>_.
     bnd (sleep first_wait) (\<lambda>_.
     bnd (\<lambda>s. available_loop r idle_wait (lk_time s + max_wait) (lk_time s + idle_wait) [] s) (\<lambda>acc.
     ret (normalize_cli_output (rd_view r acc))))))"

section \<open>Login and commands\<close>

definition write_line :: "reader \<Rightarrow> string \<Rightarrow> (session, unit) act" where
  "write_line r value =
     bnd (gets lk_open) (\<lambda>is_open.
     bnd (guard_not (\<not> is_open) (RuntimeError (rd_unavailable r))) (\<lambda>_.
     write_raw (utf8_encode (value @ rd_newline r))))"

definition login :: "reader \<Rightarrow> rx \<Rightarrow> rx \<Rightarrow> string \<Rightarrow> string \<Rightarrow> string \<Rightarrow> (session, unit) act" where
  "login r login_prompt password_prompt username password failure =
     bnd (read_until_ready r None [(''login'', login_prompt), (''password'', password_prompt)]) (\<lambda>(_, ready, prompt).
     bnd (if ready = ''login''
          then bnd (write_line r username) (\<lambda>_.
               bnd (read_until_ready r None [(''password'', password_prompt)]) (\<lambda>(_, ready, prompt). ret (ready, prompt)))
          else ret (ready, prompt)) (\<lambda>(ready, prompt).
     bnd (if ready = ''password''
          then bnd (write_line r password) (\<lambda>_.
               bnd (read_until_ready r None []) (\<lambda>(_, ready, prompt). ret (ready, prompt)))
          else ret (ready, prompt)) (\<lambda>(ready, prompt).
     bnd (guard_not (ready \<noteq> ''prompt'' \<or> prompt = None) (RuntimeError failure)) (\<lambda>_.
     modify (\<lambda>s. s\<lparr>lk_prompt := prompt\<rparr>)))))"

definition exchange_command :: "reader \<Rightarrow> string \<Rightarrow> (session, string \<times> bool) act" where
  "exchange_command r command =
     bnd (gets lk_open) (\<lambda>is_open.
     bnd (guard_not (\<not> is_open) (RuntimeError (rd_unavailable r))) (\<lambda>_.
     bnd (gets lk_prompt) (\<lambda>prompt_opt.
     case prompt_opt of
       None \<Rightarrow> throw (RuntimeError (rd_no_prompt r))
     | Some prompt \<Rightarrow>
         bnd (write_line r command) (\<lambda>_.
         bnd (read_until_ready r (Some prompt) [(''confirmation'', yes_no_confirm_prompt)]) (\<lambda>(output, ready, _).
         bnd (if ready = ''confirmation''
              then bnd (write_line r ''y'') (\<lambda>_.
                   bnd (read_until_ready r (Some prompt) []) (\<lambda>(confirmed, _, _). ret (join [nl] [output, confirmed])))
              else ret output) (\<lambda>output.
         ret (strip_command_envelope output command prompt, ready = ''confirmation'')))))))"

definition run_line_command :: "reader \<Rightarrow> string \<Rightarrow> (session, cli_command_output) act" where
  "run_line_command r command =
     bnd (exchange_command r command) (\<lambda>(output, _). ret \<lparr>out_command = command, out_output = output\<rparr>)"

section \<open>Invariants of a session\<close>

text \<open>The automatic responses of a reader stay within \<open>L\<close>.\<close>

definition responses_in :: "reader \<Rightarrow> string set \<Rightarrow> bool" where
  "responses_in r L = (\<forall>buffer raw visible responses rest.
     rd_feed r buffer raw = (visible, responses, rest) \<longrightarrow> responses = [] \<or> responses \<in> L)"

lemma keeps_modify: "(\<And>s. I s \<Longrightarrow> I (f s)) \<Longrightarrow> keeps I (modify f)"
  by (simp add: keeps_def modify_def)

lemma keeps_connect_step:
  assumes "\<And>s t. I s \<Longrightarrow> I (s\<lparr>lk_time := t\<rparr>)" and "\<And>s cs. I s \<Longrightarrow> I (s\<lparr>lk_connects := cs\<rparr>)"
  shows "keeps I connect_step"
  using assms by (auto simp: keeps_def connect_step_def split: list.split option.split)

text \<open>
  The contract between a connection and the session code: a predicate \<open>I\<close> that survives the bookkeeping of
  a session and every write of a text of \<open>L\<close>, for a reader whose own writes are in \<open>L\<close>. Under it, all
  the session code keeps \<open>I\<close>.
\<close>

locale session_invariant =
  fixes I :: "session \<Rightarrow> bool" and r :: reader and L :: "string set"
  assumes bookkeeping: "I s \<Longrightarrow> I (s\<lparr>lk_time := t\<rparr>)" "I s \<Longrightarrow> I (s\<lparr>lk_script := sc\<rparr>)"
      "I s \<Longrightarrow> I (s\<lparr>lk_buffer := b\<rparr>)" "I s \<Longrightarrow> I (s\<lparr>lk_prompt := p\<rparr>)"
      "I s \<Longrightarrow> I (s\<lparr>lk_up := u\<rparr>)" "I s \<Longrightarrow> I (s\<lparr>lk_connects := cs\<rparr>)"
    and writes: "d \<in> L \<Longrightarrow> keeps I (write_raw d)"
    and responses: "responses_in r L"
    and continue: "''c'' \<in> L"
begin

lemma keeps_feed_chunk: "keeps I (feed_chunk r raw)"
  unfolding keeps_def
proof (intro allI impI)
  fix s
  assume s: "I s"
  obtain visible resp rest where f: "rd_feed r (lk_buffer s) raw = (visible, resp, rest)"
    by (metis prod_cases3)
  then have "resp = [] \<or> resp \<in> L" using responses by (simp add: responses_in_def) blast
  then have "keeps I (bnd (if resp = [] then ret () else write_raw resp) (\<lambda>_. ret visible))"
    by (cases "resp = []") (auto intro!: keeps_intros writes)
  with bookkeeping(3) [OF s] f show "I (snd (feed_chunk r raw s))"
    by (simp add: keeps_def feed_chunk_def)
qed

lemma keeps_arrive: "keeps I (arrive r a)"
  by (cases a) (auto simp: arrive_def intro!: keeps_intros keeps_feed_chunk keeps_modify bookkeeping)

lemma keeps_answer_pagers: "keeps I (answer_pagers h n)"
  by (induction h n rule: answer_pagers.induct) (auto intro!: keeps_intros writes continue)

lemma read_loop_keeps: "I s \<Longrightarrow> I (snd (read_loop r prompt stops deadline acc handled s))"
proof (induction "length (lk_script s)" arbitrary: acc handled s rule: less_induct)
  case less
  note loop = read_loop.simps [of r prompt stops deadline acc handled s]
  show ?case
  proof (cases "deadline \<le> lk_time s \<or> lk_script s = []")
    case True
    then show ?thesis using less.prems by (auto simp: loop intro: bookkeeping)
  next
    case False
    then obtain dt a rest where sc: "lk_script s = (dt, a) # rest" by (metis neq_Nil_conv surj_pair)
    let ?s0 = "s\<lparr>lk_script := rest, lk_time := lk_time s + max 0 dt\<rparr>"
    obtain res1 s1 where ar: "arrive r a ?s0 = (res1, s1)" by (cases "arrive r a ?s0")
    have "I ?s0" using less.prems by (intro bookkeeping)
    then have I1: "I s1" using keepsD [OF keeps_arrive ar] by simp
    show ?thesis
    proof (cases res1)
      case (Inl e)
      then show ?thesis using False I1 sc ar by (simp add: loop)
    next
      case (Inr visible)
      let ?out = "normalize_stream_text (rd_view r (acc @ visible))"
      obtain res2 s2 where pg: "answer_pagers handled (pager_count ?out - handled) s1 = (res2, s2)"
        by (cases "answer_pagers handled (pager_count ?out - handled) s1")
      have I2: "I s2" using keepsD [OF keeps_answer_pagers pg I1] .
      show ?thesis
      proof (cases res2)
        case (Inl e)
        then show ?thesis using False I2 sc ar Inr pg by (simp add: loop)
      next
        case r2: (Inr p)
        have "length (lk_script s2) < length (lk_script s)"
          using arrive_script [OF ar] answer_pagers_script [OF pg] sc by simp
        from less.hyps [OF this I2] show ?thesis
          using False I2 sc ar Inr pg r2 by (cases p) (simp add: loop split: option.split)
      qed
    qed
  qed
qed

lemma keeps_read: "keeps I (read_until_ready r prompt stops)"
  using read_loop_keeps by (simp add: keeps_def read_until_ready_def)

lemma available_loop_keeps: "I s \<Longrightarrow> I (snd (available_loop r iw d idle acc s))"
proof (induction "length (lk_script s)" arbitrary: idle acc s rule: less_induct)
  case less
  note loop = available_loop.simps [of r iw d idle acc s]
  show ?case
  proof (cases "lk_script s")
    case Nil
    then show ?thesis using less.prems by (auto simp: loop intro: bookkeeping)
  next
    case (Cons p rest)
    then obtain dt a where p: "lk_script s = (dt, a) # rest" by (cases p) simp
    have "I (s\<lparr>lk_script := rest, lk_time := lk_time s + max 0 dt\<rparr>)"
      using less.prems by (intro bookkeeping)
    with p less.prems less.hyps [of "s\<lparr>lk_script := rest, lk_time := lk_time s + max 0 dt\<rparr>"] show ?thesis
      by (cases a) (simp_all add: loop Let_def)
  qed
qed

lemma keeps_sleep: "keeps I (sleep t)"
  unfolding sleep_def by (intro keeps_modify bookkeeping)

lemma keeps_read_available: "keeps I (read_available r first_wait idle_wait max_wait)"
  unfolding read_available_def
  by (intro keeps_intros keeps_sleep) (simp add: keeps_def available_loop_keeps)

lemma keeps_write_line: "utf8_encode (value @ rd_newline r) \<in> L \<Longrightarrow> keeps I (write_line r value)"
  unfolding write_line_def by (intro keeps_intros writes)

lemma keeps_login:
  assumes "utf8_encode (username @ rd_newline r) \<in> L" and "utf8_encode (password @ rd_newline r) \<in> L"
  shows "keeps I (login r lp pp username password failure)"
  unfolding login_def
  by (intro keeps_intros keeps_read keeps_write_line assms keeps_modify) (rule bookkeeping)

lemma keeps_exchange_command:
  assumes "utf8_encode (command @ rd_newline r) \<in> L" and "utf8_encode (''y'' @ rd_newline r) \<in> L"
  shows "keeps I (exchange_command r command)"
  unfolding exchange_command_def
  by (intro keeps_intros keeps_read keeps_write_line assms)

lemma keeps_run_line_command:
  assumes "utf8_encode (command @ rd_newline r) \<in> L" and "utf8_encode (''y'' @ rd_newline r) \<in> L"
  shows "keeps I (run_line_command r command)"
  unfolding run_line_command_def by (intro keeps_intros keeps_exchange_command assms)

end

text \<open>What a session has written, and whether it is connected.\<close>

definition wrote_only :: "string set \<Rightarrow> session \<Rightarrow> bool" where
  "wrote_only L s = (set (lk_sent s) \<subseteq> L)"

lemma wrote_only_update [simp]:
  "wrote_only L (s\<lparr>lk_open := b\<rparr>) = wrote_only L s"
  "wrote_only L (s\<lparr>lk_up := u\<rparr>) = wrote_only L s"
  "wrote_only L (s\<lparr>lk_prompt := p\<rparr>) = wrote_only L s"
  "wrote_only L (s\<lparr>lk_buffer := w\<rparr>) = wrote_only L s"
  "wrote_only L (s\<lparr>lk_time := t\<rparr>) = wrote_only L s"
  "wrote_only L (s\<lparr>lk_script := sc\<rparr>) = wrote_only L s"
  "wrote_only L (s\<lparr>lk_faults := fs\<rparr>) = wrote_only L s"
  "wrote_only L (s\<lparr>lk_connects := cs\<rparr>) = wrote_only L s"
  by (simp_all add: wrote_only_def)

lemma keeps_write_raw: "d \<in> L \<Longrightarrow> keeps (wrote_only L) (write_raw d)"
  by (auto simp: keeps_def write_raw_def wrote_only_def split: list.split option.split)

lemma keeps_open_connection: "keeps (wrote_only L) open_connection"
  unfolding open_connection_def by (intro keeps_intros keeps_connect_step keeps_modify) simp_all

lemma session_invariant_writes:
  "responses_in r L \<Longrightarrow> ''c'' \<in> L \<Longrightarrow> session_invariant (wrote_only L) r L"
  by unfold_locales (simp_all add: keeps_write_raw)

lemma run_line_command_label: "run_line_command r command s = (Inr out, s') \<Longrightarrow> out_command out = command"
  by (auto simp: run_line_command_def bnd_eq_Inr ret_def)

end
