(* ===== verification/Telnet.thy ===== *)
theory Telnet
  imports LineSession
begin

text \<open>
  The Telnet transport, \<open>cli_tool/transport/telnet.py\<close>: the protocol decoder, and the session as an
  instance of the shared engine. A byte is a character; decoding bytes to text is a parameter.
\<close>

section \<open>consume\_telnet\_bytes\<close>

definition iac :: char where "iac = CHR 0xFF"
definition dont_cmd :: char where "dont_cmd = CHR 0xFE"
definition do_cmd :: char where "do_cmd = CHR 0xFD"
definition wont_cmd :: char where "wont_cmd = CHR 0xFC"
definition will_cmd :: char where "will_cmd = CHR 0xFB"
definition sb_cmd :: char where "sb_cmd = CHR 0xFA"
definition se_cmd :: char where "se_cmd = CHR 0xF0"

lemmas telnet_codes = iac_def dont_cmd_def do_cmd_def wont_cmd_def will_cmd_def sb_cmd_def se_cmd_def

text \<open>\<open>_find_subnegotiation_end\<close>: the data after the first IAC SE.\<close>

fun after_subnegotiation :: "string \<Rightarrow> string option" where
  "after_subnegotiation (x # y # rest) =
     (if x = iac \<and> y = se_cmd then Some rest else after_subnegotiation (y # rest))"
| "after_subnegotiation data = None"

lemma after_subnegotiation_shorter: "after_subnegotiation data = Some rest \<Longrightarrow> length rest < length data"
  by (induction data rule: after_subnegotiation.induct) (auto split: if_splits)

definition is_option_command :: "char \<Rightarrow> bool" where
  "is_option_command c = (c \<in> {do_cmd, dont_cmd, will_cmd, wont_cmd})"

definition option_response :: "char \<Rightarrow> char \<Rightarrow> string" where
  "option_response command opt =
     (if command = do_cmd then [iac, wont_cmd, opt]
      else if command = will_cmd then [iac, dont_cmd, opt] else [])"

fun visible_first :: "string \<Rightarrow> string \<times> string \<times> string \<Rightarrow> string \<times> string \<times> string" where
  "visible_first w (visible, responses, rest) = (w @ visible, responses, rest)"

fun respond_first :: "string \<Rightarrow> string \<times> string \<times> string \<Rightarrow> string \<times> string \<times> string" where
  "respond_first w (visible, responses, rest) = (visible, w @ responses, rest)"

function consume_telnet_bytes :: "string \<Rightarrow> string \<times> string \<times> string" where
  "consume_telnet_bytes data =
     (case data of
        [] \<Rightarrow> ([], [], [])
      | c # t1 \<Rightarrow>
          if c \<noteq> iac then visible_first [c] (consume_telnet_bytes t1)
          else (case t1 of
                  [] \<Rightarrow> ([], [], data)
                | command # t2 \<Rightarrow>
                    if command = iac then visible_first [iac] (consume_telnet_bytes t2)
                    else if is_option_command command then
                      (case t2 of
                         [] \<Rightarrow> ([], [], data)
                       | opt # t3 \<Rightarrow> respond_first (option_response command opt) (consume_telnet_bytes t3))
                    else if command = sb_cmd then
                      (case after_subnegotiation t2 of
                         None \<Rightarrow> ([], [], data)
                       | Some t3 \<Rightarrow> consume_telnet_bytes t3)
                    else consume_telnet_bytes t2))"
  by pat_completeness auto
termination
  by (relation "measure length") (auto dest: after_subnegotiation_shorter)

declare consume_telnet_bytes.simps [simp del]

section \<open>Transport and session\<close>

definition login_prompt :: rx where
  "login_prompt = seqs
     [alts [lit_i ''login'', lit_i ''username'', seqs [lit_i ''user'', rx_plus (One is_space), lit_i ''name'']],
      rx_star (One is_space), One (\<lambda>c. c \<in> set '':>'')]"

definition password_prompt :: rx where
  "password_prompt = seqs [lit_i ''password'', rx_star (One is_space), One (\<lambda>c. c \<in> set '':>'')]"

record telnet_config =
  tn_host :: string
  tn_username :: string
  tn_password :: string
  tn_port :: int
  tn_timeout :: rat
  tn_timeout_text :: string
  tn_allow_insecure :: bool

definition telnet_check :: "telnet_config \<Rightarrow> unit result" where
  "telnet_check cfg =
     (if tn_host cfg = [] then Inl (ValueError ''host is required'')
      else if tn_username cfg = [] then Inl (ValueError ''username is required'')
      else if tn_password cfg = [] then Inl (ValueError ''password is required'')
      else if tn_port cfg < 1 \<or> tn_port cfg > 65535 then Inl (ValueError ''port must be between 1 and 65535'')
      else if tn_timeout cfg \<le> 0 then Inl (ValueError ''timeout must be greater than 0'')
      else Inr ())"

definition telnet_feed :: "string \<Rightarrow> string \<Rightarrow> string \<times> string \<times> string" where
  "telnet_feed buffer raw = consume_telnet_bytes (buffer @ raw)"

definition telnet_reader :: "(string \<Rightarrow> string) \<Rightarrow> telnet_config \<Rightarrow> reader" where
  "telnet_reader decode cfg =
     \<lparr>rd_feed = telnet_feed, rd_view = decode, rd_empty_ends = True, rd_timeout_nothing = True,
      rd_newline = [CHR 13, nl], rd_timeout = tn_timeout cfg, rd_timeout_text = tn_timeout_text cfg,
      rd_unavailable = ''Telnet connection is not available'',
      rd_no_prompt = ''Telnet CLI prompt was not established'',
      rd_closed = ''Telnet connection closed before CLI output became ready''\<rparr>"

definition telnet_read_until_ready ::
  "(string \<Rightarrow> string) \<Rightarrow> telnet_config \<Rightarrow> string option \<Rightarrow> stop_patterns \<Rightarrow> (session, readiness) act" where
  "telnet_read_until_ready decode cfg = read_until_ready (telnet_reader decode cfg)"

definition telnet_close :: "(string \<Rightarrow> string) \<Rightarrow> telnet_config \<Rightarrow> bool \<Rightarrow> (session, unit) act" where
  "telnet_close decode cfg logout =
     bnd (gets lk_open) (\<lambda>is_open.
     if \<not> is_open then ret ()
     else bnd (try_finally
            (if logout
             then catch_when is_os_error (write_line (telnet_reader decode cfg) ''exit'') (\<lambda>_. ret ())
             else ret ())
            (modify (\<lambda>s. s\<lparr>lk_open := False, lk_prompt := None, lk_buffer := []\<rparr>))) (\<lambda>_. ret ()))"

definition telnet_connect :: "(string \<Rightarrow> string) \<Rightarrow> telnet_config \<Rightarrow> (session, unit) act" where
  "telnet_connect decode cfg =
     bnd (gets lk_open) (\<lambda>is_open.
     if is_open then ret ()
     else bnd open_connection (\<lambda>_.
          catch_when is_exception
            (login (telnet_reader decode cfg) login_prompt password_prompt (tn_username cfg) (tn_password cfg)
               ''Telnet CLI prompt was not established'')
            (\<lambda>e. bnd (telnet_close decode cfg False) (\<lambda>_. throw e))))"

definition telnet_run_command :: "(string \<Rightarrow> string) \<Rightarrow> telnet_config \<Rightarrow> string \<Rightarrow> (session, cli_command_output) act" where
  "telnet_run_command decode cfg = run_line_command (telnet_reader decode cfg)"

definition telnet_session_run_commands ::
  "(string \<Rightarrow> string) \<Rightarrow> telnet_config \<Rightarrow> string list \<Rightarrow> (session, cli_command_output list) act" where
  "telnet_session_run_commands decode cfg commands =
     bnd (telnet_connect decode cfg) (\<lambda>_. for_each commands (telnet_run_command decode cfg))"

text \<open>\<open>TelnetCliSession.__init__\<close>: a new object without a connection.\<close>

definition telnet_new_session :: "telnet_config \<Rightarrow> (session, unit) act" where
  "telnet_new_session cfg =
     bnd (lift (telnet_check cfg)) (\<lambda>_. modify (\<lambda>s. s\<lparr>lk_open := False, lk_prompt := None, lk_buffer := []\<rparr>))"

definition telnet_run ::
  "(string \<Rightarrow> string) \<Rightarrow> telnet_config \<Rightarrow> string list \<Rightarrow> (session, cli_command_output list) act" where
  "telnet_run decode cfg commands =
     bnd (guard_not (\<not> tn_allow_insecure cfg) (PermissionError
       ''Telnet is plaintext; set allow_insecure_telnet=True only for an isolated lab'')) (\<lambda>_.
     bnd (telnet_new_session cfg) (\<lambda>_.
     bnd (try_finally
       (bnd (telnet_connect decode cfg) (\<lambda>_. telnet_session_run_commands decode cfg commands))
       (telnet_close decode cfg True)) (\<lambda>(outputs, _). ret outputs)))"

definition telnet_transport :: "(string \<Rightarrow> string) \<Rightarrow> telnet_config \<Rightarrow> session transport" where
  "telnet_transport decode cfg w commands owner = telnet_run decode cfg commands w"

section \<open>Lemmas: the decoder\<close>

lemma after_subnegotiation_append:
  "after_subnegotiation data = Some rest \<Longrightarrow> after_subnegotiation (data @ later) = Some (rest @ later)"
  by (induction data rule: after_subnegotiation.induct) (auto split: if_splits)

fun then_consume :: "string \<times> string \<times> string \<Rightarrow> string \<Rightarrow> string \<times> string \<times> string" where
  "then_consume (visible, responses, rest) later =
     visible_first visible (respond_first responses (consume_telnet_bytes (rest @ later)))"

lemma first_simps [simp]:
  "visible_first [] t = t" "respond_first [] t = t"
  "visible_first v (visible_first w t) = visible_first (v @ w) t"
  "respond_first v (respond_first w t) = respond_first (v @ w) t"
  "respond_first v (visible_first w t) = visible_first w (respond_first v t)"
  by (cases t, simp)+

lemma then_consume_first [simp]:
  "then_consume (visible_first v t) later = visible_first v (then_consume t later)"
  "then_consume (respond_first v t) later = respond_first v (then_consume t later)"
  by (cases t, simp)+

lemma consume_append: "consume_telnet_bytes (a @ b) = then_consume (consume_telnet_bytes a) b"
proof (induction a rule: consume_telnet_bytes.induct)
  case (1 data)
  note c = consume_telnet_bytes.simps
  have keep: ?case if "consume_telnet_bytes data = ([], [], data)" using that by simp
  show ?case
  proof (cases data)
    case (Cons x t1)
    show ?thesis
    proof (cases "x = iac")
      case False
      then show ?thesis using "1.IH"(1) [OF Cons False] by (subst (1 2) c) (simp add: Cons)
    next
      case x: True
      show ?thesis
      proof (cases t1)
        case Nil
        then show ?thesis using Cons x by (intro keep) (subst c, simp)
      next
        case c1: (Cons command t2)
        note hyps = "1.IH" [OF Cons, unfolded c1]
        consider "command = iac" | "command \<noteq> iac" "is_option_command command"
          | "command \<noteq> iac" "\<not> is_option_command command" "command = sb_cmd"
          | "command \<noteq> iac" "\<not> is_option_command command" "command \<noteq> sb_cmd" by blast
        then show ?thesis
        proof cases
          case 1
          then show ?thesis using hyps(2) x by (subst (1 2) c) (simp add: Cons c1)
        next
          case 2
          show ?thesis
          proof (cases t2)
            case Nil
            then show ?thesis using Cons x c1 2 by (intro keep) (subst c, simp)
          next
            case c2: (Cons opt t3)
            then show ?thesis using hyps(3) [OF _ refl 2 c2] x 2 by (subst (1 2) c) (simp add: Cons c1)
          qed
        next
          case 3
          show ?thesis
          proof (cases "after_subnegotiation t2")
            case None
            then show ?thesis using Cons x c1 3 by (intro keep) (subst c, simp)
          next
            case (Some t3)
            then show ?thesis using hyps(4) [OF _ refl 3 Some] x 3
              by (subst (1 2) c) (simp add: Cons c1 after_subnegotiation_append)
          qed
        next
          case 4
          then show ?thesis using hyps(5) [OF _ refl 4] x by (subst (1 2) c) (simp add: Cons c1)
        qed
      qed
    qed
  qed (subst c, simp)
qed

text \<open>The responses are refusals, three bytes each.\<close>

fun refusals :: "string \<Rightarrow> bool" where
  "refusals (a # b # opt # rest) = (a = iac \<and> b \<in> {wont_cmd, dont_cmd} \<and> refusals rest)"
| "refusals rest = (rest = [])"

lemma consume_refusals: "consume_telnet_bytes data = (visible, responses, rest) \<Longrightarrow> refusals responses"
proof (induction data arbitrary: visible responses rest rule: consume_telnet_bytes.induct)
  case (1 data)
  have v: "\<exists>v. t = (v, responses, rest)" if "visible_first w t = (visible, responses, rest)" for w t
    using that by (cases t) auto
  have o: "\<exists>r1. t = (visible, r1, rest) \<and> responses = option_response command opt @ r1"
    if "respond_first (option_response command opt) t = (visible, responses, rest)" for t command opt
    using that by (cases t) auto
  have app: "refusals (option_response command opt @ r1)" if "refusals r1" for r1 command opt
    using that by (auto simp: option_response_def)
  show ?case
    using "1.prems"
    by (subst (asm) consume_telnet_bytes.simps)
      (auto split: list.splits if_splits option.splits dest!: v o dest: "1.IH" intro!: app)
qed

text \<open>A Telnet stream as RFC 854 builds it, and what each part means for a client without options.\<close>

datatype telnet_item =
    Data char
  | Negotiate char char        \<comment> \<open>DO, DONT, WILL or WONT, and the option\<close>
  | Subnegotiation string
  | Command char

fun encode_item :: "telnet_item \<Rightarrow> string" where
  "encode_item (Data c) = (if c = iac then [iac, iac] else [c])"
| "encode_item (Negotiate command opt) = [iac, command, opt]"
| "encode_item (Subnegotiation payload) = [iac, sb_cmd] @ payload @ [iac, se_cmd]"
| "encode_item (Command c) = [iac, c]"

fun item_ok :: "telnet_item \<Rightarrow> bool" where
  "item_ok (Data c) = True"
| "item_ok (Negotiate command opt) = is_option_command command"
| "item_ok (Subnegotiation payload) = (iac \<notin> set payload)"
| "item_ok (Command c) = (c \<noteq> iac \<and> \<not> is_option_command c \<and> c \<noteq> sb_cmd)"

fun item_text :: "telnet_item \<Rightarrow> string" where
  "item_text (Data c) = [c]"
| "item_text _ = []"

fun item_answer :: "telnet_item \<Rightarrow> string" where
  "item_answer (Negotiate command opt) = option_response command opt"
| "item_answer _ = []"

lemma after_subnegotiation_payload:
  "iac \<notin> set payload \<Longrightarrow> after_subnegotiation (payload @ iac # se_cmd # rest) = Some rest"
proof (induction payload)
  case (Cons x payload)
  then show ?case by (cases payload) auto
qed simp

lemma code_facts: "\<not> is_option_command iac" "sb_cmd \<noteq> iac" "\<not> is_option_command sb_cmd"
  "is_option_command c \<Longrightarrow> c \<noteq> iac"
  by (auto simp: is_option_command_def telnet_codes)

lemma consume_item:
  "item_ok item \<Longrightarrow> consume_telnet_bytes (encode_item item @ rest) =
     visible_first (item_text item) (respond_first (item_answer item) (consume_telnet_bytes rest))"
  by (cases item) (subst consume_telnet_bytes.simps, simp add: code_facts after_subnegotiation_payload)+

lemma consume_items:
  "list_all item_ok items \<Longrightarrow>
   consume_telnet_bytes (concat (map encode_item items)) =
     (concat (map item_text items), concat (map item_answer items), [])"
proof (induction items)
  case Nil
  then show ?case by (subst consume_telnet_bytes.simps) simp
qed (simp add: consume_item)

text \<open>
  The end of a subnegotiation is the first IAC SE, so a payload with an escaped IAC before an SE byte ends too
  early and the rest of it becomes visible text.
\<close>

lemma subnegotiation_escape_ends_early:
  "consume_telnet_bytes [iac, sb_cmd, CHR 24, iac, iac, se_cmd, CHR ''x'', iac, se_cmd] = (''x'', [], [])"
  by code_simp

section \<open>Lemmas: the session\<close>

lemma telnet_responses: "responses_in (telnet_reader decode cfg) {w. refusals w}"
  by (auto simp: responses_in_def telnet_reader_def telnet_feed_def dest: consume_refusals)

text \<open>Everything that a run of commands may write.\<close>

definition telnet_line :: "string \<Rightarrow> string" where
  "telnet_line value = utf8_encode (value @ [CHR 13, nl])"

definition telnet_lines :: "telnet_config \<Rightarrow> string list \<Rightarrow> string set" where
  "telnet_lines cfg commands =
     {telnet_line (tn_username cfg), telnet_line (tn_password cfg), telnet_line ''y'', telnet_line ''exit'', ''c''} \<union>
     telnet_line ` set commands \<union> {w. refusals w}"

interpretation telnet_writes: session_invariant "wrote_only (L0 \<union> telnet_lines cfg commands)"
  "telnet_reader decode cfg" "L0 \<union> telnet_lines cfg commands" for decode cfg commands L0
proof (rule session_invariant_writes)
  show "responses_in (telnet_reader decode cfg) (L0 \<union> telnet_lines cfg commands)"
    using telnet_responses by (fastforce simp: responses_in_def telnet_lines_def)
qed (simp add: telnet_lines_def)

lemma telnet_newline: "utf8_encode (value @ rd_newline (telnet_reader decode cfg)) = telnet_line value"
  by (simp add: telnet_reader_def telnet_line_def)

lemma keeps_telnet_close: "keeps (wrote_only (L0 \<union> telnet_lines cfg commands)) (telnet_close decode cfg logout)"
  unfolding telnet_close_def
  by (intro keeps_intros telnet_writes.keeps_write_line keeps_modify)
    (simp_all only: telnet_newline, simp_all add: telnet_lines_def)

lemma keeps_telnet_connect: "keeps (wrote_only (L0 \<union> telnet_lines cfg commands)) (telnet_connect decode cfg)"
  unfolding telnet_connect_def
  by (intro keeps_intros telnet_writes.keeps_login keeps_open_connection keeps_telnet_close)
    (simp_all only: telnet_newline, simp_all add: telnet_lines_def)

lemma keeps_telnet_run: "keeps (wrote_only (L0 \<union> telnet_lines cfg commands)) (telnet_run decode cfg commands)"
  unfolding telnet_run_def telnet_session_run_commands_def telnet_run_command_def telnet_new_session_def
  by (intro keeps_intros keeps_telnet_close keeps_telnet_connect keeps_modify keeps_for_each_mem
      telnet_writes.keeps_run_line_command)
    (simp_all only: telnet_newline, simp_all add: telnet_lines_def)

lemma triple_telnet_close: "triple (\<lambda>_. True) (telnet_close decode cfg logout) (\<lambda>_ s. \<not> lk_open s) (\<lambda>_ s. \<not> lk_open s)"
proof -
  have fin: "triple P (try_finally m (modify (\<lambda>s. s\<lparr>lk_open := False, lk_prompt := None, lk_buffer := []\<rparr>)))
      (\<lambda>_ s. \<not> lk_open s) (\<lambda>_ s. \<not> lk_open s)" for m :: "(session, unit) act" and P
    by (rule triple_finally_after, rule triple_modify) simp
  show ?thesis
    unfolding telnet_close_def
  proof (rule triple_bnd [OF triple_gets [where Q = "\<lambda>b s. b = lk_open s"]], goal_cases)
    case (2 b)
    then show ?case by (cases b) (auto intro!: triple_ret triple_bnd [OF fin])
  qed simp
qed

lemma telnet_run_closes:
  assumes "telnet_run decode cfg commands s = (r, s')" and "\<not> lk_open s"
  shows "\<not> lk_open s'"
proof -
  have new: "triple (\<lambda>s. \<not> lk_open s) (telnet_new_session cfg) (\<lambda>_ s. \<not> lk_open s) (\<lambda>_ s. \<not> lk_open s)"
    unfolding telnet_new_session_def
    by (rule triple_bnd [OF triple_lift [where Q = "\<lambda>_ s. \<not> lk_open s"]]) (auto intro: triple_modify)
  have "triple (\<lambda>s. \<not> lk_open s) (telnet_run decode cfg commands) (\<lambda>_ s. \<not> lk_open s) (\<lambda>_ s. \<not> lk_open s)"
    unfolding telnet_run_def
    by (rule triple_bnd [OF triple_guard_not [where Q = "\<lambda>_ s. \<not> lk_open s"]], assumption, assumption,
        rule triple_bnd [OF new], rule triple_bnd [OF triple_finally_after [OF triple_telnet_close]])
      (auto intro: triple_ret)
  from triple_run [OF this _ assms(1)] assms(2) show ?thesis by (cases r) simp_all
qed

text \<open>The transport keeps the contract of the protocol.\<close>

lemma telnet_run_order: "telnet_run decode cfg commands s = (Inr outs, s') \<Longrightarrow> map out_command outs = commands"
proof -
  assume "telnet_run decode cfg commands s = (Inr outs, s')"
  then obtain s1 s2 where "for_each commands (telnet_run_command decode cfg) s1 = (Inr outs, s2)"
    unfolding telnet_run_def telnet_session_run_commands_def
    by (fastforce simp: bnd_eq_Inr ret_run dest!: finally_Inr)
  then have "map out_command outs = map (\<lambda>c. c) commands"
    by (rule for_each_map) (auto simp: telnet_run_command_def dest: run_line_command_label)
  then show ?thesis by simp
qed

interpretation telnet: cli_transport "telnet_transport decode cfg" for decode cfg
  by unfold_locales (simp add: telnet_transport_def telnet_run_order)

section \<open>Properties\<close>

text \<open>C22. Decoding does not depend on how the network splits the stream: consuming two pieces one after the
  other, with the unconsumed rest of the first put before the second, gives the same visible text, the same
  responses and the same rest as consuming them at once.\<close>

theorem consume_telnet_streaming:
  "consume_telnet_bytes (a @ b) =
   (case consume_telnet_bytes a of (visible, responses, rest) \<Rightarrow>
     (case consume_telnet_bytes (rest @ b) of (visible', responses', rest') \<Rightarrow>
        (visible @ visible', responses @ responses', rest')))"
  by (cases "consume_telnet_bytes a") (auto simp: consume_append split: prod.split)

text \<open>C23. Decoding a well-formed Telnet stream (data with IAC doubled, option negotiations, subnegotiations
  whose payload has no IAC, other commands) shows exactly the data, answers each DO with WONT and each WILL
  with DONT and nothing else, and leaves nothing over.\<close>

theorem consume_telnet_stream:
  assumes "list_all item_ok items"
  shows "consume_telnet_bytes (concat (map encode_item items)) =
     (concat (map item_text items), concat (map item_answer items), [])"
  by (rule consume_items [OF assms])

lemma consume_telnet_stream_witness:
  "consume_telnet_bytes (concat (map encode_item
     [Data (CHR ''a''), Negotiate do_cmd (CHR 0x01), Subnegotiation ''xy'', Data iac, Command (CHR 0xF1)])) =
   (concat (map item_text
     [Data (CHR ''a''), Negotiate do_cmd (CHR 0x01), Subnegotiation ''xy'', Data iac, Command (CHR 0xF1)]),
    concat (map item_answer
     [Data (CHR ''a''), Negotiate do_cmd (CHR 0x01), Subnegotiation ''xy'', Data iac, Command (CHR 0xF1)]), [])"
  by (rule consume_telnet_stream) code_simp

text \<open>C24. What a Telnet run may write: whatever the other end sends and wherever the run fails, it writes only
  the user name, the password, the given commands, the confirmation \<open>y\<close>, the pager key \<open>c\<close>,
  \<open>exit\<close>, and refusals of options; and it always ends with the connection closed.\<close>

theorem telnet_run_confined:
  assumes "telnet_run decode cfg commands s = (r, s')" and "\<not> lk_open s"
  shows "set (lk_sent s') \<subseteq> set (lk_sent s) \<union> telnet_lines cfg commands \<and> \<not> lk_open s'"
  using keepsD [OF keeps_telnet_run assms(1), of "set (lk_sent s)"] telnet_run_closes [OF assms]
  by (simp add: wrote_only_def)

definition demo_telnet :: telnet_config where
  "demo_telnet = \<lparr>tn_host = ''h'', tn_username = ''u'', tn_password = ''p'', tn_port = 23, tn_timeout = 5,
     tn_timeout_text = ''5'', tn_allow_insecure = True\<rparr>"

definition demo_session :: "(rat \<times> arrival) list \<Rightarrow> session" where
  "demo_session script = \<lparr>lk_open = False, lk_up = False, lk_prompt = None, lk_buffer = [], lk_time = 0, lk_script = script,
     lk_sent = [], lk_faults = [], lk_connects = []\<rparr>"

definition demo_script :: "(rat \<times> arrival) list" where
  "demo_script = [(0, Chunk (''login: '' @ [iac, do_cmd, CHR 0x01])), (1, Nothing), (0, Chunk (''Password:'')),
     (0, Chunk [CHR 13, nl, CHR ''R'', CHR ''#'']), (0, Chunk (''v'' @ [CHR 13, nl] @ ''1.2'' @ [CHR 13, nl] @ ''R#''))]"

lemma telnet_run_confined_witness:
  "set (lk_sent (snd (telnet_run id demo_telnet [''v''] (demo_session demo_script)))) \<subseteq>
     set (lk_sent (demo_session demo_script)) \<union> telnet_lines demo_telnet [''v''] \<and>
   \<not> lk_open (snd (telnet_run id demo_telnet [''v''] (demo_session demo_script)))"
  by (rule telnet_run_confined [OF prod.collapse [symmetric]]) (simp add: demo_session_def)

end
