(* ===== verification/Serial.thy ===== *)
theory Serial
  imports LineSession
begin

text \<open>
  The serial console transport, \<open>cli_tool/transport/serial.py\<close>, as an instance of the shared session.
  pyserial is the script of the connection; whether it is installed is a field of the configuration.
\<close>

definition serial_login_prompt :: rx where
  "serial_login_prompt = seqs
     [alts [lit_i ''login'', lit_i ''username'', seqs [lit_i ''user'', rx_plus (One is_space), lit_i ''name'']],
      rx_star (One is_space), lit '':'']"

definition serial_password_prompt :: rx where
  "serial_password_prompt = seqs [lit_i ''password'', rx_star (One is_space), lit '':'']"

record serial_config =
  sr_username :: string
  sr_password :: string
  sr_timeout :: rat
  sr_timeout_text :: string
  sr_installed :: bool

definition serial_reader :: "(string \<Rightarrow> string) \<Rightarrow> serial_config \<Rightarrow> reader" where
  "serial_reader decode cfg =
     \<lparr>rd_feed = (\<lambda>buffer raw. (raw, [], buffer)), rd_view = decode, rd_empty_ends = False,
      rd_timeout_nothing = False, rd_newline = [CHR 13, nl], rd_timeout = sr_timeout cfg,
      rd_timeout_text = sr_timeout_text cfg,
      rd_unavailable = ''serial connection is not available'',
      rd_no_prompt = ''serial CLI prompt was not established'',
      rd_closed = ''serial connection closed before CLI output became ready''\<rparr>"

definition serial_read_until_ready ::
  "(string \<Rightarrow> string) \<Rightarrow> serial_config \<Rightarrow> string option \<Rightarrow> stop_patterns \<Rightarrow> (session, readiness) act" where
  "serial_read_until_ready decode cfg = read_until_ready (serial_reader decode cfg)"

definition serial_read_available ::
  "(string \<Rightarrow> string) \<Rightarrow> serial_config \<Rightarrow> rat \<Rightarrow> rat \<Rightarrow> rat \<Rightarrow> (session, string) act" where
  "serial_read_available decode cfg = read_available (serial_reader decode cfg)"

definition serial_connect :: "(string \<Rightarrow> string) \<Rightarrow> serial_config \<Rightarrow> (session, unit) act" where
  "serial_connect decode cfg =
     bnd (gets (\<lambda>s. lk_open s \<and> lk_up s)) (\<lambda>ready.
     if ready then ret ()
     else
       bnd (guard_not (\<not> sr_installed cfg) (RuntimeError ''pyserial is required for serial CLI verification'')) (\<lambda>_.
       bnd open_connection (\<lambda>_.
       bnd (write_line (serial_reader decode cfg) []) (\<lambda>_.
       login (serial_reader decode cfg) serial_login_prompt serial_password_prompt
         (sr_username cfg) (sr_password cfg) ''serial CLI prompt was not established''))))"

definition serial_run_command :: "(string \<Rightarrow> string) \<Rightarrow> serial_config \<Rightarrow> string \<Rightarrow> (session, cli_command_output) act" where
  "serial_run_command decode cfg = run_line_command (serial_reader decode cfg)"

definition serial_session_run_commands ::
  "(string \<Rightarrow> string) \<Rightarrow> serial_config \<Rightarrow> string list \<Rightarrow> (session, cli_command_output list) act" where
  "serial_session_run_commands decode cfg commands =
     bnd (serial_connect decode cfg) (\<lambda>_. for_each commands (serial_run_command decode cfg))"

definition serial_logout :: "(string \<Rightarrow> string) \<Rightarrow> serial_config \<Rightarrow> (session, unit) act" where
  "serial_logout decode cfg =
     bnd (write_line (serial_reader decode cfg) ''exit'') (\<lambda>_.
     bnd (serial_read_available decode cfg (1 / 5) (1 / 5) 2) (\<lambda>output.
     if rx_found logout_confirm_prompt output
     then bnd (write_line (serial_reader decode cfg) ''y'') (\<lambda>_.
          bnd (serial_read_available decode cfg (1 / 5) (1 / 5) 2) (\<lambda>_. ret ()))
     else ret ()))"

definition serial_close :: "(string \<Rightarrow> string) \<Rightarrow> serial_config \<Rightarrow> bool \<Rightarrow> (session, unit) act" where
  "serial_close decode cfg logout =
     bnd (gets lk_open) (\<lambda>is_open.
     if \<not> is_open then ret ()
     else bnd (try_finally
            (bnd (gets lk_up) (\<lambda>up. if logout \<and> up then serial_logout decode cfg else ret ()))
            (modify (\<lambda>s. s\<lparr>lk_open := False\<rparr>))) (\<lambda>_. ret ()))"

definition serial_run ::
  "(string \<Rightarrow> string) \<Rightarrow> serial_config \<Rightarrow> string list \<Rightarrow> (session, cli_command_output list) act" where
  "serial_run decode cfg commands =
     bnd (modify (\<lambda>s. s\<lparr>lk_open := False, lk_prompt := None\<rparr>)) (\<lambda>_.
     bnd (try_finally
       (bnd (serial_connect decode cfg) (\<lambda>_. serial_session_run_commands decode cfg commands))
       (serial_close decode cfg True)) (\<lambda>(outputs, _). ret outputs))"

definition serial_transport :: "(string \<Rightarrow> string) \<Rightarrow> serial_config \<Rightarrow> session transport" where
  "serial_transport decode cfg w commands owner = serial_run decode cfg commands w"

section \<open>Lemmas\<close>

definition serial_line :: "string \<Rightarrow> string" where
  "serial_line value = utf8_encode (value @ [CHR 13, nl])"

definition serial_lines :: "serial_config \<Rightarrow> string list \<Rightarrow> string set" where
  "serial_lines cfg commands =
     {serial_line [], serial_line (sr_username cfg), serial_line (sr_password cfg), serial_line ''y'',
      serial_line ''exit'', ''c''} \<union> serial_line ` set commands"

interpretation serial_writes: session_invariant "wrote_only (L0 \<union> serial_lines cfg commands)"
  "serial_reader decode cfg" "L0 \<union> serial_lines cfg commands" for decode cfg commands L0
  by (rule session_invariant_writes) (auto simp: responses_in_def serial_reader_def serial_lines_def)

lemma serial_newline: "utf8_encode (value @ rd_newline (serial_reader decode cfg)) = serial_line value"
  by (simp add: serial_reader_def serial_line_def)

lemma keeps_serial_close: "keeps (wrote_only (L0 \<union> serial_lines cfg commands)) (serial_close decode cfg logout)"
  unfolding serial_close_def serial_logout_def serial_read_available_def
  by (intro keeps_intros serial_writes.keeps_write_line serial_writes.keeps_read_available keeps_modify)
    (simp_all only: serial_newline, simp_all add: serial_lines_def)

lemma keeps_serial_connect: "keeps (wrote_only (L0 \<union> serial_lines cfg commands)) (serial_connect decode cfg)"
  unfolding serial_connect_def
  by (intro keeps_intros serial_writes.keeps_login serial_writes.keeps_write_line keeps_open_connection)
    (simp_all only: serial_newline, simp_all add: serial_lines_def)

lemma keeps_serial_run: "keeps (wrote_only (L0 \<union> serial_lines cfg commands)) (serial_run decode cfg commands)"
  unfolding serial_run_def serial_session_run_commands_def serial_run_command_def
  by (intro keeps_intros keeps_serial_close keeps_serial_connect keeps_modify keeps_for_each_mem
      serial_writes.keeps_run_line_command)
    (simp_all only: serial_newline, simp_all add: serial_lines_def)

lemma triple_serial_close: "triple (\<lambda>_. True) (serial_close decode cfg logout) (\<lambda>_ s. \<not> lk_open s) (\<lambda>_ s. \<not> lk_open s)"
proof -
  have fin: "triple P (try_finally m (modify (\<lambda>s. s\<lparr>lk_open := False\<rparr>))) (\<lambda>_ s. \<not> lk_open s) (\<lambda>_ s. \<not> lk_open s)"
    for m :: "(session, unit) act" and P
    by (rule triple_finally_after, rule triple_modify) simp
  show ?thesis
    unfolding serial_close_def
  proof (rule triple_bnd [OF triple_gets [where Q = "\<lambda>b s. b = lk_open s"]], goal_cases)
    case (2 b)
    then show ?case by (cases b) (auto intro!: triple_ret triple_bnd [OF fin])
  qed simp
qed

lemma triple_serial_run: "triple (\<lambda>_. True) (serial_run decode cfg commands) (\<lambda>_ s. \<not> lk_open s) (\<lambda>_ s. \<not> lk_open s)"
  unfolding serial_run_def
  by (rule triple_bnd [where R = "\<lambda>_ _. True"], rule triple_modify, simp,
      rule triple_bnd [OF triple_finally_after [OF triple_serial_close]])
    (auto intro: triple_ret)

lemma serial_run_order: "serial_run decode cfg commands s = (Inr outs, s') \<Longrightarrow> map out_command outs = commands"
proof -
  assume "serial_run decode cfg commands s = (Inr outs, s')"
  then obtain s1 s2 where "for_each commands (serial_run_command decode cfg) s1 = (Inr outs, s2)"
    unfolding serial_run_def serial_session_run_commands_def
    by (fastforce simp: bnd_eq_Inr ret_run dest!: finally_Inr)
  then have "map out_command outs = map (\<lambda>c. c) commands"
    by (rule for_each_map) (auto simp: serial_run_command_def dest: run_line_command_label)
  then show ?thesis by simp
qed

interpretation serial: cli_transport "serial_transport decode cfg" for decode cfg
  by unfold_locales (simp add: serial_transport_def serial_run_order)

section \<open>Properties\<close>

text \<open>What a serial run may write: only the wake-up line, the user name, the password, the given commands,
  the confirmation \<open>y\<close>, the pager key \<open>c\<close> and \<open>exit\<close>; and the port is released at the end,
  however the run fails.\<close>

theorem serial_run_confined:
  assumes "serial_run decode cfg commands s = (r, s')"
  shows "set (lk_sent s') \<subseteq> set (lk_sent s) \<union> serial_lines cfg commands \<and> \<not> lk_open s'"
proof -
  have "\<not> lk_open s'" using triple_run [OF triple_serial_run _ assms] by (cases r) simp_all
  then show ?thesis
    using keepsD [OF keeps_serial_run assms, of "set (lk_sent s)"] by (simp add: wrote_only_def)
qed

definition demo_serial :: serial_config where
  "demo_serial = \<lparr>sr_username = ''u'', sr_password = ''p'', sr_timeout = 5, sr_timeout_text = ''5'', sr_installed = True\<rparr>"

definition demo_port :: session where
  "demo_port = \<lparr>lk_open = False, lk_up = False, lk_prompt = None, lk_buffer = [], lk_time = 0,
     lk_script = [(0, Chunk ''R#''), (1, Nothing), (0, Lost)], lk_sent = [], lk_faults = [], lk_connects = []\<rparr>"

lemma serial_run_confined_witness:
  "set (lk_sent (snd (serial_run id demo_serial [''v''] demo_port))) \<subseteq> set (lk_sent demo_port) \<union> serial_lines demo_serial [''v''] \<and>
   \<not> lk_open (snd (serial_run id demo_serial [''v''] demo_port))"
  by (rule serial_run_confined [OF prod.collapse [symmetric]])

end
