(* ===== verification/SshSession.thy ===== *)
theory SshSession
  imports LineSession
begin

text \<open>
  One SSH session: host-key configuration (\<open>cli_tool/transport/ssh_host_keys.py\<close>) and the classes
  \<open>SshCliClient\<close> and \<open>SshCliSession\<close> of \<open>cli_tool/transport/ssh.py\<close>. The channel is a
  connection of the shared engine; what the session asks of paramiko's client is logged as \<open>ssh_call\<close>s.
\<close>

section \<open>Host keys\<close>

datatype ssh_call =
    NewClient
  | LoadSystemHostKeys
  | LoadHostKeys string
  | SetPolicy bool          \<comment> \<open>\<open>True\<close>: WarningPolicy, \<open>False\<close>: RejectPolicy\<close>
  | ClientConnect
  | CloseClient

text \<open>\<open>is_file\<close> and \<open>expanduser\<close> are the file system's.\<close>

definition configure_ssh_host_keys ::
  "(string \<Rightarrow> string) \<Rightarrow> (string \<Rightarrow> bool) \<Rightarrow> string option \<Rightarrow> bool \<Rightarrow> (ssh_call list, unit) act" where
  "configure_ssh_host_keys expanduser is_file known_hosts_path allow_unknown_host_key =
     bnd (modify (\<lambda>calls. calls @ [LoadSystemHostKeys])) (\<lambda>_.
     bnd (case known_hosts_path of
            None \<Rightarrow> ret ()
          | Some path \<Rightarrow>
              let resolved = expanduser path
              in bnd (guard_not (\<not> is_file resolved)
                   (FileNotFoundError (''known_hosts file does not exist: '' @ resolved))) (\<lambda>_.
                 modify (\<lambda>calls. calls @ [LoadHostKeys resolved]))) (\<lambda>_.
     modify (\<lambda>calls. calls @ [SetPolicy allow_unknown_host_key])))"

section \<open>Session\<close>

record ssh_config =
  sc_timeout :: rat
  sc_timeout_text :: string
  sc_attempts :: int
  sc_backoff :: rat
  sc_known_hosts :: "string option"
  sc_allow_unknown :: bool
  sc_installed :: bool
  sc_expanduser :: "string \<Rightarrow> string"
  sc_is_file :: "string \<Rightarrow> bool"
  sc_decode :: "string \<Rightarrow> string"

text \<open>
  \<open>ss_link\<close> is the channel: \<open>lk_open\<close> when it is not \<open>None\<close>, \<open>lk_up\<close> when it is
  not closed. \<open>ss_health\<close> holds the answers of paramiko's transport to the health queries to come:
  \<open>None\<close> for a missing transport, else \<open>is_active()\<close>.
\<close>

record ssh_session =
  ss_link :: session
  ss_client :: bool
  ss_calls :: "ssh_call list"
  ss_attempts_used :: nat
  ss_connect_seconds :: rat
  ss_banner_seconds :: rat
  ss_health :: "bool option list"

definition on_link :: "(session, 'a) act \<Rightarrow> (ssh_session, 'a) act" where
  "on_link m s = (case m (ss_link s) of (r, l) \<Rightarrow> (r, s\<lparr>ss_link := l\<rparr>))"

definition on_calls :: "(ssh_call list, 'a) act \<Rightarrow> (ssh_session, 'a) act" where
  "on_calls m s = (case m (ss_calls s) of (r, c) \<Rightarrow> (r, s\<lparr>ss_calls := c\<rparr>))"

definition call :: "ssh_call \<Rightarrow> (ssh_session, unit) act" where
  "call c = on_calls (modify (\<lambda>calls. calls @ [c]))"

definition ssh_now :: "(ssh_session, rat) act" where
  "ssh_now = gets (\<lambda>s. lk_time (ss_link s))"

definition ssh_check :: "ssh_config \<Rightarrow> unit result" where
  "ssh_check cfg =
     (if sc_attempts cfg < 1 then Inl (ValueError ''connect_attempts must be at least 1'')
      else if sc_backoff cfg < 0 then Inl (ValueError ''retry_backoff_seconds must be at least 0'')
      else Inr ())"

definition ssh_reader :: "ssh_config \<Rightarrow> reader" where
  "ssh_reader cfg =
     \<lparr>rd_feed = (\<lambda>buffer raw. (sc_decode cfg raw, [], buffer)), rd_view = (\<lambda>s. s), rd_empty_ends = True,
      rd_timeout_nothing = False, rd_newline = [nl], rd_timeout = sc_timeout cfg,
      rd_timeout_text = sc_timeout_text cfg,
      rd_unavailable = ''SSH channel is not available'',
      rd_no_prompt = ''SSH CLI prompt was not established'',
      rd_closed = ''SSH channel closed before CLI output became ready''\<rparr>"

definition ssh_read_until_ready :: "ssh_config \<Rightarrow> string option \<Rightarrow> stop_patterns \<Rightarrow> (session, readiness) act" where
  "ssh_read_until_ready cfg = read_until_ready (ssh_reader cfg)"

definition ssh_read_available :: "ssh_config \<Rightarrow> rat \<Rightarrow> rat \<Rightarrow> rat \<Rightarrow> (session, string) act" where
  "ssh_read_available cfg = read_available (ssh_reader cfg)"

definition ssh_logout :: "ssh_config \<Rightarrow> (session, rat) act" where
  "ssh_logout cfg =
     bnd (gets lk_time) (\<lambda>started.
     bnd (write_raw (utf8_encode (''exit'' @ [nl]))) (\<lambda>_.
     bnd (ssh_read_available cfg (1 / 5) (1 / 5) 2) (\<lambda>output.
     bnd (if rx_found logout_confirm_prompt output
          then bnd (write_raw (utf8_encode (''y'' @ [nl]))) (\<lambda>_.
               bnd (ssh_read_available cfg (1 / 5) (1 / 5) 2) (\<lambda>_. ret ()))
          else ret ()) (\<lambda>_.
     bnd (gets lk_time) (\<lambda>ended. ret (ended - started))))))"

definition ssh_close :: "ssh_config \<Rightarrow> bool \<Rightarrow> (ssh_session, rat) act" where
  "ssh_close cfg logout =
     bnd (gets (\<lambda>s. (lk_open (ss_link s), lk_up (ss_link s)))) (\<lambda>(has_channel, up).
     bnd (if has_channel
          then bnd (try_finally
                 (if logout \<and> up then on_link (ssh_logout cfg) else ret 0)
                 (on_link (modify (\<lambda>l. l\<lparr>lk_open := False, lk_up := False\<rparr>)))) (\<lambda>(seconds, _). ret seconds)
          else ret 0) (\<lambda>logout_seconds.
     bnd (gets ss_client) (\<lambda>has_client.
     bnd (if has_client then bnd (call CloseClient) (\<lambda>_. modify (\<lambda>s. s\<lparr>ss_client := False\<rparr>)) else ret ()) (\<lambda>_.
     ret logout_seconds))))"

definition is_healthy :: "(ssh_session, bool) act" where
  "is_healthy s =
     (if \<not> ss_client s \<or> \<not> lk_open (ss_link s) then (Inr False, s)
      else if \<not> lk_up (ss_link s) then (Inr False, s)
      else case ss_health s of
             [] \<Rightarrow> (Inr True, s)
           | answer # later \<Rightarrow> (Inr (answer = Some True), s\<lparr>ss_health := later\<rparr>))"

text \<open>\<open>_is_retryable_connect_error\<close>, with paramiko's exception classes by name.\<close>

fun is_retryable_connect_error :: "exn \<Rightarrow> bool" where
  "is_retryable_connect_error (AuthenticationException _) = False"
| "is_retryable_connect_error (SSHException _) = True"
| "is_retryable_connect_error (EOFError _) = True"
| "is_retryable_connect_error (OtherException n _) =
     (n \<in> {''BadHostKeyException'', ''ChannelException'', ''ProxyCommandFailure'', ''IncompatiblePeer'',
            ''MessageOrderError'', ''NoValidConnectionsError''})"
| "is_retryable_connect_error e = is_os_error e"

text \<open>The body of the \<open>try\<close> of one connection attempt.\<close>

definition ssh_connect_once :: "ssh_config \<Rightarrow> (ssh_session, unit) act" where
  "ssh_connect_once cfg =
     bnd ssh_now (\<lambda>started.
     bnd (try_finally
            (bnd (call ClientConnect) (\<lambda>_. on_link connect_step))
            (bnd ssh_now (\<lambda>ended. modify (\<lambda>s. s\<lparr>ss_connect_seconds := ss_connect_seconds s + (ended - started)\<rparr>)))) (\<lambda>_.
     bnd (on_link open_connection) (\<lambda>_.
     bnd ssh_now (\<lambda>started.
     bnd (on_link (write_raw [nl])) (\<lambda>_.
     bnd (on_link (ssh_read_until_ready cfg None [])) (\<lambda>(_, _, prompt).
     bnd (on_link (modify (\<lambda>l. l\<lparr>lk_prompt := prompt\<rparr>))) (\<lambda>_.
     bnd ssh_now (\<lambda>ended. modify (\<lambda>s. s\<lparr>ss_banner_seconds := ss_banner_seconds s + (ended - started)\<rparr>)))))))))"

text \<open>The loop over the attempts; \<open>left\<close> attempts follow the current one.\<close>

fun ssh_attempts :: "ssh_config \<Rightarrow> nat \<Rightarrow> nat \<Rightarrow> (ssh_session, unit) act" where
  "ssh_attempts cfg attempt 0 = ret ()"
| "ssh_attempts cfg attempt (Suc left) =
     bnd (modify (\<lambda>s. s\<lparr>ss_attempts_used := attempt, ss_client := True\<rparr>)) (\<lambda>_.
     bnd (call NewClient) (\<lambda>_.
     bnd (on_calls (configure_ssh_host_keys (sc_expanduser cfg) (sc_is_file cfg) (sc_known_hosts cfg) (sc_allow_unknown cfg))) (\<lambda>_.
     catch_when is_exception (ssh_connect_once cfg) (\<lambda>e.
       bnd (catch_when is_exception (bnd (ssh_close cfg False) (\<lambda>_. ret ()))
              (\<lambda>_. modify (\<lambda>s. s\<lparr>ss_client := False, ss_link := (ss_link s)\<lparr>lk_open := False\<rparr>\<rparr>))) (\<lambda>_.
       if left = 0 \<or> \<not> is_retryable_connect_error e then throw e
       else bnd (on_link (sleep (sc_backoff cfg * 2 ^ (attempt - 1)))) (\<lambda>_. ssh_attempts cfg (Suc attempt) left))))))"

definition ssh_connect :: "ssh_config \<Rightarrow> (ssh_session, unit) act" where
  "ssh_connect cfg =
     bnd is_healthy (\<lambda>healthy.
     if healthy then ret ()
     else bnd (guard_not (\<not> sc_installed cfg) (RuntimeError ''paramiko is required for SSH CLI verification'')) (\<lambda>_.
          ssh_attempts cfg 1 (nat (sc_attempts cfg))))"

definition ssh_run_command :: "ssh_config \<Rightarrow> string \<Rightarrow> (ssh_session, string \<times> rat \<times> bool) act" where
  "ssh_run_command cfg command =
     bnd ssh_now (\<lambda>started.
     bnd (on_link (exchange_command (ssh_reader cfg) command)) (\<lambda>(output, confirmed).
     bnd ssh_now (\<lambda>ended. ret (output, ended - started, confirmed))))"

definition ssh_session_run_commands :: "ssh_config \<Rightarrow> string list \<Rightarrow> (ssh_session, cli_command_output list) act" where
  "ssh_session_run_commands cfg commands =
     bnd (ssh_connect cfg) (\<lambda>_.
     bnd (gets (\<lambda>s. lk_open (ss_link s))) (\<lambda>has_channel.
     bnd (guard_not (\<not> has_channel) (RuntimeError ''SSH channel is not available'')) (\<lambda>_.
     for_each commands (\<lambda>command.
       bnd (ssh_run_command cfg command) (\<lambda>(output, _, _). ret \<lparr>out_command = command, out_output = output\<rparr>)))))"

definition new_ssh_session :: "session \<Rightarrow> bool option list \<Rightarrow> ssh_session" where
  "new_ssh_session link health =
     \<lparr>ss_link = link\<lparr>lk_open := False, lk_up := False, lk_prompt := None\<rparr>, ss_client = False, ss_calls = [],
      ss_attempts_used = 0, ss_connect_seconds = 0, ss_banner_seconds = 0, ss_health = health\<rparr>"

text \<open>\<open>SshCliClient.run_commands\<close>, on a session that was just made.\<close>

definition ssh_client_run_commands :: "ssh_config \<Rightarrow> string list \<Rightarrow> (ssh_session, cli_command_output list) act" where
  "ssh_client_run_commands cfg commands =
     bnd (lift (ssh_check cfg)) (\<lambda>_.
     bnd (try_finally
       (bnd (ssh_connect cfg) (\<lambda>_. ssh_session_run_commands cfg commands))
       (ssh_close cfg True)) (\<lambda>(outputs, _). ret outputs))"

section \<open>Lemmas: calls\<close>

text \<open>The calls of a session that never accepts an unknown key.\<close>

fun guarded_calls :: "bool \<Rightarrow> ssh_call list \<Rightarrow> bool" where
  "guarded_calls safe [] = True"
| "guarded_calls safe (c # calls) =
     (case c of
        NewClient \<Rightarrow> guarded_calls False calls
      | SetPolicy warn \<Rightarrow> \<not> warn \<and> guarded_calls True calls
      | ClientConnect \<Rightarrow> safe \<and> guarded_calls safe calls
      | _ \<Rightarrow> guarded_calls safe calls)"

fun policy_set :: "bool \<Rightarrow> ssh_call list \<Rightarrow> bool" where
  "policy_set safe [] = safe"
| "policy_set safe (c # calls) =
     policy_set (case c of NewClient \<Rightarrow> False | SetPolicy warn \<Rightarrow> True | _ \<Rightarrow> safe) calls"

lemma guarded_calls_append:
  "guarded_calls safe (a @ b) = (guarded_calls safe a \<and> guarded_calls (policy_set safe a) b)"
  by (induction a arbitrary: safe) (auto split: ssh_call.split)

lemma policy_set_append: "policy_set safe (a @ b) = policy_set (policy_set safe a) b"
  by (induction a arbitrary: safe) auto

definition connects :: "ssh_session \<Rightarrow> nat" where
  "connects s = length (filter (\<lambda>c. c = ClientConnect) (ss_calls s))"

lemma on_link_Inr: "on_link m s = (Inr x, s') \<longleftrightarrow> (\<exists>l. m (ss_link s) = (Inr x, l) \<and> s' = s\<lparr>ss_link := l\<rparr>)"
  by (auto simp: on_link_def split: prod.splits)

lemma keeps_on_link: "(\<And>s l. I s \<Longrightarrow> I (s\<lparr>ss_link := l\<rparr>)) \<Longrightarrow> keeps I (on_link m)"
  by (simp add: keeps_def on_link_def split: prod.split)

lemma keeps_ssh_modify: "(\<And>s. I s \<Longrightarrow> I (f s)) \<Longrightarrow> keeps I (modify f)"
  by (simp add: keeps_def modify_def)

lemma keeps_call: "(\<And>s. I s \<Longrightarrow> I (s\<lparr>ss_calls := ss_calls s @ [c]\<rparr>)) \<Longrightarrow> keeps I (call c)"
  by (simp add: keeps_def call_def on_calls_def modify_def)

lemma keeps_ssh_close:
  assumes "\<And>s l. I s \<Longrightarrow> I (s\<lparr>ss_link := l\<rparr>)" and "\<And>s b. I s \<Longrightarrow> I (s\<lparr>ss_client := b\<rparr>)"
    and "\<And>s. I s \<Longrightarrow> I (s\<lparr>ss_calls := ss_calls s @ [CloseClient]\<rparr>)"
  shows "keeps I (ssh_close cfg logout)"
  unfolding ssh_close_def
  by (intro keeps_intros keeps_on_link keeps_ssh_modify keeps_call assms)

lemma keeps_is_healthy: "(\<And>s h. I s \<Longrightarrow> I (s\<lparr>ss_health := h\<rparr>)) \<Longrightarrow> keeps I is_healthy"
  by (auto simp: keeps_def is_healthy_def split: list.split)

section \<open>Lemmas: attempts\<close>

definition hosts_file_ok :: "ssh_config \<Rightarrow> bool" where
  "hosts_file_ok cfg =
     (case sc_known_hosts cfg of None \<Rightarrow> True | Some p \<Rightarrow> sc_is_file cfg (sc_expanduser cfg p))"

definition counted :: "nat \<Rightarrow> nat \<Rightarrow> ssh_session \<Rightarrow> bool" where
  "counted used c s = (ss_attempts_used s = used \<and> connects s = c)"

lemma counted_update [simp]:
  "counted u c (s\<lparr>ss_link := l\<rparr>) = counted u c s"
  "counted u c (s\<lparr>ss_client := b\<rparr>) = counted u c s"
  "counted u c (s\<lparr>ss_connect_seconds := t\<rparr>) = counted u c s"
  "counted u c (s\<lparr>ss_banner_seconds := t\<rparr>) = counted u c s"
  "counted u c (s\<lparr>ss_health := h\<rparr>) = counted u c s"
  by (simp_all add: counted_def connects_def)

lemma counted_call:
  "c \<noteq> ClientConnect \<Longrightarrow> counted u n (s\<lparr>ss_calls := ss_calls s @ [c]\<rparr>) = counted u n s"
  by (simp add: counted_def connects_def)

lemma triple_configure_counted:
  assumes "hosts_file_ok cfg"
  shows "triple (counted u c)
    (on_calls (configure_ssh_host_keys (sc_expanduser cfg) (sc_is_file cfg) (sc_known_hosts cfg) (sc_allow_unknown cfg)))
    (\<lambda>_. counted u c) E"
  using assms
  by (auto simp: triple_def on_calls_def configure_ssh_host_keys_def bnd_def modify_def ret_def guard_not_def
      hosts_file_ok_def Let_def counted_def connects_def split: option.splits)

lemma keeps_close_counted: "keeps (counted u c) (ssh_close cfg logout)"
  by (rule keeps_ssh_close) (simp_all add: counted_call)

lemma triple_once_counted:
  "triple (counted u c) (ssh_connect_once cfg) (\<lambda>_. counted u (Suc c)) (\<lambda>_. counted u (Suc c))"
proof -
  let ?Q = "counted u (Suc c)"
  have connect: "triple (counted u c) (bnd (call ClientConnect) (\<lambda>_. on_link connect_step)) (\<lambda>_. ?Q) (\<lambda>_. ?Q)"
    by (rule triple_bnd [where R = "\<lambda>_. ?Q"])
      (auto simp: triple_def call_def on_calls_def modify_def on_link_def counted_def connects_def
        split: prod.split sum.split)
  have clock: "triple ?Q (bnd ssh_now (\<lambda>ended. modify (\<lambda>s. s\<lparr>ss_connect_seconds := ss_connect_seconds s + (ended - t)\<rparr>)))
      (\<lambda>_. ?Q) (\<lambda>_. ?Q)" for t
    unfolding ssh_now_def by (rule triple_bnd [OF triple_gets [where Q = "\<lambda>_. ?Q"]]) (auto intro: triple_modify)
  have rest: "triple ?Q (bnd (on_link open_connection) (\<lambda>_.
     bnd ssh_now (\<lambda>started.
     bnd (on_link (write_raw [nl])) (\<lambda>_.
     bnd (on_link (ssh_read_until_ready cfg None [])) (\<lambda>(_, _, prompt).
     bnd (on_link (modify (\<lambda>l. l\<lparr>lk_prompt := prompt\<rparr>))) (\<lambda>_.
     bnd ssh_now (\<lambda>ended. modify (\<lambda>s. s\<lparr>ss_banner_seconds := ss_banner_seconds s + (ended - started)\<rparr>)))))))) (\<lambda>_. ?Q) (\<lambda>_. ?Q)"
    unfolding keeps_triple [symmetric] ssh_now_def
    by (intro keeps_intros keeps_on_link keeps_ssh_modify) simp_all
  show ?thesis
    unfolding ssh_connect_once_def
    by (rule triple_bnd [where R = "\<lambda>_. counted u c"], (simp add: ssh_now_def triple_gets) [1],
        rule triple_bnd [OF triple_finally [OF connect clock clock] rest])
qed

definition tried :: "nat \<Rightarrow> nat \<Rightarrow> nat \<Rightarrow> ssh_session \<Rightarrow> bool" where
  "tried first last_attempt c s =
     (first \<le> ss_attempts_used s \<and> ss_attempts_used s \<le> last_attempt \<and>
      connects s = c + (Suc (ss_attempts_used s) - first))"

text \<open>One round of the loop, given what the rounds after it do.\<close>

lemma triple_attempt_round:
  assumes ok: "hosts_file_ok cfg"
    and later: "left \<noteq> 0 \<Longrightarrow> triple (\<lambda>s. connects s = Suc c) (ssh_attempts cfg (Suc k) left)
      (\<lambda>_. tried k (k + left) c)
      (\<lambda>e s. tried k (k + left) c s \<and> (ss_attempts_used s = k + left \<or> \<not> is_retryable_connect_error e))"
  shows "triple (\<lambda>s. connects s = c) (ssh_attempts cfg k (Suc left))
    (\<lambda>_. tried k (k + left) c)
    (\<lambda>e s. tried k (k + left) c s \<and> (ss_attempts_used s = k + left \<or> \<not> is_retryable_connect_error e))"
    (is "triple _ _ ?Q ?E")
proof -
  have once_tried: "tried k (k + left) c s" if "counted k (Suc c) s" for s
    using that by (auto simp: counted_def tried_def)
  have handler: "triple (counted k (Suc c))
      (bnd (catch_when is_exception (bnd (ssh_close cfg False) (\<lambda>_. ret ()))
              (\<lambda>_. modify (\<lambda>s. s\<lparr>ss_client := False, ss_link := (ss_link s)\<lparr>lk_open := False\<rparr>\<rparr>))) (\<lambda>_.
       if left = 0 \<or> \<not> is_retryable_connect_error e then throw e
       else bnd (on_link (sleep t)) (\<lambda>_. ssh_attempts cfg (Suc k) left))) ?Q ?E" for e t
  proof (rule triple_bnd [where R = "\<lambda>_. counted k (Suc c)"])
    have close: "triple (counted k (Suc c)) (bnd (ssh_close cfg False) (\<lambda>_. ret ()))
        (\<lambda>_. counted k (Suc c)) (\<lambda>_. counted k (Suc c))"
      unfolding keeps_triple [symmetric] by (intro keeps_intros keeps_close_counted)
    show "triple (counted k (Suc c)) (catch_when is_exception (bnd (ssh_close cfg False) (\<lambda>_. ret ()))
              (\<lambda>_. modify (\<lambda>s. s\<lparr>ss_client := False, ss_link := (ss_link s)\<lparr>lk_open := False\<rparr>\<rparr>)))
        (\<lambda>_. counted k (Suc c)) ?E"
    proof (rule triple_catch [OF close])
      show "\<not> is_exception e \<Longrightarrow> counted k (Suc c) s \<Longrightarrow> ?E e s" for e s
        by (cases e) (simp_all add: once_tried)
    qed (auto intro: triple_modify)
  next
    show "triple (counted k (Suc c)) (if left = 0 \<or> \<not> is_retryable_connect_error e then throw e
       else bnd (on_link (sleep t)) (\<lambda>_. ssh_attempts cfg (Suc k) left)) ?Q ?E"
    proof (rule triple_if)
      assume "left = 0 \<or> \<not> is_retryable_connect_error e"
      then show "triple (counted k (Suc c)) (throw e) ?Q ?E"
        by (intro triple_throw) (auto simp: once_tried counted_def)
    next
      assume "\<not> (left = 0 \<or> \<not> is_retryable_connect_error e)"
      then show "triple (counted k (Suc c)) (bnd (on_link (sleep t)) (\<lambda>_. ssh_attempts cfg (Suc k) left)) ?Q ?E"
        by (intro triple_bnd [OF _ later])
          (auto simp: triple_def on_link_def sleep_def modify_def counted_def connects_def)
    qed
  qed
  show ?thesis
    unfolding ssh_attempts.simps
  proof (rule triple_bnd [where R = "\<lambda>_. counted k c"])
    show "triple (\<lambda>s. connects s = c) (modify (\<lambda>s. s\<lparr>ss_attempts_used := k, ss_client := True\<rparr>))
        (\<lambda>_. counted k c) ?E"
      by (rule triple_modify) (simp add: counted_def connects_def)
  next
    have new: "triple (counted k c) (call NewClient) (\<lambda>_. counted k c) ?E"
      by (auto simp: triple_def call_def on_calls_def modify_def counted_call)
    show "triple (counted k c) (bnd (call NewClient) (\<lambda>_.
       bnd (on_calls (configure_ssh_host_keys (sc_expanduser cfg) (sc_is_file cfg) (sc_known_hosts cfg) (sc_allow_unknown cfg))) (\<lambda>_.
       catch_when is_exception (ssh_connect_once cfg) (\<lambda>e.
       bnd (catch_when is_exception (bnd (ssh_close cfg False) (\<lambda>_. ret ()))
              (\<lambda>_. modify (\<lambda>s. s\<lparr>ss_client := False, ss_link := (ss_link s)\<lparr>lk_open := False\<rparr>\<rparr>))) (\<lambda>_.
       if left = 0 \<or> \<not> is_retryable_connect_error e then throw e
       else bnd (on_link (sleep (sc_backoff cfg * 2 ^ (k - 1)))) (\<lambda>_. ssh_attempts cfg (Suc k) left)))))) ?Q ?E"
    proof (rule triple_bnd [OF new], rule triple_bnd [OF triple_configure_counted [OF ok]],
        rule triple_catch [OF triple_conseq [OF triple_once_counted]])
      show "\<not> is_exception e \<Longrightarrow> counted k (Suc c) s \<Longrightarrow> ?E e s" for e s
        by (cases e) (simp_all add: once_tried)
    qed (assumption | rule handler | erule once_tried)+
  qed
qed

lemma triple_ssh_attempts:
  assumes "hosts_file_ok cfg"
  shows "triple (\<lambda>s. connects s = c) (ssh_attempts cfg k (Suc left))
    (\<lambda>_. tried k (k + left) c)
    (\<lambda>e s. tried k (k + left) c s \<and> (ss_attempts_used s = k + left \<or> \<not> is_retryable_connect_error e))"
proof (induction left arbitrary: k c)
  case 0
  show ?case by (rule triple_attempt_round [OF assms]) simp
next
  case (Suc left)
  show ?case
  proof (rule triple_attempt_round [OF assms])
    show "triple (\<lambda>s. connects s = Suc c) (ssh_attempts cfg (Suc k) (Suc left))
       (\<lambda>_. tried k (k + Suc left) c)
       (\<lambda>e s. tried k (k + Suc left) c s \<and> (ss_attempts_used s = k + Suc left \<or> \<not> is_retryable_connect_error e))"
      by (rule triple_conseq [OF Suc.IH]) (auto simp: tried_def)
  qed
qed

lemma connect_tries:
  assumes "ssh_connect cfg s = (r, s')" and "hosts_file_ok cfg" and "1 \<le> sc_attempts cfg"
    and "is_healthy s = (Inr False, s1)" and "sc_installed cfg"
  shows "1 \<le> ss_attempts_used s' \<and> ss_attempts_used s' \<le> nat (sc_attempts cfg) \<and>
    connects s' = connects s + ss_attempts_used s' \<and>
    (\<forall>e. r = Inl e \<longrightarrow> ss_attempts_used s' = nat (sc_attempts cfg) \<or> \<not> is_retryable_connect_error e)"
proof -
  obtain left where left: "nat (sc_attempts cfg) = Suc left" using assms(3) by (cases "nat (sc_attempts cfg)") auto
  have run: "ssh_attempts cfg 1 (Suc left) s1 = (r, s')"
    using assms(1,4,5) left by (simp add: ssh_connect_def bnd_def del: ssh_attempts.simps)
  have "connects s1 = connects s"
    using assms(4) by (auto simp: is_healthy_def connects_def split: if_splits list.splits)
  with triple_run [OF triple_ssh_attempts [OF assms(2), of "connects s" 1 left] _ run] left show ?thesis
    by (cases r) (auto simp: tried_def)
qed

section \<open>Lemmas: host-key policy\<close>

text \<open>The session has only connected behind a rejecting policy; and one is in force now.\<close>

definition guarded :: "ssh_session \<Rightarrow> bool" where
  "guarded s = guarded_calls False (ss_calls s)"

definition guarded_set :: "ssh_session \<Rightarrow> bool" where
  "guarded_set s = (guarded s \<and> policy_set False (ss_calls s))"

lemma guarded_update [simp]:
  "guarded (s\<lparr>ss_link := l\<rparr>) = guarded s" "guarded_set (s\<lparr>ss_link := l\<rparr>) = guarded_set s"
  "guarded (s\<lparr>ss_client := b\<rparr>) = guarded s" "guarded_set (s\<lparr>ss_client := b\<rparr>) = guarded_set s"
  "guarded (s\<lparr>ss_health := h\<rparr>) = guarded s" "guarded_set (s\<lparr>ss_health := h\<rparr>) = guarded_set s"
  "guarded (s\<lparr>ss_attempts_used := n\<rparr>) = guarded s"
  "guarded_set (s\<lparr>ss_connect_seconds := t\<rparr>) = guarded_set s"
  "guarded_set (s\<lparr>ss_banner_seconds := t\<rparr>) = guarded_set s"
  by (simp_all add: guarded_def guarded_set_def)

lemma guarded_call:
  "guarded s \<Longrightarrow> c \<in> {NewClient, CloseClient} \<Longrightarrow> guarded (s\<lparr>ss_calls := ss_calls s @ [c]\<rparr>)"
  "guarded_set s \<Longrightarrow> c = ClientConnect \<Longrightarrow> guarded_set (s\<lparr>ss_calls := ss_calls s @ [c]\<rparr>)"
  by (auto simp: guarded_def guarded_set_def guarded_calls_append policy_set_append)

lemma guarded_set_D: "guarded_set s \<Longrightarrow> guarded s"
  by (simp add: guarded_set_def)

lemma triple_configure_guarded:
  assumes "\<not> sc_allow_unknown cfg"
  shows "triple guarded
    (on_calls (configure_ssh_host_keys (sc_expanduser cfg) (sc_is_file cfg) (sc_known_hosts cfg) (sc_allow_unknown cfg)))
    (\<lambda>_. guarded_set) (\<lambda>_. guarded)"
  using assms
  by (auto simp: triple_def on_calls_def configure_ssh_host_keys_def bnd_def modify_def ret_def throw_def guard_not_def
      Let_def guarded_def guarded_set_def guarded_calls_append policy_set_append split: option.splits)

lemma keeps_once_guarded: "keeps guarded_set (ssh_connect_once cfg)"
  unfolding ssh_connect_once_def ssh_now_def
  by (intro keeps_intros keeps_on_link keeps_ssh_modify keeps_call guarded_call) simp_all

lemma keeps_close_guarded: "keeps guarded (ssh_close cfg logout)"
  by (rule keeps_ssh_close) (auto intro: guarded_call)

lemma keeps_attempts_guarded:
  assumes "\<not> sc_allow_unknown cfg"
  shows "keeps guarded (ssh_attempts cfg k n)"
proof (induction n arbitrary: k)
  case (Suc n)
  have once: "triple guarded_set (ssh_connect_once cfg) (\<lambda>_. guarded) (\<lambda>_. guarded)"
    by (rule triple_conseq [OF iffD1 [OF keeps_triple keeps_once_guarded]]) (assumption | erule guarded_set_D)+
  have body: "triple guarded (on_calls (configure_ssh_host_keys (sc_expanduser cfg) (sc_is_file cfg)
        (sc_known_hosts cfg) (sc_allow_unknown cfg))) (\<lambda>_. guarded_set) (\<lambda>_. guarded)"
    by (rule triple_configure_guarded [OF assms])
  have handler: "keeps guarded (bnd (catch_when is_exception (bnd (ssh_close cfg False) (\<lambda>_. ret ()))
              (\<lambda>_. modify (\<lambda>s. s\<lparr>ss_client := False, ss_link := (ss_link s)\<lparr>lk_open := False\<rparr>\<rparr>))) (\<lambda>_.
       if n = 0 \<or> \<not> is_retryable_connect_error e then throw e
       else bnd (on_link (sleep t)) (\<lambda>_. ssh_attempts cfg (Suc k) n)))" for e t
    by (intro keeps_intros keeps_close_guarded keeps_ssh_modify keeps_on_link Suc.IH) simp_all
  have rest: "triple guarded (bnd (on_calls (configure_ssh_host_keys (sc_expanduser cfg) (sc_is_file cfg)
        (sc_known_hosts cfg) (sc_allow_unknown cfg))) (\<lambda>_. catch_when is_exception (ssh_connect_once cfg) (\<lambda>e.
       bnd (catch_when is_exception (bnd (ssh_close cfg False) (\<lambda>_. ret ()))
              (\<lambda>_. modify (\<lambda>s. s\<lparr>ss_client := False, ss_link := (ss_link s)\<lparr>lk_open := False\<rparr>\<rparr>))) (\<lambda>_.
       if n = 0 \<or> \<not> is_retryable_connect_error e then throw e
       else bnd (on_link (sleep (sc_backoff cfg * 2 ^ (k - 1)))) (\<lambda>_. ssh_attempts cfg (Suc k) n)))))
       (\<lambda>_. guarded) (\<lambda>_. guarded)"
    by (rule triple_bnd [OF body], rule triple_catch [OF once]) (use handler in \<open>simp_all add: keeps_triple\<close>)
  show ?case
    unfolding ssh_attempts.simps
  proof (rule keeps_bnd [OF keeps_ssh_modify keeps_bnd [OF keeps_call]])
    show "guarded s \<Longrightarrow> guarded (s\<lparr>ss_attempts_used := k, ss_client := True\<rparr>)" for s by simp
    show "guarded s \<Longrightarrow> guarded (s\<lparr>ss_calls := ss_calls s @ [NewClient]\<rparr>)" for s by (simp add: guarded_call)
  qed (simp add: keeps_triple rest)
qed (simp add: keeps_ret)

lemma keeps_connect_guarded: "\<not> sc_allow_unknown cfg \<Longrightarrow> keeps guarded (ssh_connect cfg)"
  unfolding ssh_connect_def
  by (intro keeps_intros keeps_is_healthy keeps_attempts_guarded) simp_all

lemma keeps_run_guarded: "\<not> sc_allow_unknown cfg \<Longrightarrow> keeps guarded (ssh_client_run_commands cfg commands)"
  unfolding ssh_client_run_commands_def ssh_session_run_commands_def ssh_run_command_def ssh_now_def
  by (intro keeps_intros keeps_connect_guarded keeps_close_guarded keeps_on_link) simp_all

section \<open>Lemmas: what a session writes\<close>

definition ssh_line :: "string \<Rightarrow> string" where
  "ssh_line value = utf8_encode (value @ [nl])"

definition ssh_lines :: "string list \<Rightarrow> string set" where
  "ssh_lines commands = {[nl], ssh_line ''y'', ssh_line ''exit'', ''c''} \<union> ssh_line ` set commands"

interpretation ssh_writes: session_invariant "wrote_only (L0 \<union> ssh_lines commands)" "ssh_reader cfg"
  "L0 \<union> ssh_lines commands" for cfg commands L0
  by (rule session_invariant_writes) (auto simp: responses_in_def ssh_reader_def ssh_lines_def)

lemma ssh_newline: "utf8_encode (value @ rd_newline (ssh_reader cfg)) = ssh_line value"
  by (simp add: ssh_reader_def ssh_line_def)

definition ssh_wrote :: "string set \<Rightarrow> ssh_session \<Rightarrow> bool" where
  "ssh_wrote L s = wrote_only L (ss_link s)"

lemma ssh_wrote_update [simp]:
  "ssh_wrote L (s\<lparr>ss_client := b\<rparr>) = ssh_wrote L s" "ssh_wrote L (s\<lparr>ss_health := h\<rparr>) = ssh_wrote L s"
  "ssh_wrote L (s\<lparr>ss_attempts_used := n\<rparr>) = ssh_wrote L s" "ssh_wrote L (s\<lparr>ss_calls := c\<rparr>) = ssh_wrote L s"
  "ssh_wrote L (s\<lparr>ss_connect_seconds := t\<rparr>) = ssh_wrote L s"
  "ssh_wrote L (s\<lparr>ss_banner_seconds := t\<rparr>) = ssh_wrote L s"
  "ssh_wrote L (s\<lparr>ss_link := (ss_link s)\<lparr>lk_open := o'\<rparr>\<rparr>) = ssh_wrote L s"
  by (simp_all add: ssh_wrote_def)

lemma keeps_on_link_wrote: "keeps (wrote_only L) m \<Longrightarrow> keeps (ssh_wrote L) (on_link m)"
  by (fastforce simp: keeps_def on_link_def ssh_wrote_def split: prod.split)

lemma keeps_on_calls_wrote: "keeps (ssh_wrote L) (on_calls m)"
  by (simp add: keeps_def on_calls_def split: prod.split)

lemma ssh_line_mem [simp]:
  "utf8_encode (''exit'' @ [nl]) \<in> L0 \<union> ssh_lines commands" "utf8_encode (''y'' @ [nl]) \<in> L0 \<union> ssh_lines commands"
  "[nl] \<in> L0 \<union> ssh_lines commands"
  by (simp_all add: ssh_lines_def ssh_line_def)

lemma keeps_ssh_logout: "keeps (wrote_only (L0 \<union> ssh_lines commands)) (ssh_logout cfg)"
  unfolding ssh_logout_def ssh_read_available_def
  by (intro keeps_intros keeps_write_raw ssh_writes.keeps_read_available ssh_line_mem)

lemma keeps_ssh_close_wrote: "keeps (ssh_wrote (L0 \<union> ssh_lines commands)) (ssh_close cfg logout)"
  unfolding ssh_close_def call_def
  by (intro keeps_intros keeps_on_link_wrote keeps_ssh_logout keeps_ssh_modify keeps_modify keeps_on_calls_wrote) simp_all

lemma keeps_connect_step_wrote: "keeps (wrote_only L) connect_step"
  by (rule keeps_connect_step) simp_all

lemma keeps_once_wrote: "keeps (ssh_wrote (L0 \<union> ssh_lines commands)) (ssh_connect_once cfg)"
  unfolding ssh_connect_once_def ssh_now_def call_def ssh_read_until_ready_def
  by (intro keeps_intros keeps_on_link_wrote keeps_open_connection keeps_ssh_modify keeps_modify keeps_write_raw
      keeps_connect_step_wrote keeps_on_calls_wrote ssh_writes.keeps_read ssh_line_mem) simp_all

lemma keeps_attempts_wrote: "keeps (ssh_wrote (L0 \<union> ssh_lines commands)) (ssh_attempts cfg k n)"
proof (induction n arbitrary: k)
  case (Suc n)
  have "keeps (wrote_only (L0 \<union> ssh_lines commands)) (sleep t)" for t by (rule ssh_writes.keeps_sleep)
  then show ?case
    unfolding ssh_attempts.simps call_def
    by (intro keeps_intros keeps_on_link_wrote keeps_ssh_modify keeps_on_calls_wrote keeps_once_wrote
        keeps_ssh_close_wrote Suc.IH) (simp_all add: ssh_wrote_def)
qed (simp add: keeps_ret)

lemma keeps_connect_wrote: "keeps (ssh_wrote (L0 \<union> ssh_lines commands)) (ssh_connect cfg)"
  unfolding ssh_connect_def
  by (intro keeps_intros keeps_is_healthy keeps_attempts_wrote) simp

lemma keeps_ssh_run_wrote: "keeps (ssh_wrote (L0 \<union> ssh_lines commands)) (ssh_client_run_commands cfg commands)"
  unfolding ssh_client_run_commands_def ssh_session_run_commands_def ssh_run_command_def ssh_now_def
  by (intro keeps_intros keeps_connect_wrote keeps_ssh_close_wrote keeps_on_link_wrote keeps_for_each_mem
      ssh_writes.keeps_exchange_command)
    (simp_all only: ssh_newline, simp_all add: ssh_lines_def)

section \<open>Lemmas: what a connection leaves behind\<close>

definition connected :: "ssh_session \<Rightarrow> bool" where
  "connected s = (lk_open (ss_link s) \<and> ss_client s)"

definition torn_down :: "ssh_session \<Rightarrow> bool" where
  "torn_down s = (\<not> lk_open (ss_link s) \<and> \<not> ss_client s)"

interpretation ssh_open: session_invariant lk_open "ssh_reader cfg" UNIV for cfg
  by unfold_locales (auto simp: responses_in_def keeps_def write_raw_def split: list.split option.split)

lemma keeps_on_link_open: "keeps lk_open m \<Longrightarrow> keeps connected (on_link m)"
  by (fastforce simp: keeps_def on_link_def connected_def split: prod.split)

lemma triple_call_client: "triple ss_client (call c) (\<lambda>_. ss_client) E"
  by (simp add: triple_def call_def on_calls_def modify_def)

lemma triple_configure_client:
  assumes "hosts_file_ok cfg"
  shows "triple ss_client
    (on_calls (configure_ssh_host_keys (sc_expanduser cfg) (sc_is_file cfg) (sc_known_hosts cfg) (sc_allow_unknown cfg)))
    (\<lambda>_. ss_client) E"
  using assms
  by (auto simp: triple_def on_calls_def configure_ssh_host_keys_def bnd_def modify_def ret_def guard_not_def
      hosts_file_ok_def Let_def split: option.splits)

lemma triple_once_connected: "triple ss_client (ssh_connect_once cfg) (\<lambda>_. connected) (\<lambda>_ _. True)"
proof -
  have client: "keeps ss_client m \<Longrightarrow> triple ss_client m (\<lambda>_. ss_client) (\<lambda>_ _. True)" for m :: "(ssh_session, 'b) act"
    unfolding keeps_triple by (erule triple_conseq) simp_all
  have connect: "keeps ss_client (try_finally (bnd (call ClientConnect) (\<lambda>_. on_link connect_step))
      (bnd ssh_now (\<lambda>ended. modify (\<lambda>s. s\<lparr>ss_connect_seconds := ss_connect_seconds s + (ended - t)\<rparr>))))" for t
    unfolding ssh_now_def by (intro keeps_intros keeps_call keeps_on_link keeps_ssh_modify) simp_all
  have shell: "triple ss_client (on_link open_connection) (\<lambda>_. connected) (\<lambda>_ _. True)"
    by (auto simp: triple_def on_link_def open_connection_def bnd_def modify_def connected_def
        split: prod.splits sum.splits)
  have banner: "keeps connected (bnd ssh_now (\<lambda>started.
     bnd (on_link (write_raw [nl])) (\<lambda>_.
     bnd (on_link (ssh_read_until_ready cfg None [])) (\<lambda>(_, _, prompt).
     bnd (on_link (modify (\<lambda>l. l\<lparr>lk_prompt := prompt\<rparr>))) (\<lambda>_.
     bnd ssh_now (\<lambda>ended. modify (\<lambda>s. s\<lparr>ss_banner_seconds := ss_banner_seconds s + (ended - started)\<rparr>)))))))"
    unfolding ssh_now_def ssh_read_until_ready_def
    by (intro keeps_intros keeps_on_link_open keeps_ssh_modify ssh_open.writes ssh_open.keeps_read keeps_modify)
      (simp_all add: connected_def)
  have now: "keeps ss_client ssh_now" unfolding ssh_now_def by (rule keeps_gets)
  show ?thesis
    unfolding ssh_connect_once_def
    by (rule triple_bnd [OF client [OF now]], rule triple_bnd [OF client [OF connect]], rule triple_bnd [OF shell],
        rule triple_conseq [OF iffD1 [OF keeps_triple banner]]) simp_all
qed

lemma triple_close_torn:
  "triple P (ssh_close cfg False) (\<lambda>_. torn_down) (\<lambda>_. torn_down)"
  by (auto simp: triple_def ssh_close_def act_simps bnd_def try_finally_def on_link_def call_def on_calls_def
      torn_down_def)

lemma triple_attempts_left:
  assumes ok: "hosts_file_ok cfg"
  shows "triple (\<lambda>_. True) (ssh_attempts cfg k (Suc left)) (\<lambda>_. connected) (\<lambda>e s. is_exception e \<longrightarrow> torn_down s)"
    (is "triple _ _ ?Q ?E")
proof (induction left arbitrary: k rule: nat_less_induct)
  case (1 left)
  have close: "triple (\<lambda>_. True) (bnd (ssh_close cfg False) (\<lambda>_. ret ())) (\<lambda>_. torn_down) (\<lambda>_. torn_down)"
    by (rule triple_bnd [OF triple_close_torn]) (rule triple_ret)
  have again: "triple torn_down (if left = 0 \<or> \<not> is_retryable_connect_error e then throw e
       else bnd (on_link (sleep t)) (\<lambda>_. ssh_attempts cfg (Suc k) left)) ?Q ?E" for e t
  proof (cases left)
    case (Suc l)
    with "1.IH" have IH: "triple (\<lambda>_. True) (ssh_attempts cfg (Suc k) left) ?Q ?E" by blast
    have "triple torn_down (on_link (sleep t)) (\<lambda>_ _. True) ?E"
      by (simp add: triple_def on_link_def sleep_def modify_def)
    from triple_bnd [OF this IH] show ?thesis
      by (auto intro!: triple_if triple_throw)
  qed (simp add: triple_throw)
  have handler: "triple (\<lambda>_. True) (bnd (catch_when is_exception (bnd (ssh_close cfg False) (\<lambda>_. ret ()))
              (\<lambda>_. modify (\<lambda>s. s\<lparr>ss_client := False, ss_link := (ss_link s)\<lparr>lk_open := False\<rparr>\<rparr>))) (\<lambda>_.
       if left = 0 \<or> \<not> is_retryable_connect_error e then throw e
       else bnd (on_link (sleep t)) (\<lambda>_. ssh_attempts cfg (Suc k) left))) ?Q ?E" for e t
    by (rule triple_bnd [OF _ again], rule triple_catch [OF close])
      (auto intro: triple_modify simp: torn_down_def)
  have start: "triple (\<lambda>_. True) (modify (\<lambda>s. s\<lparr>ss_attempts_used := k, ss_client := True\<rparr>)) (\<lambda>_. ss_client) ?E"
    by (rule triple_modify) simp
  show ?case
    unfolding ssh_attempts.simps
    by (rule triple_bnd [OF start], rule triple_bnd [OF triple_call_client],
        rule triple_bnd [OF triple_configure_client [OF ok]], rule triple_catch [OF triple_once_connected], rule handler, simp)
qed

lemma connect_leaves:
  assumes "ssh_connect cfg s = (r, s')" and "hosts_file_ok cfg" and "1 \<le> sc_attempts cfg"
    and "is_healthy s = (Inr False, s1)" and "sc_installed cfg"
  shows "(r = Inr () \<longrightarrow> connected s') \<and> (\<forall>e. r = Inl e \<and> is_exception e \<longrightarrow> torn_down s')"
proof -
  obtain left where left: "nat (sc_attempts cfg) = Suc left" using assms(3) by (cases "nat (sc_attempts cfg)") auto
  have "ssh_attempts cfg 1 (Suc left) s1 = (r, s')"
    using assms(1,4,5) left by (simp add: ssh_connect_def bnd_def del: ssh_attempts.simps)
  from triple_run [OF triple_attempts_left [OF assms(2)] _ this] show ?thesis by (cases r) auto
qed

lemma keeps_close_channel: "triple P (ssh_close cfg logout) (\<lambda>_. torn_down) (\<lambda>_ s. \<not> lk_open (ss_link s))"
proof -
  have link: "on_link m s = (r, s') \<Longrightarrow> ss_client s' = ss_client s" for m :: "(session, 'b) act" and r s s'
    by (auto simp: on_link_def split: prod.splits)
  show ?thesis
    by (auto simp: triple_def ssh_close_def gets_def bnd_def ret_def modify_def try_finally_def call_def on_calls_def
      on_link_def torn_down_def split: prod.splits sum.splits if_splits)
qed

lemma ssh_run_ends:
  assumes "ssh_client_run_commands cfg commands s = (r, s')" and "torn_down s"
  shows "case r of Inr _ \<Rightarrow> torn_down s' | Inl _ \<Rightarrow> \<not> lk_open (ss_link s')"
proof -
  have check: "triple torn_down (lift (ssh_check cfg)) (\<lambda>_. torn_down) (\<lambda>_ s. \<not> lk_open (ss_link s))"
    by (rule triple_lift) (simp_all add: torn_down_def)
  have "triple torn_down (ssh_client_run_commands cfg commands) (\<lambda>_. torn_down) (\<lambda>_ s. \<not> lk_open (ss_link s))"
    unfolding ssh_client_run_commands_def
    by (rule triple_bnd [OF check], rule triple_bnd, rule triple_finally [OF triple_any])
      (auto intro: keeps_close_channel triple_ret triple_conseq [OF keeps_close_channel] simp: torn_down_def)
  from triple_run [OF this assms(2,1)] show ?thesis .
qed

lemma ssh_run_command_runs:
  "ssh_session_run_commands cfg commands s = (Inr outs, s') \<Longrightarrow> map out_command outs = commands"
  unfolding ssh_session_run_commands_def
  by (auto simp: bnd_eq_Inr ret_run dest!: for_each_map [where g = out_command and h = "\<lambda>c. c"])

lemma ssh_run_order:
  "ssh_client_run_commands cfg commands s = (r, s') \<Longrightarrow> r = Inr outs \<Longrightarrow> map out_command outs = commands"
  unfolding ssh_client_run_commands_def
  by (fastforce simp: bnd_eq_Inr ret_run dest!: finally_Inr dest: ssh_run_command_runs)

section \<open>Properties\<close>


definition demo_ssh :: ssh_config where
  "demo_ssh = \<lparr>sc_timeout = 5, sc_timeout_text = ''5'', sc_attempts = 2, sc_backoff = 1, sc_known_hosts = None,
     sc_allow_unknown = False, sc_installed = True, sc_expanduser = id, sc_is_file = (\<lambda>_. False), sc_decode = id\<rparr>"

definition demo_link :: session where
  "demo_link = \<lparr>lk_open = False, lk_up = False, lk_prompt = None, lk_buffer = [], lk_time = 0,
     lk_script = [(0, Chunk ''R#''), (0, Chunk (''v'' @ [nl] @ ''1.2'' @ [nl] @ ''R#''))], lk_sent = [],
     lk_faults = [], lk_connects = [(1, Some (ConnectionError ''refused'')), (1, None)]\<rparr>"


text \<open>C20. Host keys: a client that may not accept unknown host keys never calls \<open>connect\<close> on a paramiko
  client without having first set the rejecting policy on that client, on whatever path the run takes.\<close>

theorem ssh_host_keys_enforced:
  assumes "ssh_client_run_commands cfg commands (new_ssh_session link health) = (r, s')"
    and "\<not> sc_allow_unknown cfg"
  shows "guarded_calls False (ss_calls s')"
  using keepsD [OF keeps_run_guarded [OF assms(2)] assms(1)] by (simp add: guarded_def new_ssh_session_def)

lemma ssh_host_keys_enforced_witness:
  "guarded_calls False (ss_calls (snd (ssh_client_run_commands demo_ssh [''v''] (new_ssh_session demo_link []))))"
  by (rule ssh_host_keys_enforced [OF prod.collapse [symmetric]]) (simp add: demo_ssh_def)

text \<open>C25. What an SSH run may write: whatever the other end sends and wherever the run fails, it writes only
  the given commands, the newline that wakes the prompt, the confirmation \<open>y\<close>, the pager key \<open>c\<close>
  and \<open>exit\<close>; it always ends with the channel closed, and with the client closed too when it succeeds.\<close>

theorem ssh_run_confined:
  assumes "ssh_client_run_commands cfg commands (new_ssh_session link health) = (r, s')"
  shows "set (lk_sent (ss_link s')) \<subseteq> set (lk_sent link) \<union> ssh_lines commands \<and> \<not> lk_open (ss_link s') \<and>
    (\<forall>outs. r = Inr outs \<longrightarrow> torn_down s' \<and> map out_command outs = commands)"
proof -
  have sent: "set (lk_sent (ss_link s')) \<subseteq> set (lk_sent link) \<union> ssh_lines commands"
    using keepsD [OF keeps_ssh_run_wrote assms, of "set (lk_sent link)"]
    by (simp add: ssh_wrote_def wrote_only_def new_ssh_session_def)
  show ?thesis
    using sent ssh_run_ends [OF assms] ssh_run_order [OF assms] by (auto simp: new_ssh_session_def torn_down_def split: sum.splits)
qed

lemma ssh_run_confined_witness:
  "set (lk_sent (ss_link (snd (ssh_client_run_commands demo_ssh [''v''] (new_ssh_session demo_link []))))) \<subseteq>
     set (lk_sent demo_link) \<union> ssh_lines [''v''] \<and>
   torn_down (snd (ssh_client_run_commands demo_ssh [''v''] (new_ssh_session demo_link []))) \<and>
   (\<exists>outs. fst (ssh_client_run_commands demo_ssh [''v''] (new_ssh_session demo_link [])) = Inr outs \<and>
      map out_command outs = [''v''])"
proof -
  have "is_ok (fst (ssh_client_run_commands demo_ssh [''v''] (new_ssh_session demo_link [])))" by code_simp
  then obtain outs where "fst (ssh_client_run_commands demo_ssh [''v''] (new_ssh_session demo_link [])) = Inr outs"
    by (auto simp: is_ok_iff)
  then show ?thesis
    using ssh_run_confined [OF prod.collapse [symmetric], of demo_ssh "[''v'']" demo_link "[]"] by auto
qed

end
