(* ===== verification/IpAddress.thy ===== *)
theory IpAddress
  imports PyText
begin

text \<open>
  \<open>ipaddress.ip_address(text)\<close> and \<open>str\<close> of its result, as the standard library of Python
  3.11 and 3.12 has them. An address is the list of its octets or of its hextets; an IPv6 address may carry a
  scope. Printing and parsing are inverse on valid addresses, so normalizing an address is idempotent.
\<close>

datatype ip_address = IPv4 "nat list" | IPv6 "nat list" "string option"

section \<open>Parsing\<close>

definition octet :: "string \<Rightarrow> unit + nat" where
  "octet s =
     (if s \<noteq> [] \<and> list_all is_digit s \<and> length s \<le> 3 \<and> (s = ''0'' \<or> hd s \<noteq> CHR ''0'') \<and> nat_of_digits s \<le> 255
      then Inr (nat_of_digits s) else Inl ())"

definition parse_ipv4 :: "string \<Rightarrow> unit + nat list" where
  "parse_ipv4 s =
     (let octets = split_char (CHR ''.'') s
      in if CHR ''/'' \<in> set s \<or> length octets \<noteq> 4 then Inl () else traverse octet octets)"

definition hex_value :: "char \<Rightarrow> nat" where
  "hex_value c = (if is_digit c then digit_value c else if is_upper_ascii c then code_point c - 55 else code_point c - 87)"

definition is_hextet_char :: "char \<Rightarrow> bool" where
  "is_hextet_char c = (is_digit c \<or> (65 \<le> code_point c \<and> code_point c \<le> 70) \<or> (97 \<le> code_point c \<and> code_point c \<le> 102))"

definition hextet :: "string \<Rightarrow> unit + nat" where
  "hextet s =
     (if s \<noteq> [] \<and> list_all is_hextet_char s \<and> length s \<le> 4 then Inr (foldl (\<lambda>n c. 16 * n + hex_value c) 0 s) else Inl ())"

fun hex_text :: "nat \<Rightarrow> string" where
  "hex_text n = (if n < 16 then [hex_digit n] else hex_text (n div 16) @ [hex_digit (n mod 16)])"

declare hex_text.simps [simp del]

definition embed_ipv4 :: "string list \<Rightarrow> unit + string list" where
  "embed_ipv4 parts =
     (if CHR ''.'' \<in> set (last parts)
      then and_then (parse_ipv4 (last parts)) (\<lambda>v.
           Inr (butlast parts @ [hex_text (256 * v ! 0 + v ! 1), hex_text (256 * v ! 2 + v ! 3)]))
      else Inr parts)"

text \<open>The hextets of the parts between the colons; an empty inner part is the \<open>::\<close>.\<close>

definition hextets_of_parts :: "string list \<Rightarrow> unit + nat list" where
  "hextets_of_parts parts =
     (case filter (\<lambda>i. parts ! i = []) [1..<length parts - 1] of
        [] \<Rightarrow> if length parts \<noteq> 8 \<or> hd parts = [] \<or> last parts = [] then Inl () else traverse hextet parts
      | [skip] \<Rightarrow>
          let high = (if hd parts = [] then [] else take skip parts);
              low = (if last parts = [] then [] else drop (Suc skip) parts)
          in if (hd parts = [] \<and> skip \<noteq> 1) \<or> (last parts = [] \<and> skip + 2 \<noteq> length parts) \<or>
               7 < length high + length low then Inl ()
             else and_then (traverse hextet high) (\<lambda>h. and_then (traverse hextet low) (\<lambda>l.
                  Inr (h @ replicate (8 - (length high + length low)) 0 @ l)))
      | _ \<Rightarrow> Inl ())"

definition parse_ipv6_number :: "string \<Rightarrow> unit + nat list" where
  "parse_ipv6_number s =
     (let parts = split_char (CHR '':'') s
      in if length parts < 3 then Inl ()
         else and_then (embed_ipv4 parts) (\<lambda>parts.
              if 9 < length parts then Inl () else hextets_of_parts parts))"

definition parse_ipv6 :: "string \<Rightarrow> unit + ip_address" where
  "parse_ipv6 s =
     (if CHR ''/'' \<in> set s then Inl ()
      else case split_once ''%'' s of
             None \<Rightarrow> and_then (parse_ipv6_number s) (\<lambda>v. Inr (IPv6 v None))
           | Some (address, scope) \<Rightarrow>
               if scope = [] \<or> CHR ''%'' \<in> set scope then Inl ()
               else and_then (parse_ipv6_number address) (\<lambda>v. Inr (IPv6 v (Some scope))))"

definition parse_ip :: "string \<Rightarrow> ip_address option" where
  "parse_ip s =
     (case parse_ipv4 s of
        Inr v \<Rightarrow> Some (IPv4 v)
      | Inl _ \<Rightarrow> (case parse_ipv6 s of Inr a \<Rightarrow> Some a | Inl _ \<Rightarrow> None))"

section \<open>Printing\<close>

text \<open>The first longest run of zero hextets: its start and length. \<open>cur\<close> is the length of the run that
  ends before index \<open>i\<close>.\<close>

fun best_zero_run :: "nat \<Rightarrow> nat \<Rightarrow> nat \<Rightarrow> nat \<Rightarrow> nat list \<Rightarrow> nat \<times> nat" where
  "best_zero_run i cur start len [] = (start, len)"
| "best_zero_run i cur start len (h # hs) =
     (if h \<noteq> 0 then best_zero_run (Suc i) 0 start len hs
      else if len < Suc cur then best_zero_run (Suc i) (Suc cur) (i - cur) (Suc cur) hs
      else best_zero_run (Suc i) (Suc cur) start len hs)"

definition compress_hextets :: "nat list \<Rightarrow> string list" where
  "compress_hextets hs =
     (case best_zero_run 0 0 0 0 hs of
        (start, len) \<Rightarrow>
          if 1 < len
          then (if start = 0 then [[]] else []) @ map hex_text (take start hs) @ [[]] @
               map hex_text (drop (start + len) hs) @ (if start + len = length hs then [[]] else [])
          else map hex_text hs)"

definition ip_text :: "ip_address \<Rightarrow> string" where
  "ip_text a =
     (case a of
        IPv4 v \<Rightarrow> join ''.'' (map str_of_nat v)
      | IPv6 hs scope \<Rightarrow> join '':'' (compress_hextets hs) @
          (case scope of None \<Rightarrow> [] | Some z \<Rightarrow> CHR ''%'' # z))"

definition ip_valid :: "ip_address \<Rightarrow> bool" where
  "ip_valid a =
     (case a of
        IPv4 v \<Rightarrow> length v = 4 \<and> list_all (\<lambda>n. n \<le> 255) v
      | IPv6 hs scope \<Rightarrow> length hs = 8 \<and> list_all (\<lambda>n. n < 65536) hs \<and>
          (case scope of None \<Rightarrow> True | Some z \<Rightarrow> z \<noteq> [] \<and> CHR ''%'' \<notin> set z \<and> CHR ''/'' \<notin> set z))"

section \<open>Lemmas: splitting\<close>

lemma split_char_keeps: "x \<in> set s \<Longrightarrow> x \<noteq> c \<Longrightarrow> \<exists>w \<in> set (split_char c s). x \<in> set w"
  by (induction s) (auto split: list.split)

section \<open>Lemmas: digits\<close>

lemma length_str_of_nat: "n \<le> 255 \<Longrightarrow> length (str_of_nat n) \<le> 3"
  by (subst str_of_nat.simps, subst str_of_nat.simps, subst str_of_nat.simps) auto

lemma hd_str_of_nat: "0 < n \<Longrightarrow> hd (str_of_nat n) \<noteq> CHR ''0''"
proof (induction n rule: str_of_nat.induct)
  case (1 n)
  show ?case
  proof (cases "n < 10")
    case True
    have "code_point (CHR ''0'') = 48" by simp
    moreover have "code_point (digit_char n) = 48 + n" using True by (rule code_point_digit_char)
    ultimately have "digit_char n \<noteq> CHR ''0''" using "1.prems" by force
    with True show ?thesis by (simp add: str_of_nat.simps [of n])
  next
    case False
    then show ?thesis using 1 digits_of_nat [of "n div 10"] by (simp add: str_of_nat.simps [of n])
  qed
qed

lemma octet_str_of_nat: "n \<le> 255 \<Longrightarrow> octet (str_of_nat n) = Inr n"
  using digits_of_nat [of n] length_str_of_nat [of n] hd_str_of_nat [of n] nat_of_digits_of_nat [of n]
  by (cases "n = 0") (auto simp: octet_def str_of_nat.simps [of 0] digit_char_def)

lemma hex_digit_facts:
  "d < 16 \<Longrightarrow> is_hextet_char (hex_digit d)" "d < 16 \<Longrightarrow> hex_value (hex_digit d) = d"
  by (auto simp: is_hextet_char_def hex_digit_def is_digit_def hex_value_def digit_value_def is_upper_ascii_def)

lemma hex_text_facts: "list_all is_hextet_char (hex_text n) \<and> hex_text n \<noteq> [] \<and>
    foldl (\<lambda>n c. 16 * n + hex_value c) 0 (hex_text n) = n"
proof (induction n rule: hex_text.induct)
  case (1 n)
  show ?case
  proof (cases "n < 16")
    case True
    then show ?thesis by (simp add: hex_text.simps [of n] hex_digit_facts)
  next
    case False
    then show ?thesis using 1 hex_digit_facts [of "n mod 16"] by (simp add: hex_text.simps [of n])
  qed
qed

lemma length_hex_text: "n < 65536 \<Longrightarrow> length (hex_text n) \<le> 4"
  by (subst hex_text.simps, subst hex_text.simps, subst hex_text.simps, subst hex_text.simps) auto

lemma hextet_hex_text: "n < 65536 \<Longrightarrow> hextet (hex_text n) = Inr n"
  using hex_text_facts [of n] length_hex_text [of n] by (simp add: hextet_def)

lemma hextet_bound: "hextet s = Inr n \<Longrightarrow> n < 65536"
proof -
  assume n: "hextet s = Inr n"
  have digit: "hex_value c < 16" if "is_hextet_char c" for c
    using that by (auto simp: is_hextet_char_def hex_value_def digit_value_def is_digit_def is_upper_ascii_def)
  have "list_all is_hextet_char w \<Longrightarrow> foldl (\<lambda>n c. 16 * n + hex_value c) m w < (m + 1) * 16 ^ length w" for w m
  proof (induction w arbitrary: m)
    case (Cons c w)
    have "foldl (\<lambda>n c. 16 * n + hex_value c) (16 * m + hex_value c) w < (16 * m + hex_value c + 1) * 16 ^ length w"
      using Cons by simp
    also have "\<dots> \<le> (16 * m + 16) * 16 ^ length w" using digit [of c] Cons.prems by (intro mult_right_mono) auto
    finally show ?case by (simp add: algebra_simps)
  qed simp
  from this [of s 0] n have "n < 16 ^ length s" "length s \<le> 4" by (auto simp: hextet_def split: if_splits)
  then have "n < 16 ^ 4" by (meson less_le_trans one_le_numeral power_increasing)
  then show ?thesis by simp
qed

section \<open>Lemmas: zero runs\<close>

lemma best_zero_run_spec:
  assumes "best_zero_run (length pre) cur start len hs = (s, l)" and "cur \<le> length pre"
    and "drop (length pre - cur) pre = replicate cur 0"
    and "start + len \<le> length pre" and "take len (drop start pre) = replicate len 0"
  shows "s + l \<le> length (pre @ hs) \<and> take l (drop s (pre @ hs)) = replicate l 0"
  using assms
proof (induction hs arbitrary: pre cur start len)
  case (Cons h hs)
  let ?pre = "pre @ [h]"
  have keep: "start + len \<le> length ?pre" "take len (drop start ?pre) = replicate len 0"
    using Cons.prems(4,5) by auto
  have run: "drop (length ?pre - Suc cur) ?pre = replicate (Suc cur) 0" if "h = 0"
    using that Cons.prems(2,3) by (simp add: replicate_append_same)
  show ?case
  proof (cases "h = 0")
    case False
    with Cons.IH [of ?pre 0 start len] Cons.prems(1) keep show ?thesis by simp
  next
    case True
    note run = run [OF True]
    show ?thesis
    proof (cases "len < Suc cur")
      case True
      have "take (Suc cur) (drop (length pre - cur) ?pre) = replicate (Suc cur) 0"
        using run Cons.prems(2) by simp
      with Cons.IH [of ?pre "Suc cur" "length pre - cur" "Suc cur"] Cons.prems(1,2) run True \<open>h = 0\<close>
      show ?thesis by simp
    next
      case False
      with Cons.IH [of ?pre "Suc cur" start len] Cons.prems(1,2) run keep \<open>h = 0\<close> show ?thesis by simp
    qed
  qed
qed simp

lemma filter_upt_single:
  assumes "a \<le> k" and "k < b" and "\<And>i. a \<le> i \<Longrightarrow> i < b \<Longrightarrow> P i \<longleftrightarrow> i = k"
  shows "filter P [a..<b] = [k]"
proof -
  have "[a..<b] = [a..<k] @ [k] @ [Suc k..<b]"
    using assms(1,2) upt_add_eq_append [of a k "b - k"] by (simp add: upt_conv_Cons)
  moreover have "filter P [a..<k] = []" "filter P [Suc k..<b] = []" "P k"
    using assms by (auto simp: filter_empty_conv)
  ultimately show ?thesis by simp
qed

section \<open>Lemmas: printing then parsing\<close>

lemma parts_of_compressed:
  assumes "length hs = 8" and "list_all (\<lambda>n. n < 65536) hs"
  shows "hextets_of_parts (compress_hextets hs) = Inr hs"
proof -
  obtain s l where run: "best_zero_run 0 0 0 0 hs = (s, l)" by (cases "best_zero_run 0 0 0 0 hs")
  have spec: "s + l \<le> length hs" "take l (drop s hs) = replicate l 0"
    using best_zero_run_spec [of "[]" 0 0 0 hs s l] run by simp_all
  have texts: "traverse hextet (map hex_text ns) = Inr ns" if "list_all (\<lambda>n. n < 65536) ns" for ns
    using that by (induction ns) (simp_all add: hextet_hex_text)
  have nonempty: "hex_text n \<noteq> []" for n using hex_text_facts [of n] by simp
  show ?thesis
  proof (cases "1 < l")
    case False
    have "filter (\<lambda>i. map hex_text hs ! i = []) [1..<8 - 1] = []"
      using assms(1) by (auto simp: filter_empty_conv nonempty)
    then have "hextets_of_parts (map hex_text hs) = Inr hs"
      using assms texts [OF assms(2)] by (cases hs) (auto simp: hextets_of_parts_def nonempty last_map)
    with False run show ?thesis by (simp add: compress_hextets_def)
  next
    case True
    let ?A = "map hex_text (take s hs)" and ?B = "map hex_text (drop (s + l) hs)"
    let ?pa = "if s = 0 then [[]] else []" and ?pb = "if s + l = 8 then [[]] else []"
    let ?parts = "?pa @ ?A @ [[]] @ ?B @ ?pb"
    let ?k = "if s = 0 then 1 else s"
    have lenA: "length ?A = s" and lenB: "length ?B = 8 - (s + l)" using assms(1) spec(1) by auto
    have split: "hs = take s hs @ replicate l 0 @ drop (s + l) hs"
      using spec(2) by (metis append_take_drop_id drop_drop add.commute)
    have len: "length ?parts = length ?pa + s + 1 + (8 - (s + l)) + length ?pb" using lenA lenB by simp
    have k: "?k = length ?pa + s" by simp
    have at: "?parts ! i = [] \<longleftrightarrow> i = ?k" if "1 \<le> i" "i < length ?parts - 1" for i
      using that lenA lenB spec(1) assms(1) by (auto simp: nth_append nth_Cons' nonempty split: if_splits)
    have "?k < length ?parts - 1" using spec(1) assms(1) len by (simp split: if_splits)
    moreover have "1 \<le> ?k" by simp
    ultimately have only: "filter (\<lambda>i. ?parts ! i = []) [1..<length ?parts - 1] = [?k]"
      using at by (intro filter_upt_single)
    have hd: "hd ?parts = [] \<longleftrightarrow> s = 0" using assms(1) by (cases hs) (auto simp: nonempty hd_append take_Cons')
    have last: "last ?parts = [] \<longleftrightarrow> s + l = 8"
      using spec(1) assms(1) by (auto simp: nonempty last_append last_map)
    have high: "(if hd ?parts = [] then [] else take ?k ?parts) = ?A"
      unfolding hd using lenA by simp
    have low: "(if last ?parts = [] then [] else drop (Suc ?k) ?parts) = ?B"
      unfolding last using lenA lenB assms(1) by simp
    have bad: "\<not> ((hd ?parts = [] \<and> ?k \<noteq> 1) \<or> (last ?parts = [] \<and> ?k + 2 \<noteq> length ?parts) \<or> 7 < length ?A + length ?B)"
      unfolding hd last lenA lenB len using spec(1) assms(1) True by auto
    have small: "list_all (\<lambda>n. n < 65536) (take s hs)" "list_all (\<lambda>n. n < 65536) (drop (s + l) hs)"
      using assms(2) by (auto simp: list_all_iff dest: in_set_takeD in_set_dropD)
    have gap: "8 - (length ?A + length ?B) = l" unfolding lenA lenB using spec(1) assms(1) by simp
    have "hextets_of_parts ?parts = Inr (take s hs @ replicate l 0 @ drop (s + l) hs)"
      unfolding hextets_of_parts_def only list.case Let_def high low if_not_P [OF bad] gap
      by (simp only: texts small and_then_Inr)
    then show ?thesis
      using split True run assms(1) by (simp add: compress_hextets_def)
  qed
qed

lemma hextet_char_plain: "is_hextet_char c \<Longrightarrow> c \<noteq> CHR '':'' \<and> c \<noteq> CHR ''.'' \<and> c \<noteq> CHR ''/'' \<and> c \<noteq> CHR ''%''"
  by (auto simp: is_hextet_char_def is_digit_def)

lemma set_compressed: "w \<in> set (compress_hextets hs) \<Longrightarrow> list_all is_hextet_char w"
  using hex_text_facts
  by (auto simp: compress_hextets_def split: prod.splits if_splits)

lemma compressed_plain:
  "w \<in> set (compress_hextets hs) \<Longrightarrow>
   CHR '':'' \<notin> set w \<and> CHR ''.'' \<notin> set w \<and> CHR ''/'' \<notin> set w \<and> CHR ''%'' \<notin> set w"
  using set_compressed [of w hs] hextet_char_plain by (fastforce simp: list_all_iff)

lemma compressed_length:
  assumes "length hs = 8"
  shows "3 \<le> length (compress_hextets hs) \<and> length (compress_hextets hs) \<le> 9"
proof -
  obtain s l where run: "best_zero_run 0 0 0 0 hs = (s, l)" by (cases "best_zero_run 0 0 0 0 hs")
  have "s + l \<le> length hs" using best_zero_run_spec [of "[]" 0 0 0 hs s l] run by simp
  with assms run show ?thesis by (auto simp: compress_hextets_def)
qed

lemma parse_compressed:
  assumes "length hs = 8" and "list_all (\<lambda>n. n < 65536) hs"
  shows "parse_ipv6_number (join '':'' (compress_hextets hs)) = Inr hs"
proof -
  have ne: "compress_hextets hs \<noteq> []" using compressed_length [OF assms(1)] by auto
  have "split_char (CHR '':'') (join '':'' (compress_hextets hs)) = compress_hextets hs"
    using ne compressed_plain by (intro split_char_join) auto
  moreover have "embed_ipv4 (compress_hextets hs) = Inr (compress_hextets hs)"
    using ne compressed_plain [OF last_in_set [OF ne]] by (simp add: embed_ipv4_def)
  ultimately show ?thesis
    using compressed_length [OF assms(1)] parts_of_compressed [OF assms] by (simp add: parse_ipv6_number_def)
qed

lemma compressed_text_plain:
  "CHR ''/'' \<notin> set (join '':'' (compress_hextets hs)) \<and> CHR ''%'' \<notin> set (join '':'' (compress_hextets hs))"
  using join_chars [of "'':''" "compress_hextets hs"] compressed_plain [of _ hs] by fastforce

lemma join_has_sep: "2 \<le> length ws \<Longrightarrow> c \<in> set (join [c] ws)"
  by (cases ws rule: remdups_adj.cases) simp_all

lemma colon_in_compressed: "length hs = 8 \<Longrightarrow> CHR '':'' \<in> set (join '':'' (compress_hextets hs))"
  using compressed_length [of hs] join_has_sep [of "compress_hextets hs" "CHR '':''"] by simp

lemma not_ipv4: "CHR '':'' \<in> set s \<Longrightarrow> \<exists>u. parse_ipv4 s = Inl u"
proof -
  assume "CHR '':'' \<in> set s"
  then obtain w where w: "w \<in> set (split_char (CHR ''.'') s)" "CHR '':'' \<in> set w"
    using split_char_keeps [of "CHR '':''" s "CHR ''.''"] by auto
  then have "\<not> list_all is_digit w" by (force simp: list_all_iff is_digit_def)
  then have "\<not> is_ok (octet w)" by (simp add: octet_def)
  then have "\<not> is_ok (traverse octet (split_char (CHR ''.'') s))" by (rule traverse_not_Inr [OF w(1)])
  then show ?thesis by (cases "traverse octet (split_char (CHR ''.'') s)") (auto simp: parse_ipv4_def Let_def)
qed

lemma parse_ip_text:
  assumes "ip_valid a"
  shows "parse_ip (ip_text a) = Some a"
proof (cases a)
  case (IPv4 v)
  have plain: "CHR ''.'' \<notin> set (str_of_nat n) \<and> CHR ''/'' \<notin> set (str_of_nat n)" for n
    using digits_of_nat [of n] by (auto simp: list_all_iff is_digit_def)
  have v: "length v = 4" "list_all (\<lambda>n. n \<le> 255) v" using assms IPv4 by (simp_all add: ip_valid_def)
  then have "split_char (CHR ''.'') (join ''.'' (map str_of_nat v)) = map str_of_nat v"
    using plain by (intro split_char_join) auto
  moreover have "CHR ''/'' \<notin> set (join ''.'' (map str_of_nat v))"
    using join_chars [of "''.''" "map str_of_nat v"] plain by auto
  moreover have "traverse octet (map str_of_nat v) = Inr v"
    using v(2) by (induction v) (simp_all add: octet_str_of_nat)
  ultimately show ?thesis using v IPv4 by (simp add: parse_ip_def parse_ipv4_def ip_text_def)
next
  case (IPv6 hs scope)
  have hs: "length hs = 8" "list_all (\<lambda>n. n < 65536) hs" using assms IPv6 by (simp_all add: ip_valid_def)
  have "parse_ipv6 (ip_text a) = Inr a"
  proof (cases scope)
    case None
    then show ?thesis using hs IPv6 compressed_text_plain [of hs]
      by (simp add: parse_ipv6_def ip_text_def split_once_no_char parse_compressed)
  next
    case (Some z)
    then show ?thesis using hs IPv6 compressed_text_plain [of hs] assms
      by (simp add: parse_ipv6_def ip_text_def split_once_char parse_compressed ip_valid_def)
  qed
  moreover obtain u where "parse_ipv4 (ip_text a) = Inl u"
    using not_ipv4 [of "ip_text a"] colon_in_compressed [OF hs(1)] IPv6 by (auto simp: ip_text_def)
  ultimately show ?thesis by (simp add: parse_ip_def)
qed

section \<open>Lemmas: what is parsed is valid\<close>

lemma hextets_of_parts_valid:
  assumes "hextets_of_parts parts = Inr hs"
  shows "length hs = 8 \<and> list_all (\<lambda>n. n < 65536) hs"
proof (cases "filter (\<lambda>i. parts ! i = []) [1..<length parts - 1]")
  case Nil
  with assms have "traverse hextet parts = Inr hs" "length parts = 8"
    by (auto simp: hextets_of_parts_def split: if_splits)
  then show ?thesis using traverse_length traverse_all hextet_bound by metis
next
  case (Cons skip rest)
  let ?high = "if hd parts = [] then [] else take skip parts"
  let ?low = "if last parts = [] then [] else drop (Suc skip) parts"
  obtain h l where t: "traverse hextet ?high = Inr h" "traverse hextet ?low = Inr l"
    and hs: "hs = h @ replicate (8 - (length ?high + length ?low)) 0 @ l" and few: "\<not> 7 < length ?high + length ?low"
    using assms Cons
    by (auto simp: hextets_of_parts_def Let_def result_simps split: list.splits if_split_asm)
  have "length hs = 8" using few traverse_length [OF t(1)] traverse_length [OF t(2)] hs by simp
  moreover have "list_all (\<lambda>n. n < 65536) hs"
    unfolding hs using traverse_all [OF t(1) hextet_bound] traverse_all [OF t(2) hextet_bound]
    by (simp only: list_all_append) (simp add: list_all_iff)
  ultimately show ?thesis by blast
qed

lemma parse_ip_valid:
  assumes "parse_ip s = Some a"
  shows "ip_valid a"
proof (cases "parse_ipv4 s")
  case (Inr v)
  then have "traverse octet (split_char (CHR ''.'') s) = Inr v" "length (split_char (CHR ''.'') s) = 4"
    by (auto simp: parse_ipv4_def Let_def split: if_splits)
  moreover have "octet w = Inr n \<Longrightarrow> n \<le> 255" for w n by (auto simp: octet_def split: if_splits)
  ultimately show ?thesis using assms Inr traverse_length [of octet] traverse_all [of octet]
    by (fastforce simp: parse_ip_def ip_valid_def)
next
  case (Inl u)
  then have six: "parse_ipv6 s = Inr a" using assms by (auto simp: parse_ip_def split: sum.splits)
  have num: "length hs = 8 \<and> list_all (\<lambda>n. n < 65536) hs" if "parse_ipv6_number t = Inr hs" for t hs
    using that hextets_of_parts_valid
    by (auto simp: parse_ipv6_number_def Let_def result_simps split: if_splits)
  show ?thesis
  proof (cases "split_once ''%'' s")
    case None
    then show ?thesis using six num by (auto simp: parse_ipv6_def ip_valid_def result_simps split: if_splits)
  next
    case (Some p)
    obtain address scope where p: "p = (address, scope)" by (cases p)
    then have "set scope \<subseteq> set s" using split_once_Some [of "''%''" s address scope] Some by auto
    then show ?thesis using six num Some p
      by (auto simp: parse_ipv6_def ip_valid_def result_simps split: if_splits)
  qed
qed

text \<open>\<open>str(ipaddress.ip_address(text))\<close>; \<open>None\<close> is the \<open>ValueError\<close>.\<close>

definition normal_ip :: "string \<Rightarrow> string option" where
  "normal_ip s = map_option ip_text (parse_ip s)"

lemma normal_ip_idem: "normal_ip s = Some t \<Longrightarrow> normal_ip t = Some t"
  by (auto simp: normal_ip_def parse_ip_text dest: parse_ip_valid)

lemma normal_ip_examples:
  "normal_ip ''192.0.2.1'' = Some ''192.0.2.1''" "normal_ip ''192.0.2.01'' = None"
  "normal_ip ''2001:DB8:0:0:1:0:0:1'' = Some ''2001:db8::1:0:0:1''" "normal_ip ''::'' = Some ''::''"
  "normal_ip ''::ffff:192.0.2.1'' = Some ''::ffff:c000:201''" "normal_ip ''fe80::1%eth0'' = Some ''fe80::1%eth0''"
  "normal_ip ''1::2::3'' = None" "normal_ip ''router'' = None"
  by code_simp+

end
