(* ===== verification/Policy.thy ===== *)
theory Policy
  imports PyRegex PyValue IpAddress
begin

text \<open>
  The safety policy of the mutating workflows, \<open>cli_tool/safety/policy.py\<close>: names, addresses, xPON targets
  and the protected command sequence. Slot and port are the values the caller passes, of any class.
\<close>

section \<open>Names and addresses\<close>

definition safe_name_char :: "char \<Rightarrow> bool" where
  "safe_name_char c = (is_alnum_ascii c \<or> c \<in> set ''_.-'')"

definition safe_node_key :: rx where
  "safe_node_key = Cat (Rep True 1 (Some 64) (One safe_name_char)) TextEnd"

definition safe_device_family :: rx where
  "safe_device_family = Cat (Rep True 1 (Some 64) (One safe_name_char)) TextEnd"

definition validate_node_key :: "string \<Rightarrow> string result" where
  "validate_node_key value =
     (if rx_fullmatch safe_node_key value = None then Inl (ValueError (''unsafe node key: '' @ py_repr value))
      else Inr value)"

definition validate_device_family :: "string \<Rightarrow> string result" where
  "validate_device_family value =
     (if rx_fullmatch safe_device_family value = None then Inl (ValueError (''unsafe device family: '' @ py_repr value))
      else Inr value)"

definition validate_ip_literal :: "string \<Rightarrow> string result" where
  "validate_ip_literal value =
     (case normal_ip value of
        None \<Rightarrow> Inl (ValueError (''host must be an IP literal; actual='' @ py_repr value))
      | Some text \<Rightarrow> Inr text)"

record mutation_authorization =
  expected_node :: string
  expected_host :: string
  confirmed_node :: string
  confirmed_host :: string
  run_mutating :: bool

definition authorization_validate :: "mutation_authorization \<Rightarrow> unit result" where
  "authorization_validate auth =
     and_then (validate_node_key (expected_node auth)) (\<lambda>_.
     and_then (validate_ip_literal (expected_host auth)) (\<lambda>_.
     and_then (raise_when (\<not> run_mutating auth) (PermissionError ''mutating workflow requires --run-mutating'')) (\<lambda>_.
     and_then (raise_when (confirmed_node auth \<noteq> expected_node auth)
       (PermissionError ''confirmed node does not exactly match the expected node'')) (\<lambda>_.
     raise_when (confirmed_host auth \<noteq> expected_host auth)
       (PermissionError ''confirmed host does not exactly match the expected host'')))))"

section \<open>xPON targets and commands\<close>

definition target_number_ok :: "pyval \<Rightarrow> int \<Rightarrow> bool" where
  "target_number_ok v maximum = (case v of PInt i \<Rightarrow> 1 \<le> i \<and> i \<le> maximum | _ \<Rightarrow> False)"

definition validate_xpon_target :: "(pyfloat \<Rightarrow> string) \<Rightarrow> pyval \<Rightarrow> pyval \<Rightarrow> unit result" where
  "validate_xpon_target ft slot port =
     and_then (traverse (\<lambda>(name, v, maximum).
         raise_when (\<not> target_number_ok v maximum)
           (ValueError (''xPON '' @ name @ '' must be an integer from 1 to '' @ str_of_int maximum @
              ''; actual='' @ repr_val ft v)))
       [(''slot'', slot, 64), (''port'', port, 16)]) (\<lambda>_. Inr ())"

definition allowed_fixed_commands :: "string list" where
  "allowed_fixed_commands = [''configure'', ''inactive'', ''register-method A'', ''no inactive'', ''exit'']"

definition small_number :: "nat \<Rightarrow> rx" where
  "small_number n = Grp n (Cat (One (in_range 49 57)) (rx_opt (One is_digit)))"

definition safe_interface :: rx where
  "safe_interface = seqs [lit ''interface xpon '', small_number 1, lit ''-'', small_number 2, TextEnd]"

definition xpon_sequence :: "(pyfloat \<Rightarrow> string) \<Rightarrow> pyval \<Rightarrow> pyval \<Rightarrow> string list" where
  "xpon_sequence ft slot port =
     [''configure'', ''interface xpon '' @ str_val ft slot @ ''-'' @ str_val ft port, ''inactive'', ''register-method A'',
      ''no inactive'', ''exit'']"

definition interface_matches :: "pyval \<Rightarrow> pyval \<Rightarrow> string \<Rightarrow> bool" where
  "interface_matches slot port command =
     (case rx_fullmatch safe_interface command of
        None \<Rightarrow> False
      | Some gs \<Rightarrow>
          map_option PInt (parse_int (group_or_empty gs 1)) = Some slot \<and>
          map_option PInt (parse_int (group_or_empty gs 2)) = Some port)"

definition protected_command :: "pyval \<Rightarrow> pyval \<Rightarrow> string \<Rightarrow> unit result" where
  "protected_command slot port command =
     raise_when (command \<notin> set allowed_fixed_commands \<and> \<not> interface_matches slot port command)
       (PermissionError (''command is outside the protected xPON allowlist: '' @ py_repr command))"

definition validate_xpon_mutation_commands ::
  "(pyfloat \<Rightarrow> string) \<Rightarrow> string list \<Rightarrow> pyval \<Rightarrow> pyval \<Rightarrow> string list result" where
  "validate_xpon_mutation_commands ft commands slot port =
     and_then (validate_xpon_target ft slot port) (\<lambda>_.
     and_then (raise_when (commands \<noteq> xpon_sequence ft slot port)
       (PermissionError ''xPON mutation commands do not exactly match the protected allowlist sequence'')) (\<lambda>_.
     and_then (traverse (protected_command slot port) commands) (\<lambda>_.
     Inr commands)))"

section \<open>Lemmas\<close>

lemma safe_name_iff:
  "rx_fullmatch (Cat (Rep True 1 (Some 64) (One safe_name_char)) TextEnd) s \<noteq> None \<longleftrightarrow>
   list_all safe_name_char s \<and> 1 \<le> length s \<and> length s \<le> 64"
proof -
  have "(\<exists>p' gs'. (p', [], gs') \<in> set (rx_match (Cat (Rep True 1 (Some 64) (One safe_name_char)) TextEnd) ([], s, []))) \<longleftrightarrow>
      list_all safe_name_char s \<and> 1 \<le> length s \<and> length s \<le> 64"
    unfolding match_Cat
    by (auto simp: match_Rep_One keep_if_def simp del: rx_match.simps(5) split: if_splits)
  then show ?thesis unfolding rx_fullmatch_iff .
qed

lemma validate_node_key_iff:
  "validate_node_key s = Inr t \<longleftrightarrow> t = s \<and> list_all safe_name_char s \<and> 1 \<le> length s \<and> length s \<le> 64"
  using safe_name_iff [of s] by (auto simp: validate_node_key_def safe_node_key_def)

lemma validate_device_family_iff:
  "validate_device_family s = Inr t \<longleftrightarrow> t = s \<and> list_all safe_name_char s \<and> 1 \<le> length s \<and> length s \<le> 64"
  using safe_name_iff [of s] by (auto simp: validate_device_family_def safe_device_family_def)

lemma validate_ip_literal_idem: "validate_ip_literal s = Inr t \<Longrightarrow> validate_ip_literal t = Inr t"
  by (auto simp: validate_ip_literal_def normal_ip_idem split: option.splits)

lemma validate_xpon_target_iff:
  "validate_xpon_target ft slot port = Inr u \<longleftrightarrow>
   (\<exists>i j. slot = PInt i \<and> port = PInt j \<and> 1 \<le> i \<and> i \<le> 64 \<and> 1 \<le> j \<and> j \<le> 16)"
  by (auto simp: validate_xpon_target_def result_simps target_number_ok_def split: pyval.splits)

text \<open>Every target within the limits gives an interface command that the pattern reads back.\<close>

lemma small_number_chars:
  assumes "1 \<le> n" and "n < 100"
  shows "(\<exists>d. str_of_nat n = [d] \<and> in_range 49 57 d) \<or>
    (\<exists>d e. str_of_nat n = [d, e] \<and> in_range 49 57 d \<and> is_digit e)"
proof (cases "n < 10")
  case True
  then show ?thesis using assms by (simp add: str_of_nat.simps [of n] in_range_def code_point_digit_char)
next
  case False
  then have "n div 10 < 10" "1 \<le> n div 10" using assms by auto
  with False show ?thesis
    by (simp add: str_of_nat.simps [of n] str_of_nat.simps [of "n div 10"] in_range_def is_digit_def code_point_digit_char)
qed

lemma minus_not_digit: "\<not> is_digit (CHR ''-'')" by code_simp

lemma interface_groups:
  assumes "in_range 49 57 d" and "in_range 49 57 f"
  shows "rx_fullmatch safe_interface (''interface xpon '' @ [d] @ ''-'' @ [f]) = Some [(2, [f]), (1, [d])]"
    and "is_digit e \<Longrightarrow> rx_fullmatch safe_interface (''interface xpon '' @ [d, e] @ ''-'' @ [f]) = Some [(2, [f]), (1, [d, e])]"
    and "is_digit g \<Longrightarrow> rx_fullmatch safe_interface (''interface xpon '' @ [d] @ ''-'' @ [f, g]) = Some [(2, [f, g]), (1, [d])]"
    and "is_digit e \<Longrightarrow> is_digit g \<Longrightarrow>
      rx_fullmatch safe_interface (''interface xpon '' @ [d, e] @ ''-'' @ [f, g]) = Some [(2, [f, g]), (1, [d, e])]"
  using assms minus_not_digit
  by (simp_all add: rx_fullmatch_def safe_interface_def small_number_def lit_def keep_if_def)

lemma interface_matches_target:
  assumes "1 \<le> i" and "i < 100" and "1 \<le> j" and "j < 100"
  shows "interface_matches (PInt i) (PInt j) (''interface xpon '' @ str_of_int i @ ''-'' @ str_of_int j)"
proof -
  have i: "(\<exists>d. str_of_nat (nat i) = [d] \<and> in_range 49 57 d) \<or>
      (\<exists>d e. str_of_nat (nat i) = [d, e] \<and> in_range 49 57 d \<and> is_digit e)"
    and j: "(\<exists>d. str_of_nat (nat j) = [d] \<and> in_range 49 57 d) \<or>
      (\<exists>d e. str_of_nat (nat j) = [d, e] \<and> in_range 49 57 d \<and> is_digit e)"
    using assms by (simp_all add: small_number_chars)
  have "rx_fullmatch safe_interface (''interface xpon '' @ str_of_nat (nat i) @ ''-'' @ str_of_nat (nat j)) =
      Some [(2, str_of_nat (nat j)), (1, str_of_nat (nat i))]"
    using i j by (elim disjE exE conjE) (simp_all add: interface_groups [simplified])
  then show ?thesis using assms
    by (simp add: interface_matches_def str_of_int_def group_or_empty_def parse_int_str_of_nat)
qed

lemma xpon_commands_iff:
  "validate_xpon_mutation_commands ft commands slot port = Inr result \<longleftrightarrow>
   result = commands \<and>
   (\<exists>i j. slot = PInt i \<and> port = PInt j \<and> 1 \<le> i \<and> i \<le> 64 \<and> 1 \<le> j \<and> j \<le> 16 \<and>
      commands = xpon_sequence ft (PInt i) (PInt j))"
proof -
  have ok: "traverse (protected_command (PInt i) (PInt j)) (xpon_sequence ft (PInt i) (PInt j)) = Inr [(), (), (), (), (), ()]"
    if "1 \<le> i" "i \<le> 64" "1 \<le> j" "j \<le> 16" for i j
    using interface_matches_target [of i j] that
    by (simp add: xpon_sequence_def str_val_def protected_command_def allowed_fixed_commands_def)
  show ?thesis
  proof
    assume "validate_xpon_mutation_commands ft commands slot port = Inr result"
    then show "result = commands \<and> (\<exists>i j. slot = PInt i \<and> port = PInt j \<and> 1 \<le> i \<and> i \<le> 64 \<and> 1 \<le> j \<and> j \<le> 16 \<and>
        commands = xpon_sequence ft (PInt i) (PInt j))"
      unfolding validate_xpon_mutation_commands_def and_then_eq_Inr raise_when_eq validate_xpon_target_iff by auto
  next
    assume "result = commands \<and> (\<exists>i j. slot = PInt i \<and> port = PInt j \<and> 1 \<le> i \<and> i \<le> 64 \<and> 1 \<le> j \<and> j \<le> 16 \<and>
        commands = xpon_sequence ft (PInt i) (PInt j))"
    then obtain i j where "result = commands" "slot = PInt i" "port = PInt j" "commands = xpon_sequence ft (PInt i) (PInt j)"
      and range: "1 \<le> i" "i \<le> 64" "1 \<le> j" "j \<le> 16" by blast
    moreover from range have "validate_xpon_target ft (PInt i) (PInt j) = Inr ()"
      unfolding validate_xpon_target_iff by blast
    ultimately show "validate_xpon_mutation_commands ft commands slot port = Inr result"
      by (simp add: validate_xpon_mutation_commands_def ok)
  qed
qed

end
