(* ===== verification/Json.thy ===== *)
theory Json
  imports PyValue "HOL-Library.AList"
begin

text \<open>
  \<open>json.dumps(value, ensure_ascii=False, indent=2)\<close>, and the compact form of \<open>json.dump\<close>, on the
  values of \<open>PyValue\<close>. Values of other classes raise \<open>TypeError\<close>; the text of a float is a parameter.
\<close>

section \<open>str(error)\<close>

fun exn_text :: "exn \<Rightarrow> string" where
  "exn_text (ValueError m) = m"
| "exn_text (TypeError m) = m"
| "exn_text (KeyError key) = py_repr key"
| "exn_text (AttributeError m) = m"
| "exn_text (PermissionError m) = m"
| "exn_text (RuntimeError m) = m"
| "exn_text (FileNotFoundError m) = m"
| "exn_text (FileExistsError m) = m"
| "exn_text (OSError errno m) = (case errno of None \<Rightarrow> m | Some n \<Rightarrow> ''[Errno '' @ str_of_int n @ ''] '' @ m)"
| "exn_text (ConnectionError m) = m"
| "exn_text (TimeoutError m) = m"
| "exn_text (EOFError m) = m"
| "exn_text (SystemExit m) = m"
| "exn_text (UnsafeRemotePathError m) = m"
| "exn_text (LineCardStatusParseError m) = m"
| "exn_text (FtpCapabilityError m) = m"
| "exn_text (TransferLimitError m) = m"
| "exn_text (NetconfHostKeyError m) = m"
| "exn_text (NetconfCapabilityError missing) =
     ''NETCONF server does not advertise required capabilities for edit-config: '' @ join '', '' missing @
     ''; refusing to mutate (no fallback to writing running directly)''"
| "exn_text (ErrorPerm m) = m"
| "exn_text (SSHException m) = m"
| "exn_text (AuthenticationException m) = m"
| "exn_text (OtherException n m) = m"

section \<open>json.dumps\<close>

definition json_char :: "char \<Rightarrow> string" where
  "json_char c = (let n = code_point c in
     if n = 34 then [CHR 92, c]
     else if n = 92 then [CHR 92, c]
     else if n = 10 then CHR 92 # ''n''
     else if n = 13 then CHR 92 # ''r''
     else if n = 9 then CHR 92 # ''t''
     else if n = 12 then CHR 92 # ''f''
     else if n = 8 then CHR 92 # ''b''
     else if n < 32 then CHR 92 # ''u00'' @ [hex_digit (n div 16), hex_digit (n mod 16)]
     else [c])"

definition json_string :: "string \<Rightarrow> string" where
  "json_string s = [CHR 34] @ concat (map json_char s) @ [CHR 34]"

fun json_key :: "(pyfloat \<Rightarrow> string) \<Rightarrow> pyval \<Rightarrow> string option" where
  "json_key ft (PStr s) = Some s"
| "json_key ft PNone = Some ''null''"
| "json_key ft (PBool b) = Some (if b then ''true'' else ''false'')"
| "json_key ft (PInt i) = Some (str_of_int i)"
| "json_key ft (PFloat x) = Some (ft x)"
| "json_key ft _ = None"

definition key_text :: "(pyfloat \<Rightarrow> string) \<Rightarrow> pyval \<Rightarrow> string" where
  "key_text ft k = (case json_key ft k of None \<Rightarrow> [] | Some t \<Rightarrow> t)"

definition spaces :: "nat \<Rightarrow> string" where
  "spaces n = CHR 10 # replicate n (CHR '' '')"

definition bracketed :: "char \<Rightarrow> char \<Rightarrow> nat \<Rightarrow> string list \<Rightarrow> string" where
  "bracketed l r n items =
     (if items = [] then [l, r] else [l] @ spaces (n + 2) @ join (CHR '','' # spaces (n + 2)) items @ spaces n @ [r])"

fun json_text :: "(pyfloat \<Rightarrow> string) \<Rightarrow> nat \<Rightarrow> pyval \<Rightarrow> string" where
  "json_text ft n PNone = ''null''"
| "json_text ft n (PBool b) = (if b then ''true'' else ''false'')"
| "json_text ft n (PInt i) = str_of_int i"
| "json_text ft n (PFloat x) = ft x"
| "json_text ft n (PStr s) = json_string s"
| "json_text ft n (PList xs) = bracketed (CHR ''['') (CHR '']'') n (map (json_text ft (n + 2)) xs)"
| "json_text ft n (PDict d) =
     bracketed (CHR 123) (CHR 125) n
       (map (\<lambda>(k, v). json_string (key_text ft k) @ '': '' @ json_text ft (n + 2) v) d)"
| "json_text ft n (POther s) = []"

fun serializable :: "pyval \<Rightarrow> bool" where
  "serializable (PList xs) = list_all serializable xs"
| "serializable (PDict d) = list_all (\<lambda>(k, v). json_key (\<lambda>_. []) k \<noteq> None \<and> serializable v) d"
| "serializable (POther s) = False"
| "serializable _ = True"

definition json_dumps :: "(pyfloat \<Rightarrow> string) \<Rightarrow> pyval \<Rightarrow> string result" where
  "json_dumps ft v =
     (if serializable v then Inr (json_text ft 0 v) else Inl (TypeError ''value is not JSON serializable''))"

section \<open>Building and reading dictionaries\<close>

text \<open>A dict literal with string keys.\<close>

definition obj :: "(string \<times> pyval) list \<Rightarrow> pyval" where
  "obj items = PDict (map (\<lambda>(k, v). (PStr k, v)) items)"

definition str_list :: "string list \<Rightarrow> pyval" where
  "str_list xs = PList (map PStr xs)"

definition opt_str :: "string option \<Rightarrow> pyval" where
  "opt_str v = (case v of None \<Rightarrow> PNone | Some s \<Rightarrow> PStr s)"

text \<open>The truth of a value that is text or \<open>None\<close>, and the text with \<open>None\<close> as the empty one.\<close>

definition some_text :: "string option \<Rightarrow> bool" where
  "some_text v = (case v of None \<Rightarrow> False | Some s \<Rightarrow> s \<noteq> [])"

definition text_of :: "string option \<Rightarrow> string" where
  "text_of v = (case v of None \<Rightarrow> [] | Some s \<Rightarrow> s)"

lemma some_text_iff: "some_text v \<longleftrightarrow> v = Some (text_of v) \<and> text_of v \<noteq> []"
  by (cases v) (simp_all add: some_text_def text_of_def)

text \<open>\<open>value[key] = item\<close> and \<open>value[key]\<close> on a dict.\<close>

fun set_item :: "pyval \<Rightarrow> string \<Rightarrow> pyval \<Rightarrow> pyval" where
  "set_item (PDict d) key item = PDict (AList.update (PStr key) item d)"
| "set_item v key item = v"

fun get_item :: "pyval \<Rightarrow> string \<Rightarrow> pyval result" where
  "get_item (PDict d) key =
     (case map_of d (PStr key) of None \<Rightarrow> Inl (KeyError key) | Some v \<Rightarrow> Inr v)"
| "get_item v key = Inl (TypeError ''value is not subscriptable by a string'')"

fun as_mapping :: "pyval \<Rightarrow> pyval result" where
  "as_mapping (PDict d) = Inr (PDict d)"
| "as_mapping v = Inl (TypeError ''value is not a mapping'')"

text \<open>What a \<open>for\<close> loop over the value visits.\<close>

fun iterate :: "pyval \<Rightarrow> pyval list result" where
  "iterate (PList xs) = Inr xs"
| "iterate (PDict d) = Inr (map fst d)"
| "iterate (PStr s) = Inr (map (\<lambda>c. PStr [c]) s)"
| "iterate v = Inl (TypeError ''value is not iterable'')"

text \<open>\<open>round(value, 3)\<close>, half to even, on the exact value of a float.\<close>

definition round3 :: "rat \<Rightarrow> rat" where
  "round3 x = (let y = x * 1000; f = \<lfloor>y\<rfloor>; d = y - of_int f
     in of_int (if d < 1 / 2 \<or> (d = 1 / 2 \<and> even f) then f else f + 1) / 1000)"

text \<open>\<open>html.escape(text)\<close>\<close>

definition html_escape :: "string \<Rightarrow> string" where
  "html_escape s = concat (map (\<lambda>c.
     if c = CHR ''&'' then ''&amp;'' else if c = CHR ''<'' then ''&lt;'' else if c = CHR ''>'' then ''&gt;''
     else if c = CHR 34 then ''&quot;'' else if c = CHR 39 then ''&#x27;'' else [c]) s)"

lemma html_escape_plain: "c \<in> set (html_escape s) \<Longrightarrow> c \<notin> {CHR ''<'', CHR ''>'', CHR 34, CHR 39}"
  by (auto simp: html_escape_def split: if_splits)

end
