(* ===== verification/LocalFs.thy ===== *)
theory LocalFs
  imports Effects Paths PyBytes
begin

text \<open>
  The local file system as the program uses it: \<open>pathlib.Path\<close> on POSIX, and the operations on files. A
  disk maps the text of a path to the content of the file there. Directories are not tracked: making one can
  only fail. The outcomes of the operations to come are a script of faults; a failing write may leave a first
  part of its data.
\<close>

section \<open>Paths\<close>

definition path_name :: "posix_path \<Rightarrow> string" where
  "path_name p = (if path_tail p = [] then [] else last (path_tail p))"

definition path_parent :: "posix_path \<Rightarrow> posix_path" where
  "path_parent p = p\<lparr>path_tail := butlast (path_tail p)\<rparr>"

definition with_name :: "posix_path \<Rightarrow> string \<Rightarrow> posix_path result" where
  "with_name p name =
     (if path_name p = [] then Inl (ValueError (path_str p @ '' has an empty name''))
      else Inr (p\<lparr>path_tail := butlast (path_tail p) @ [name]\<rparr>))"

definition path_child :: "posix_path \<Rightarrow> string \<Rightarrow> posix_path" where
  "path_child p name = path_join p (parse_path name)"

section \<open>Disks\<close>

datatype disk_fault = Works | Fails exn "nat option"  \<comment> \<open>with what a write leaves\<close>

record disk =
  dk_files :: "string \<Rightarrow> string option"
  dk_faults :: "disk_fault list"

definition next_fault :: "(disk, disk_fault) act" where
  "next_fault d =
     (case dk_faults d of
        [] \<Rightarrow> (Inr Works, d)
      | f # fs \<Rightarrow> (Inr f, d\<lparr>dk_faults := fs\<rparr>))"

definition disk_op :: "(disk, 'a) act \<Rightarrow> (disk, 'a) act" where
  "disk_op m = bnd next_fault (\<lambda>f. case f of Works \<Rightarrow> m | Fails e left \<Rightarrow> throw e)"

definition put :: "string \<Rightarrow> string \<Rightarrow> (disk, unit) act" where
  "put path content = modify (\<lambda>d. d\<lparr>dk_files := (dk_files d)(path \<mapsto> content)\<rparr>)"

definition file_missing :: "string \<Rightarrow> exn" where
  "file_missing path = FileNotFoundError (''[Errno 2] No such file or directory: '' @ py_repr path)"

definition file_present :: "string \<Rightarrow> exn" where
  "file_present path = FileExistsError (''[Errno 17] File exists: '' @ py_repr path)"

definition exists_path :: "string \<Rightarrow> (disk, bool) act" where
  "exists_path path = gets (\<lambda>d. dk_files d path \<noteq> None)"

definition mkdir_parents :: "string \<Rightarrow> (disk, unit) act" where
  "mkdir_parents path = disk_op (ret ())"

definition open_exclusive :: "string \<Rightarrow> (disk, unit) act" where
  "open_exclusive path = disk_op (
     bnd (exists_path path) (\<lambda>present. if present then throw (file_present path) else put path []))"

text \<open>A write to an open file appends; \<open>write_text\<close> replaces the content.\<close>

definition write_at :: "string \<Rightarrow> string \<Rightarrow> string \<Rightarrow> (disk, unit) act" where
  "write_at path before data =
     bnd next_fault (\<lambda>f. case f of
         Works \<Rightarrow> put path (before @ data)
       | Fails e None \<Rightarrow> throw e
       | Fails e (Some n) \<Rightarrow> bnd (put path (before @ take n data)) (\<lambda>_. throw e))"

definition append_bytes :: "string \<Rightarrow> string \<Rightarrow> (disk, unit) act" where
  "append_bytes path data =
     bnd (gets (\<lambda>d. case dk_files d path of None \<Rightarrow> [] | Some c \<Rightarrow> c)) (\<lambda>before. write_at path before data)"

definition write_text :: "string \<Rightarrow> string \<Rightarrow> (disk, unit) act" where
  "write_text path text = write_at path [] (utf8_encode text)"

definition flush_sync :: "(disk, unit) act" where
  "flush_sync = disk_op (ret ())"

definition replace_file :: "string \<Rightarrow> string \<Rightarrow> (disk, unit) act" where
  "replace_file src dst = disk_op (
     bnd (gets (\<lambda>d. dk_files d src)) (\<lambda>content. case content of
         None \<Rightarrow> throw (file_missing src)
       | Some c \<Rightarrow> modify (\<lambda>d. d\<lparr>dk_files := ((dk_files d)(src := None))(dst \<mapsto> c)\<rparr>)))"

definition link_file :: "string \<Rightarrow> string \<Rightarrow> (disk, unit) act" where
  "link_file src dst = disk_op (
     bnd (gets (\<lambda>d. dk_files d src)) (\<lambda>content. case content of
         None \<Rightarrow> throw (file_missing src)
       | Some c \<Rightarrow> bnd (exists_path dst) (\<lambda>present. if present then throw (file_present dst) else put dst c)))"

definition unlink_file :: "bool \<Rightarrow> string \<Rightarrow> (disk, unit) act" where
  "unlink_file missing_ok path = disk_op (
     bnd (exists_path path) (\<lambda>present.
       if present then modify (\<lambda>d. d\<lparr>dk_files := (dk_files d)(path := None)\<rparr>)
       else if missing_ok then ret () else throw (file_missing path)))"

section \<open>What an operation touches\<close>

text \<open>All files but those of \<open>A\<close> are as in \<open>files\<close>.\<close>

definition only_touches :: "string set \<Rightarrow> (string \<Rightarrow> string option) \<Rightarrow> disk \<Rightarrow> bool" where
  "only_touches A files d = (\<forall>p. p \<notin> A \<longrightarrow> dk_files d p = files p)"

named_theorems touch_rules "operations and the files they touch"

lemma keeps_next_fault [touch_rules]: "keeps (only_touches A files) next_fault"
  by (simp add: keeps_def next_fault_def only_touches_def split: list.split)

lemma keeps_put [touch_rules]: "path \<in> A \<Longrightarrow> keeps (only_touches A files) (put path c)"
  by (auto simp: keeps_def put_def modify_def only_touches_def)

lemma keeps_exists_path [touch_rules]: "keeps (only_touches A files) (exists_path path)"
  unfolding exists_path_def by (rule keeps_gets)

lemma keeps_disk_op [touch_rules]: "keeps (only_touches A files) m \<Longrightarrow> keeps (only_touches A files) (disk_op m)"
  unfolding disk_op_def
  by (rule keeps_bnd [OF keeps_next_fault]) (auto split: disk_fault.split intro: keeps_throw)

lemma keeps_mkdir [touch_rules]: "keeps (only_touches A files) (mkdir_parents path)"
  unfolding mkdir_parents_def by (intro touch_rules keeps_ret)

lemma keeps_flush [touch_rules]: "keeps (only_touches A files) flush_sync"
  unfolding flush_sync_def by (intro touch_rules keeps_ret)

lemma keeps_open_exclusive [touch_rules]: "path \<in> A \<Longrightarrow> keeps (only_touches A files) (open_exclusive path)"
  unfolding open_exclusive_def by (intro touch_rules keeps_intros)

lemma keeps_write_at [touch_rules]: "path \<in> A \<Longrightarrow> keeps (only_touches A files) (write_at path before data)"
  unfolding write_at_def
  by (rule keeps_bnd [OF keeps_next_fault])
    (auto split: disk_fault.split option.split intro!: keeps_intros keeps_put)

lemma keeps_append_bytes [touch_rules]: "path \<in> A \<Longrightarrow> keeps (only_touches A files) (append_bytes path data)"
  unfolding append_bytes_def by (intro keeps_intros touch_rules)

lemma keeps_write_text [touch_rules]: "path \<in> A \<Longrightarrow> keeps (only_touches A files) (write_text path t)"
  unfolding write_text_def by (rule keeps_write_at)

lemma keeps_unlink [touch_rules]: "path \<in> A \<Longrightarrow> keeps (only_touches A files) (unlink_file ok path)"
  unfolding unlink_file_def
  by (intro touch_rules keeps_intros) (auto simp: keeps_def modify_def only_touches_def)

lemma keeps_link [touch_rules]: "dst \<in> A \<Longrightarrow> keeps (only_touches A files) (link_file src dst)"
  unfolding link_file_def by (intro touch_rules keeps_intros)

lemma keeps_replace [touch_rules]:
  "src \<in> A \<Longrightarrow> dst \<in> A \<Longrightarrow> keeps (only_touches A files) (replace_file src dst)"
  unfolding replace_file_def
  by (intro touch_rules keeps_intros) (auto simp: keeps_def modify_def only_touches_def)

end
