(* ===== verification/Xpon.thy ===== *)
theory Xpon
  imports Policy Redaction Json LocalFs
begin

text \<open>
  The xPON dry-run: the plan of \<open>cli_tool/workflows/xpon_remediation.py\<close> and the command
  \<open>tools/cli_tool_xpon_plan.py\<close> that writes it as a report. The parsed arguments are a record; the clock
  and the random run identifier are parameters, as is the notice of the page, which is not Latin-1 text.
\<close>

section \<open>The plan (workflows/xpon\_remediation.py)\<close>

definition show_unregistered :: string where "show_unregistered = ''show in remote xont unreg''"
definition show_summary :: string where "show_summary = ''show in remote xont summary''"

record xpon_plan =
  pl_family :: string
  pl_node :: string
  pl_host :: string
  pl_slot :: pyval
  pl_port :: pyval
  pl_precheck :: "string list"
  pl_mutation :: "string list"
  pl_postcheck :: "string list"
  pl_status :: string
  pl_blocker :: string

definition plan_interface :: "(pyfloat \<Rightarrow> string) \<Rightarrow> xpon_plan \<Rightarrow> string" where
  "plan_interface ft plan = ''xpon '' @ str_val ft (pl_slot plan) @ ''-'' @ str_val ft (pl_port plan)"

definition plan_as_dict :: "(pyfloat \<Rightarrow> string) \<Rightarrow> xpon_plan \<Rightarrow> pyval" where
  "plan_as_dict ft plan = obj
     [(''schema_version'', PInt 1),
      (''workflow'', PStr ''xpon_register_method_a_requested''),
      (''mode'', PStr ''DRY_RUN''),
      (''target'', obj
        [(''node_key'', PStr (pl_node plan)),
         (''device_family'', PStr (pl_family plan)),
         (''host'', PStr (pl_host plan)),
         (''slot'', pl_slot plan),
         (''port'', pl_port plan),
         (''interface'', PStr (plan_interface ft plan))]),
      (''precheck_commands'', str_list (pl_precheck plan)),
      (''mutation_commands'', str_list (pl_mutation plan)),
      (''postcheck_commands'', str_list (pl_postcheck plan)),
      (''live_execution'', obj
        [(''status'', PStr (pl_status plan)),
         (''blocker'', PStr (pl_blocker plan)),
         (''requires_run_mutating'', PBool True),
         (''requires_exact_node_host_confirmation'', PBool True),
         (''requires_original_state_for_rollback'', PBool True)])]"

definition plan_blocker :: string where
  "plan_blocker =
     ''The read-only command/parser for the original register-method and inactive state '' @
     ''has not been verified on the target family; rollback cannot yet be guaranteed.''"

definition build_register_method_a_plan ::
  "(pyfloat \<Rightarrow> string) \<Rightarrow> string \<Rightarrow> string \<Rightarrow> string \<Rightarrow> pyval \<Rightarrow> pyval \<Rightarrow> xpon_plan result" where
  "build_register_method_a_plan ft device_family node_key host slot port =
     and_then (validate_device_family device_family) (\<lambda>_.
     and_then (validate_node_key node_key) (\<lambda>_.
     and_then (validate_ip_literal host) (\<lambda>normalized_host.
     and_then (validate_xpon_target ft slot port) (\<lambda>_.
     and_then (validate_xpon_mutation_commands ft
       [''configure'', ''interface xpon '' @ str_val ft slot @ ''-'' @ str_val ft port, ''inactive'',
        ''register-method A'', ''no inactive'', ''exit''] slot port) (\<lambda>mutation_commands.
     Inr \<lparr>pl_family = device_family, pl_node = node_key, pl_host = normalized_host, pl_slot = slot, pl_port = port,
          pl_precheck = [show_unregistered, show_summary], pl_mutation = mutation_commands,
          pl_postcheck = [show_unregistered, show_summary], pl_status = ''LOCKED'', pl_blocker = plan_blocker\<rparr>)))))"

definition assert_dry_run_target_confirmation :: "xpon_plan \<Rightarrow> string \<Rightarrow> string \<Rightarrow> unit result" where
  "assert_dry_run_target_confirmation plan node host =
     authorization_validate \<lparr>expected_node = pl_node plan, expected_host = pl_host plan, confirmed_node = node,
       confirmed_host = host, run_mutating = True\<rparr>"

definition assert_live_execution_unlocked ::
  "(pyfloat \<Rightarrow> string) \<Rightarrow> xpon_plan \<Rightarrow> mutation_authorization \<Rightarrow> unit result" where
  "assert_live_execution_unlocked ft plan authorization =
     and_then (authorization_validate authorization) (\<lambda>_.
     and_then (validate_xpon_mutation_commands ft (pl_mutation plan) (pl_slot plan) (pl_port plan)) (\<lambda>_.
     raise_when (pl_status plan \<noteq> ''UNLOCKED'')
       (PermissionError (''live execution is locked: '' @ pl_blocker plan))))"

section \<open>The command (tools/cli\_tool\_xpon\_plan.py)\<close>

record xpon_args =
  xa_device_family :: string
  xa_node_key :: string
  xa_host :: string
  xa_confirm_node :: string
  xa_confirm_host :: string
  xa_slot :: int
  xa_port :: int
  xa_report_dir :: string
  xa_run_mutating :: bool

text \<open>The clock, the random identifier, the text of floats and the notice.\<close>

record xpon_env =
  xe_float_text :: "pyfloat \<Rightarrow> string"
  xe_generated_at :: string
  xe_run_id :: string
  xe_notice :: string

definition style_sheet :: string where
  \<open>style_sheet =
     ''body{margin:0;background:#f4f7f8;color:#17212b;font:14px/1.55 "Segoe UI",sans-serif}'' @
     ''main{width:min(1000px,calc(100% - 32px));margin:32px auto}'' @
     ''section{background:#fff;border:1px solid #dce3e8;border-radius:14px;padding:20px;margin-top:18px}'' @
     ''h1{color:#183b56}.locked{color:#8a5800;background:#fff4ce;padding:10px;border-radius:8px}'' @
     ''table{width:100%;border-collapse:collapse}th,td{text-align:left;padding:9px;border-bottom:1px solid #dce3e8}'' @
     ''code{background:#edf2f4;padding:2px 5px;border-radius:5px}''\<close>

definition page_head :: string where
  \<open>page_head =
     ''<!doctype html><html lang="zh-Hant"><head><meta charset="utf-8">'' @
     ''<meta name="viewport" content="width=device-width,initial-scale=1"><title>xPON Remediation Dry-run</title><style>'' @
     style_sheet @ ''</style></head><body><main><h1>xPON Remediation Dry-run</h1><p>''\<close>

definition command_row :: "(pyfloat \<Rightarrow> string) \<Rightarrow> string \<Rightarrow> pyval \<Rightarrow> string" where
  "command_row ft phase command =
     ''<tr><td>'' @ html_escape phase @ ''</td><td><code>'' @ html_escape (str_val ft command) @ ''</code></td></tr>''"

definition command_rows :: "(pyfloat \<Rightarrow> string) \<Rightarrow> pyval \<Rightarrow> string list result" where
  "command_rows ft payload =
     and_then (traverse (\<lambda>phase.
         and_then (get_item payload phase) (\<lambda>v.
         and_then (iterate v) (\<lambda>commands. Inr (map (command_row ft phase) commands))))
       [''precheck_commands'', ''mutation_commands'', ''postcheck_commands'']) (\<lambda>rows. Inr (concat rows))"

definition render_html :: "xpon_env \<Rightarrow> pyval \<Rightarrow> string result" where
  \<open>render_html env payload =
     (let ft = xe_float_text env; cell = (\<lambda>v. html_escape (str_val ft v)) in
      and_then (and_then (get_item payload ''target'') as_mapping) (\<lambda>target.
      and_then (and_then (get_item payload ''live_execution'') as_mapping) (\<lambda>live.
      and_then (command_rows ft payload) (\<lambda>rows.
      and_then (get_item target ''node_key'') (\<lambda>node.
      and_then (get_item target ''host'') (\<lambda>host.
      and_then (get_item target ''interface'') (\<lambda>interface.
      and_then (get_item live ''status'') (\<lambda>status.
      and_then (get_item live ''blocker'') (\<lambda>blocker.
      Inr (page_head @ xe_notice env @ ''</p><section><strong>Target</strong><p>Node <code>'' @ cell node @
        ''</code> '' @ [CHR 0xB7] @ '' Host <code>'' @ cell host @ ''</code> '' @ [CHR 0xB7] @ '' Interface <code>'' @
        cell interface @ ''</code></p><div class="locked">Live execution: '' @ cell status @ ''<br>'' @ cell blocker @
        ''</div></section><section><table><thead><tr><th>Phase</th><th>Command</th></tr></thead><tbody>'' @
        concat rows @ ''</tbody></table></section></main></body></html>'')))))))))) \<close>

definition atomic_write :: "posix_path \<Rightarrow> string \<Rightarrow> (disk, unit) act" where
  "atomic_write path content =
     bnd (mkdir_parents (path_str (path_parent path))) (\<lambda>_.
     bnd (lift (with_name path (path_name path @ ''.tmp''))) (\<lambda>temporary.
     bnd (write_text (path_str temporary) content) (\<lambda>_.
     replace_file (path_str temporary) (path_str path))))"

definition report_paths :: "string \<Rightarrow> string \<Rightarrow> (string \<times> posix_path) list" where
  "report_paths report_dir run_id =
     (let root = parse_path report_dir;
          run_root = path_child (path_child root ''runs'') run_id
      in [(''run_json'', path_child run_root ''report.json''), (''run_html'', path_child run_root ''report.html''),
          (''latest_json'', path_child root ''latest.json''), (''latest_html'', path_child root ''latest.html'')])"

definition write_report :: "xpon_env \<Rightarrow> string \<Rightarrow> pyval \<Rightarrow> (disk, (string \<times> posix_path) list) act" where
  "write_report env report_dir payload =
     (let paths = report_paths report_dir (xe_run_id env);
          safe_payload = redact (xe_float_text env) payload
      in bnd (lift (json_dumps (xe_float_text env) safe_payload)) (\<lambda>json_content.
         bnd (lift (render_html env safe_payload)) (\<lambda>html_content.
         bnd (for_each (zip (map snd paths) [json_content, html_content, json_content, html_content])
           (\<lambda>(path, content). atomic_write path content)) (\<lambda>_. ret paths))))"

definition with_report_paths :: "pyval \<Rightarrow> (string \<times> posix_path) list \<Rightarrow> pyval" where
  "with_report_paths payload paths = set_item payload ''report_paths'' (obj (map (\<lambda>(k, p). (k, PStr (path_str p))) paths))"

definition xpon_run :: "xpon_env \<Rightarrow> xpon_args \<Rightarrow> (disk, int \<times> pyval) act" where
  "xpon_run env args =
     bnd (lift (build_register_method_a_plan (xe_float_text env) (xa_device_family args) (xa_node_key args)
       (xa_host args) (PInt (xa_slot args)) (PInt (xa_port args)))) (\<lambda>plan.
     bnd (lift (assert_dry_run_target_confirmation plan (xa_confirm_node args) (xa_confirm_host args))) (\<lambda>_.
     (let payload = set_item (plan_as_dict (xe_float_text env) plan) ''generated_at'' (PStr (xe_generated_at env)) in
      if xa_run_mutating args
      then (let payload = set_item (set_item payload ''requested_mode'' (PStr ''LIVE''))
                ''result'' (PStr ''REFUSED_LIVE_EXECUTION_LOCKED'') in
            bnd (write_report env (xa_report_dir args) payload) (\<lambda>paths. ret (2, with_report_paths payload paths)))
      else (let payload = set_item (set_item payload ''requested_mode'' (PStr ''DRY_RUN''))
                ''result'' (PStr ''DRY_RUN_READY'') in
            bnd (write_report env (xa_report_dir args) payload) (\<lambda>paths. ret (0, with_report_paths payload paths))))))"

text \<open>\<open>main\<close>: the exit code and what is printed.\<close>

definition xpon_main :: "xpon_env \<Rightarrow> xpon_args \<Rightarrow> (disk, int \<times> pyval) act" where
  "xpon_main env args =
     catch_when (\<lambda>e. is_value_error e \<or> (case e of PermissionError _ \<Rightarrow> True | _ \<Rightarrow> False))
       (xpon_run env args)
       (\<lambda>e. ret (2, obj [(''result'', PStr ''REFUSED''), (''error'', PStr (exn_text e))]))"

section \<open>Lemmas\<close>

definition the_plan :: "(pyfloat \<Rightarrow> string) \<Rightarrow> string \<Rightarrow> string \<Rightarrow> string \<Rightarrow> int \<Rightarrow> int \<Rightarrow> xpon_plan" where
  "the_plan ft family node host i j =
     \<lparr>pl_family = family, pl_node = node, pl_host = host, pl_slot = PInt i, pl_port = PInt j,
      pl_precheck = [show_unregistered, show_summary],
      pl_mutation =
        [''configure'', ''interface xpon '' @ str_of_int i @ ''-'' @ str_of_int j, ''inactive'', ''register-method A'',
         ''no inactive'', ''exit''],
      pl_postcheck = [show_unregistered, show_summary], pl_status = ''LOCKED'', pl_blocker = plan_blocker\<rparr>"

lemma xpon_sequence_ints:
  "xpon_sequence ft (PInt i) (PInt j) =
     [''configure'', ''interface xpon '' @ str_of_int i @ ''-'' @ str_of_int j, ''inactive'', ''register-method A'',
      ''no inactive'', ''exit'']"
  by (simp add: xpon_sequence_def str_val_def)

lemma built_plan_iff:
  "build_register_method_a_plan ft family node host slot port = Inr plan \<longleftrightarrow>
   (\<exists>i j h. slot = PInt i \<and> port = PInt j \<and> 1 \<le> i \<and> i \<le> 64 \<and> 1 \<le> j \<and> j \<le> 16 \<and>
      validate_device_family family = Inr family \<and> validate_node_key node = Inr node \<and>
      validate_ip_literal host = Inr h \<and> plan = the_plan ft family node h i j)" (is "?L \<longleftrightarrow> ?R")
proof
  assume ?L
  then show ?R
    unfolding build_register_method_a_plan_def and_then_eq_Inr xpon_commands_iff validate_xpon_target_iff
    by (auto simp: validate_device_family_iff validate_node_key_iff xpon_sequence_ints the_plan_def)
next
  assume ?R
  then obtain i j h where R: "slot = PInt i" "port = PInt j" "1 \<le> i" "i \<le> 64" "1 \<le> j" "j \<le> 16"
    "validate_device_family family = Inr family" "validate_node_key node = Inr node" "validate_ip_literal host = Inr h"
    "plan = the_plan ft family node h i j" by blast
  moreover have "validate_xpon_target ft slot port = Inr ()"
    using R unfolding validate_xpon_target_iff by blast
  moreover have "validate_xpon_mutation_commands ft (xpon_sequence ft slot port) slot port = Inr (xpon_sequence ft slot port)"
    using R unfolding xpon_commands_iff by blast
  ultimately show ?L
    by (simp add: build_register_method_a_plan_def xpon_sequence_def the_plan_def str_val_def)
qed

lemma confirmation_iff:
  assumes "build_register_method_a_plan ft family node host slot port = Inr plan"
  shows "assert_dry_run_target_confirmation plan n h = Inr () \<longleftrightarrow>
    n = node \<and> validate_ip_literal host = Inr h"
  using assms unfolding built_plan_iff
  by (auto simp: assert_dry_run_target_confirmation_def authorization_validate_def the_plan_def
      result_simps validate_node_key_iff dest: validate_ip_literal_idem)

lemma live_refused:
  assumes "build_register_method_a_plan ft family node host slot port = Inr plan"
  shows "\<not> is_ok (assert_live_execution_unlocked ft plan auth)"
  using assms unfolding built_plan_iff
  by (auto simp: assert_live_execution_unlocked_def is_ok_iff the_plan_def result_simps)

text \<open>The files that a run writes.\<close>

definition report_files :: "string \<Rightarrow> string \<Rightarrow> string set" where
  "report_files report_dir run_id =
     (\<lambda>(k, p). path_str p) ` set (report_paths report_dir run_id) \<union>
     (\<lambda>(k, p). path_str (p\<lparr>path_tail := butlast (path_tail p) @ [path_name p @ ''.tmp'']\<rparr>)) ` set (report_paths report_dir run_id)"

lemma keeps_atomic_write:
  assumes "path_str path \<in> A" and "path_str (path\<lparr>path_tail := butlast (path_tail path) @ [path_name path @ ''.tmp'']\<rparr>) \<in> A"
  shows "keeps (only_touches A files) (atomic_write path content)"
  using assms unfolding atomic_write_def with_name_def
  by (cases "path_name path = []") (auto intro!: keeps_intros touch_rules)

lemma keeps_write_report: "keeps (only_touches (report_files report_dir (xe_run_id env)) files) (write_report env report_dir payload)"
proof -
  have files: "keeps (only_touches (report_files report_dir (xe_run_id env)) files)
      (for_each (zip (map snd (report_paths report_dir (xe_run_id env))) contents) (\<lambda>(path, content). atomic_write path content))"
    for contents
  proof (rule keeps_for_each_mem)
    fix x
    assume "x \<in> set (zip (map snd (report_paths report_dir (xe_run_id env))) contents)"
    moreover obtain path content where x: "x = (path, content)" by (cases x)
    ultimately have "path \<in> snd ` set (report_paths report_dir (xe_run_id env))"
      by (auto dest: set_zip_leftD)
    then show "keeps (only_touches (report_files report_dir (xe_run_id env)) files)
        (case x of (path, content) \<Rightarrow> atomic_write path content)"
      unfolding x prod.case by (intro keeps_atomic_write) (force simp: report_files_def)+
  qed
  show ?thesis
    unfolding write_report_def Let_def by (intro keeps_bnd keeps_lift keeps_ret files)
qed

lemma keeps_xpon_run: "keeps (only_touches (report_files (xa_report_dir args) (xe_run_id env)) files) (xpon_run env args)"
  unfolding xpon_run_def Let_def by (intro keeps_intros keeps_write_report)

lemma xpon_run_code:
  "xpon_run env args d = (Inr (code, payload), d') \<Longrightarrow> code = (if xa_run_mutating args then 2 else 0)"
  by (auto simp: xpon_run_def Let_def bnd_eq_Inr ret_def split: if_splits)

section \<open>Properties\<close>

text \<open>C26. A plan is built exactly for a safe device family, a safe node key, a host that is an IP literal, and
  integers (not booleans) from 1 to 64 for the slot and from 1 to 16 for the port; it then names the normal form of
  the host, the two fixed read-only commands before and after, and the one protected sequence for that slot and
  port, and its live execution is locked.\<close>

theorem xpon_plan_exact:
  "build_register_method_a_plan ft family node host slot port = Inr plan \<longleftrightarrow>
   (\<exists>i j h. slot = PInt i \<and> port = PInt j \<and> 1 \<le> i \<and> i \<le> 64 \<and> 1 \<le> j \<and> j \<le> 16 \<and>
      (list_all safe_name_char family \<and> 1 \<le> length family \<and> length family \<le> 64) \<and>
      (list_all safe_name_char node \<and> 1 \<le> length node \<and> length node \<le> 64) \<and>
      normal_ip host = Some h \<and> plan = the_plan ft family node h i j)"
  unfolding built_plan_iff validate_device_family_iff validate_node_key_iff
  by (auto simp: validate_ip_literal_def split: option.splits)

text \<open>A built plan is confirmed exactly by its node key and the normal form of its host (not the host as it
  was typed), and no authorization whatever unlocks its live execution.\<close>

theorem xpon_plan_gates:
  assumes "build_register_method_a_plan ft family node host slot port = Inr plan"
  shows "(assert_dry_run_target_confirmation plan n h = Inr () \<longleftrightarrow> n = node \<and> normal_ip host = Some h) \<and>
    \<not> is_ok (assert_live_execution_unlocked ft plan auth)"
  using confirmation_iff [OF assms] live_refused [OF assms]
  by (auto simp: validate_ip_literal_def split: option.splits)

lemma xpon_plan_gates_witness:
  "\<exists>plan. build_register_method_a_plan (\<lambda>_. []) ''f'' ''n1'' ''2001:DB8::1'' (PInt 1) (PInt 2) = Inr plan \<and>
     assert_dry_run_target_confirmation plan ''n1'' ''2001:db8::1'' = Inr () \<and>
     assert_dry_run_target_confirmation plan ''n1'' ''2001:DB8::1'' \<noteq> Inr ()"
proof -
  have "is_ok (build_register_method_a_plan (\<lambda>_. []) ''f'' ''n1'' ''2001:DB8::1'' (PInt 1) (PInt 2))" by code_simp
  then obtain plan where plan: "build_register_method_a_plan (\<lambda>_. []) ''f'' ''n1'' ''2001:DB8::1'' (PInt 1) (PInt 2) = Inr plan"
    by (auto simp: is_ok_iff)
  have "normal_ip ''2001:DB8::1'' = Some ''2001:db8::1''" by code_simp
  then show ?thesis using xpon_plan_gates [OF plan, where n = "''n1''"] plan by auto
qed

text \<open>A run of the command never exits with success when live execution was asked for, and it changes no file
  but the four report files and their temporary names, whatever fails.\<close>

theorem xpon_run_reports_only:
  assumes "xpon_run env args d = (r, d')"
  shows "(\<forall>payload. r = Inr (0, payload) \<longrightarrow> \<not> xa_run_mutating args) \<and>
    (\<forall>p. p \<notin> report_files (xa_report_dir args) (xe_run_id env) \<longrightarrow> dk_files d' p = dk_files d p)"
  using keepsD [OF keeps_xpon_run assms, of "dk_files d"] xpon_run_code assms
  by (fastforce simp: only_touches_def split: if_splits)

definition demo_xpon_args :: xpon_args where
  "demo_xpon_args = \<lparr>xa_device_family = ''f'', xa_node_key = ''n1'', xa_host = ''192.0.2.1'', xa_confirm_node = ''n1'',
     xa_confirm_host = ''192.0.2.1'', xa_slot = 1, xa_port = 2, xa_report_dir = ''reports'', xa_run_mutating = True\<rparr>"

definition demo_xpon_env :: xpon_env where
  "demo_xpon_env = \<lparr>xe_float_text = (\<lambda>_. []), xe_generated_at = ''t'', xe_run_id = ''r1'', xe_notice = []\<rparr>"

lemma xpon_run_reports_only_witness:
  "dk_files (snd (xpon_run demo_xpon_env demo_xpon_args \<lparr>dk_files = (\<lambda>_. None), dk_faults = []\<rparr>)) ''other'' = None \<and>
   fst (xpon_run demo_xpon_env demo_xpon_args \<lparr>dk_files = (\<lambda>_. None), dk_faults = []\<rparr>) \<noteq> Inr (0, PNone)"
proof -
  have "''other'' \<notin> report_files (xa_report_dir demo_xpon_args) (xe_run_id demo_xpon_env)"
    by (simp add: report_files_def report_paths_def demo_xpon_args_def demo_xpon_env_def) code_simp
  moreover have "xa_run_mutating demo_xpon_args" by (simp add: demo_xpon_args_def)
  ultimately show ?thesis
    using xpon_run_reports_only [where env = demo_xpon_env and args = demo_xpon_args, OF prod.collapse [symmetric]] by auto
qed

end
