(* ===== verification/FileTransfer.thy ===== *)
theory FileTransfer
  imports LocalFs Json PyBytes
begin

text \<open>
  What the two transfer clients share: the records of \<open>cli_tool/transfer/models.py\<close>, the report payloads
  of \<open>cli_tool/reporting/transfer.py\<close>, and the download, whose code \<open>cli_tool/transfer/sftp.py\<close> and
  \<open>cli_tool/transfer/ftp.py\<close> repeat except for the way the bytes arrive. The locale
  \<open>byte_source\<close> is what a download needs of its client; under it a download is all or nothing.
\<close>

section \<open>Worlds\<close>

text \<open>The client with the server behind it, and the local disk.\<close>

record 'r transfer_world =
  tw_remote :: 'r
  tw_disk :: disk

definition on_disk :: "(disk, 'a) act \<Rightarrow> ('r transfer_world, 'a) act" where
  "on_disk m w = (case m (tw_disk w) of (r, d) \<Rightarrow> (r, w\<lparr>tw_disk := d\<rparr>))"

definition on_remote :: "('r, 'a) act \<Rightarrow> ('r transfer_world, 'a) act" where
  "on_remote m w = (case m (tw_remote w) of (r, x) \<Rightarrow> (r, w\<lparr>tw_remote := x\<rparr>))"

section \<open>Results (transfer/models.py) and payloads (reporting/transfer.py)\<close>

record remote_file_info =
  fi_path :: string
  fi_size :: int
  fi_modified :: "pyfloat option"
  fi_directory :: bool
  fi_regular :: bool
  fi_symlink :: bool

definition file_info_as_dict :: "remote_file_info \<Rightarrow> pyval" where
  "file_info_as_dict info = obj
     [(''path'', PStr (fi_path info)), (''size'', PInt (fi_size info)),
      (''modified_time'', case fi_modified info of None \<Rightarrow> PNone | Some t \<Rightarrow> PFloat t),
      (''is_directory'', PBool (fi_directory info)), (''is_regular_file'', PBool (fi_regular info)),
      (''is_symlink'', PBool (fi_symlink info))]"

record download_result =
  dr_remote_path :: string
  dr_local_path :: string
  dr_size :: int
  dr_sha256 :: string

definition download_as_dict :: "download_result \<Rightarrow> pyval" where
  "download_as_dict result = obj
     [(''remote_path'', PStr (dr_remote_path result)), (''local_path'', PStr (dr_local_path result)),
      (''size'', PInt (dr_size result)), (''sha256'', PStr (dr_sha256 result))]"

text \<open>\<open>sha256\<close> maps bytes to the bytes of their digest.\<close>

definition identifier_reference :: "(string \<Rightarrow> string) \<Rightarrow> bool \<Rightarrow> string \<Rightarrow> string" where
  "identifier_reference sha256 include_value v =
     (if include_value then v else ''sha256:'' @ take 16 (hexdigest (sha256 (utf8_encode v))))"

definition file_info_payload :: "(string \<Rightarrow> string) \<Rightarrow> bool \<Rightarrow> remote_file_info \<Rightarrow> pyval" where
  "file_info_payload sha256 include_paths info =
     set_item (file_info_as_dict info) ''path'' (PStr (identifier_reference sha256 include_paths (fi_path info)))"

definition file_list_payload :: "(string \<Rightarrow> string) \<Rightarrow> bool \<Rightarrow> remote_file_info list \<Rightarrow> pyval" where
  "file_list_payload sha256 include_paths items = PList (map (file_info_payload sha256 include_paths) items)"

definition download_payload :: "(string \<Rightarrow> string) \<Rightarrow> bool \<Rightarrow> download_result \<Rightarrow> pyval" where
  "download_payload sha256 include_paths result =
     set_item (set_item (download_as_dict result)
       ''remote_path'' (PStr (identifier_reference sha256 include_paths (dr_remote_path result))))
       ''local_path'' (PStr (identifier_reference sha256 include_paths (dr_local_path result)))"

section \<open>Download\<close>

definition file_identity :: "remote_file_info \<Rightarrow> int \<times> pyfloat option \<times> bool \<times> bool \<times> bool" where
  "file_identity info = (fi_size info, fi_modified info, fi_directory info, fi_regular info, fi_symlink info)"

definition destination_exists :: "string \<Rightarrow> exn" where
  "destination_exists destination = FileExistsError (''local destination already exists: '' @ destination)"

definition commit_local_file :: "string \<Rightarrow> string \<Rightarrow> bool \<Rightarrow> (disk, unit) act" where
  "commit_local_file temporary destination overwrite =
     (if overwrite then replace_file temporary destination
      else bnd (catch_when is_os_error (link_file temporary destination) (\<lambda>e. case e of
               FileExistsError _ \<Rightarrow> throw (destination_exists destination)
             | _ \<Rightarrow> throw (OSError None ''atomic no-overwrite commit requires hard-link support in the destination directory'')))
           (\<lambda>_. unlink_file False temporary))"

definition temporary_name :: "posix_path \<Rightarrow> string \<Rightarrow> string" where
  "temporary_name destination uuid = ''.'' @ path_name destination @ ''.'' @ uuid @ ''.part''"

record download_config =
  dc_protocol :: string                \<comment> \<open>as the messages name it\<close>
  dc_max_bytes :: int
  dc_uuid :: string                    \<comment> \<open>the random part of the temporary name\<close>
  dc_sha256 :: "string \<Rightarrow> string"

definition limit_exceeded :: "download_config \<Rightarrow> exn" where
  "limit_exceeded cfg = TransferLimitError (''download exceeded max_download_bytes='' @ str_of_int (dc_max_bytes cfg))"

text \<open>
  \<open>stat\<close> is the client's; \<open>receive\<close> is the \<open>with\<close> block that opens the temporary file and writes what arrives
  into it, returning it.
\<close>

definition fetch_and_commit ::
  "download_config \<Rightarrow> (string \<Rightarrow> ('r transfer_world, remote_file_info) act) \<Rightarrow>
   (string \<Rightarrow> string \<Rightarrow> ('r transfer_world, string) act) \<Rightarrow> remote_file_info \<Rightarrow> string \<Rightarrow> string \<Rightarrow> bool \<Rightarrow>
   ('r transfer_world, string) act" where
  "fetch_and_commit cfg stat receive info temporary destination overwrite =
     bnd (receive (fi_path info) temporary) (\<lambda>data.
     bnd (guard_not (int (length data) \<noteq> fi_size info)
       (OSError None (dc_protocol cfg @ '' download size mismatch: expected '' @ str_of_int (fi_size info) @
          '', received '' @ str_of_int (int (length data))))) (\<lambda>_.
     bnd (stat (fi_path info)) (\<lambda>final_info.
     bnd (guard_not (file_identity final_info \<noteq> file_identity info)
       (OSError None (''remote file metadata changed during '' @ dc_protocol cfg @ '' download''))) (\<lambda>_.
     bnd (on_disk (commit_local_file temporary destination overwrite)) (\<lambda>_. ret data)))))"

definition download_with ::
  "download_config \<Rightarrow> (string \<Rightarrow> ('r transfer_world, remote_file_info) act) \<Rightarrow>
   (string \<Rightarrow> string \<Rightarrow> ('r transfer_world, string) act) \<Rightarrow> string \<Rightarrow> string \<Rightarrow> bool \<Rightarrow>
   ('r transfer_world, download_result) act" where
  "download_with cfg stat receive remote_path local_path overwrite =
     bnd (stat remote_path) (\<lambda>info.
     bnd (guard_not (\<not> fi_regular info \<or> fi_symlink info)
       (ValueError (dc_protocol cfg @ '' download only supports regular non-symlink files''))) (\<lambda>_.
     bnd (guard_not (dc_max_bytes cfg < fi_size info)
       (TransferLimitError (''remote file size '' @ str_of_int (fi_size info) @ '' exceeds max_download_bytes='' @
          str_of_int (dc_max_bytes cfg)))) (\<lambda>_.
     let destination = parse_path local_path
     in bnd (on_disk (exists_path (path_str destination))) (\<lambda>present.
        bnd (guard_not (present \<and> \<not> overwrite) (destination_exists (path_str destination))) (\<lambda>_.
        bnd (on_disk (mkdir_parents (path_str (path_parent destination)))) (\<lambda>_.
        bnd (lift (with_name destination (temporary_name destination (dc_uuid cfg)))) (\<lambda>temporary.
        bnd (catch_when is_exception
          (fetch_and_commit cfg stat receive info (path_str temporary) (path_str destination) overwrite)
          (\<lambda>e. bnd (on_disk (unlink_file True (path_str temporary))) (\<lambda>_. throw e))) (\<lambda>data.
        ret \<lparr>dr_remote_path = fi_path info, dr_local_path = path_str destination, dr_size = int (length data),
             dr_sha256 = hexdigest (dc_sha256 cfg data)\<rparr>))))))))"

section \<open>Lemmas: committing\<close>

lemma on_disk_run: "m (tw_disk w) = (r, d) \<Longrightarrow> on_disk m w = (r, w\<lparr>tw_disk := d\<rparr>)"
  by (simp add: on_disk_def)

lemma on_disk_eq: "on_disk m w = (r, w') \<longleftrightarrow> (\<exists>d. m (tw_disk w) = (r, d) \<and> w' = w\<lparr>tw_disk := d\<rparr>)"
  by (auto simp: on_disk_def split: prod.split)

lemma disk_op_faultless: "dk_faults d = [] \<Longrightarrow> disk_op m d = m d"
  by (simp add: disk_op_def next_fault_def bnd_def)

lemma disk_op_cases:
  "disk_op m d = (r, d') \<Longrightarrow>
   (\<exists>e left. r = Inl e \<and> dk_files d' = dk_files d) \<or> (\<exists>fs. m (d\<lparr>dk_faults := fs\<rparr>) = (r, d'))"
proof (cases "dk_faults d")
  case Nil
  assume "disk_op m d = (r, d')"
  then have "m d = (r, d')" using Nil by (simp add: disk_op_faultless)
  moreover have "d\<lparr>dk_faults := dk_faults d\<rparr> = d" by simp
  ultimately show ?thesis by metis
next
  case (Cons f fs)
  assume "disk_op m d = (r, d')"
  then show ?thesis using Cons
    by (auto simp: disk_op_def next_fault_def bnd_def throw_def split: disk_fault.splits)
qed

lemma replace_file_run:
  "replace_file t d D = (r, D') \<Longrightarrow>
   (case r of
      Inl e \<Rightarrow> dk_files D' = dk_files D \<and> (dk_faults D = [] \<longrightarrow> dk_faults D' = [])
    | Inr u \<Rightarrow> \<exists>c. dk_files D t = Some c \<and> dk_files D' = ((dk_files D)(t := None))(d \<mapsto> c))"
  by (cases "dk_faults D = []")
    (auto simp: replace_file_def disk_op_faultless act_simps bnd_def modify_def throw_def
      dest!: disk_op_cases split: option.splits sum.split)

lemma link_file_run:
  "link_file t d D = (r, D') \<Longrightarrow>
   (case r of
      Inl e \<Rightarrow> dk_files D' = dk_files D \<and> (dk_faults D = [] \<longrightarrow> dk_faults D' = [])
    | Inr u \<Rightarrow> \<exists>c. dk_files D t = Some c \<and> dk_files D d = None \<and> dk_files D' = (dk_files D)(d \<mapsto> c) \<and>
        (dk_faults D = [] \<longrightarrow> dk_faults D' = []))"
  by (cases "dk_faults D = []")
    (auto simp: link_file_def exists_path_def put_def disk_op_faultless act_simps bnd_def modify_def throw_def
      dest!: disk_op_cases split: option.splits sum.split if_splits)

lemma unlink_file_run:
  "unlink_file ok t D = (r, D') \<Longrightarrow>
   (case r of
      Inl e \<Rightarrow> dk_files D' = dk_files D \<and> (dk_faults D = [] \<longrightarrow> \<not> ok \<and> dk_files D t = None)
    | Inr u \<Rightarrow> dk_files D' = (dk_files D)(t := None))"
  by (cases "dk_faults D = []")
    (auto simp: unlink_file_def exists_path_def disk_op_faultless act_simps bnd_def modify_def throw_def ret_def fun_eq_iff
      dest!: disk_op_cases split: option.splits sum.split if_splits)

lemma commit_Inr:
  assumes "commit_local_file t d overwrite D = (Inr u, D')" and "t \<noteq> d"
  shows "\<exists>c. dk_files D t = Some c \<and> dk_files D' = ((dk_files D)(t := None))(d \<mapsto> c) \<and>
    (\<not> overwrite \<longrightarrow> dk_files D d = None)"
proof (cases overwrite)
  case True
  then show ?thesis using assms replace_file_run [of t d D "Inr u" D'] by (simp add: commit_local_file_def)
next
  case False
  then obtain v D1 where link: "link_file t d D = (Inr v, D1)" and unlink: "unlink_file False t D1 = (Inr u, D')"
    using assms(1)
    by (auto simp: commit_local_file_def bnd_eq_Inr catch_when_def throw_def split: prod.splits sum.splits if_splits exn.splits)
  from link_file_run [OF link] unlink_file_run [OF unlink] False assms(2) show ?thesis
    by (auto simp: fun_upd_twist)
qed

text \<open>A commit that fails leaves the destination alone, or complete when only the removal of the temporary
  name failed.\<close>

lemma commit_Inl:
  assumes "commit_local_file t d overwrite D = (Inl e, D')" and "t \<noteq> d"
  shows "(dk_files D' = dk_files D \<and> (dk_faults D = [] \<longrightarrow> dk_faults D' = [])) \<or>
    (dk_faults D \<noteq> [] \<and> \<not> overwrite \<and> dk_files D d = None \<and> (\<exists>c. dk_files D t = Some c \<and> dk_files D' = (dk_files D)(d \<mapsto> c)))"
proof (cases overwrite)
  case True
  then show ?thesis using assms replace_file_run [of t d D "Inl e" D'] by (simp add: commit_local_file_def)
next
  case False
  obtain r1 D1 where link: "link_file t d D = (r1, D1)" by (cases "link_file t d D")
  show ?thesis
  proof (cases r1)
    case (Inl e1)
    then have "D' = D1" using assms(1) False link
      by (auto simp: commit_local_file_def bnd_def catch_when_def throw_def split: if_splits exn.splits)
    then show ?thesis using link_file_run [OF link] Inl by simp
  next
    case (Inr v)
    then have unlink: "unlink_file False t D1 = (Inl e, D')" using assms(1) False link
      by (simp add: commit_local_file_def bnd_def catch_when_def)
    from link_file_run [OF link] unlink_file_run [OF unlink] Inr False assms(2) show ?thesis by auto
  qed
qed

lemma longer_join: "length a < length b \<Longrightarrow> length (join sep (ws @ [a])) < length (join sep (ws @ [b]))"
proof (induction ws)
  case (Cons w ws)
  then show ?case by (cases ws) simp_all
qed simp

lemma temporary_differs:
  assumes "with_name destination (temporary_name destination uuid) = Inr temporary"
  shows "path_str temporary \<noteq> path_str destination"
proof -
  let ?ws = "butlast (path_tail destination)"
  have tail: "path_tail destination \<noteq> []" and temporary: "temporary = destination\<lparr>path_tail := ?ws @ [temporary_name destination uuid]\<rparr>"
    using assms by (auto simp: with_name_def path_name_def split: if_splits)
  have "length (path_name destination) < length (temporary_name destination uuid)" by (simp add: temporary_name_def)
  then have "length (join [slash] (?ws @ [path_name destination])) < length (join [slash] (?ws @ [temporary_name destination uuid]))"
    by (rule longer_join)
  moreover have "?ws @ [path_name destination] = path_tail destination" using tail by (simp add: path_name_def)
  ultimately have "length (path_str destination) < length (path_str temporary)"
    using tail by (simp add: path_str_def temporary)
  then show ?thesis by auto
qed

definition temporary_path :: "download_config \<Rightarrow> string \<Rightarrow> string" where
  "temporary_path cfg local_path =
     (case with_name (parse_path local_path) (temporary_name (parse_path local_path) (dc_uuid cfg)) of
        Inr p \<Rightarrow> path_str p | Inl _ \<Rightarrow> [])"

lemma mkdir_files: "mkdir_parents p D = (r, D') \<Longrightarrow> dk_files D' = dk_files D \<and> (dk_faults D = [] \<longrightarrow> dk_faults D' = [])"
  by (auto simp: mkdir_parents_def disk_op_def next_fault_def bnd_def ret_def throw_def
      split: list.splits disk_fault.splits)

section \<open>Lemmas: runs that do not fail the disk\<close>

definition faultless :: "disk \<Rightarrow> bool" where
  "faultless d = (dk_faults d = [])"

named_theorems faultless_rules "operations that leave a disk faultless"

lemma keeps_faultless_op [faultless_rules]: "keeps faultless m \<Longrightarrow> keeps faultless (disk_op m)"
  by (simp add: keeps_def faultless_def disk_op_faultless)

lemma keeps_faultless_put [faultless_rules]: "keeps faultless (put p c)"
  by (simp add: keeps_def faultless_def put_def modify_def)

lemma keeps_faultless_exists [faultless_rules]: "keeps faultless (exists_path p)"
  unfolding exists_path_def by (rule keeps_gets)

lemma keeps_faultless_open [faultless_rules]: "keeps faultless (open_exclusive t)"
  unfolding open_exclusive_def by (intro faultless_rules keeps_intros)

lemma keeps_faultless_flush [faultless_rules]: "keeps faultless flush_sync"
  unfolding flush_sync_def by (intro faultless_rules keeps_intros)

lemma keeps_faultless_append [faultless_rules]: "keeps faultless (append_bytes t c)"
  by (simp add: keeps_def append_bytes_def write_at_def next_fault_def faultless_def bnd_def gets_def put_def modify_def)

lemma keeps_on_disk: "keeps P m \<Longrightarrow> keeps (\<lambda>w. P (tw_disk w)) (on_disk m)"
  by (auto simp: keeps_def on_disk_def split: prod.splits)

lemma keeps_on_remote: "keeps (\<lambda>w. P (tw_disk w)) (on_remote m)"
  by (simp add: keeps_def on_remote_def split: prod.splits)

lemma remote_keeps_on_remote: "keeps P m \<Longrightarrow> keeps (\<lambda>w. P (tw_remote w)) (on_remote m)"
  by (auto simp: keeps_def on_remote_def split: prod.splits)

lemma remote_keeps_on_disk: "keeps (\<lambda>w. P (tw_remote w)) (on_disk m)"
  by (simp add: keeps_def on_disk_def split: prod.splits)

lemma open_exclusive_Inr: "open_exclusive t D = (Inr u, D') \<Longrightarrow> dk_files D' t = Some []"
  by (auto simp: open_exclusive_def exists_path_def put_def gets_def modify_def throw_def bnd_def
      dest!: disk_op_cases split: if_splits)

lemma append_bytes_Inr:
  "append_bytes t c D = (Inr u, D') \<Longrightarrow> dk_files D t = Some b \<Longrightarrow> dk_files D' t = Some (b @ c)"
  by (auto simp: append_bytes_def write_at_def next_fault_def bnd_def gets_def put_def modify_def throw_def
      split: list.splits disk_fault.splits option.splits)

lemma flush_sync_files: "flush_sync D = (r, D') \<Longrightarrow> dk_files D' = dk_files D"
  by (auto simp: flush_sync_def ret_def dest!: disk_op_cases)

section \<open>What a download needs of its client\<close>

text \<open>
  A client's \<open>stat\<close> leaves the disk alone; \<open>receive\<close> touches only the temporary file, does not make the
  disk fail, and on success has written there what it returns, within the limit.
\<close>

locale byte_source =
  fixes cfg :: download_config
    and stat :: "string \<Rightarrow> ('r transfer_world, remote_file_info) act"
    and receive :: "string \<Rightarrow> string \<Rightarrow> ('r transfer_world, string) act"
  assumes stat_disk: "stat p w = (ri, w') \<Longrightarrow> tw_disk w' = tw_disk w"
    and receive_touches: "receive p t w = (rs, w') \<Longrightarrow> only_touches {t} (dk_files (tw_disk w)) (tw_disk w')"
    and receive_data: "receive p t w = (Inr data, w') \<Longrightarrow> dk_files (tw_disk w') t = Some data"
    and receive_faultless: "receive p t w = (rs, w') \<Longrightarrow> dk_faults (tw_disk w) = [] \<Longrightarrow> dk_faults (tw_disk w') = []"
begin

lemma fetch_Inr:
  assumes "fetch_and_commit cfg stat receive info t d overwrite w = (Inr data, w')" and "t \<noteq> d"
  shows "dk_files (tw_disk w') = (dk_files (tw_disk w))(t := None, d := Some data) \<and>
    int (length data) = fi_size info \<and>
    (\<not> overwrite \<longrightarrow> dk_files (tw_disk w) d = None)"
proof -
  obtain w1 w2 final D where receive: "receive (fi_path info) t w = (Inr data, w1)"
    and size: "int (length data) = fi_size info"
    and stat: "stat (fi_path info) w1 = (Inr final, w2)"
    and commit: "commit_local_file t d overwrite (tw_disk w2) = (Inr (), D)" and w': "w' = w2\<lparr>tw_disk := D\<rparr>"
    using assms(1)
    by (auto simp: fetch_and_commit_def bnd_eq_Inr guard_not_def on_disk_eq ret_def throw_def split: if_splits)
  have disk: "tw_disk w2 = tw_disk w1" by (rule stat_disk [OF stat])
  obtain c where "dk_files (tw_disk w1) t = Some c" "dk_files D = ((dk_files (tw_disk w1))(t := None))(d \<mapsto> c)"
    "\<not> overwrite \<longrightarrow> dk_files (tw_disk w1) d = None"
    using commit_Inr [OF commit assms(2)] disk by auto
  with receive_data [OF receive] receive_touches [OF receive] size assms(2) show ?thesis
    by (auto simp: w' only_touches_def fun_eq_iff)
qed

lemma fetch_Inl:
  assumes "fetch_and_commit cfg stat receive info t d overwrite w = (Inl e, w')" and "t \<noteq> d"
  shows "only_touches {t} (dk_files (tw_disk w)) (tw_disk w') \<and> (dk_faults (tw_disk w) = [] \<longrightarrow> dk_faults (tw_disk w') = []) \<or>
    (dk_faults (tw_disk w) \<noteq> [] \<and> \<not> overwrite \<and> dk_files (tw_disk w) d = None \<and> only_touches {t, d} (dk_files (tw_disk w)) (tw_disk w'))"
proof -
  obtain r1 w1 where receive: "receive (fi_path info) t w = (r1, w1)" by (cases "receive (fi_path info) t w")
  note touched = receive_touches [OF receive] receive_faultless [OF receive]
  show ?thesis
  proof (cases "r1")
    case (Inl e1)
    then show ?thesis using assms(1) receive touched by (auto simp: fetch_and_commit_def bnd_def)
  next
    case (Inr data)
    obtain r2 w2 where stat: "stat (fi_path info) w1 = (r2, w2)" by (cases "stat (fi_path info) w1")
    note disk = stat_disk [OF stat]
    have ends: "w' = w1 \<or> w' = w2 \<or> (\<exists>D. commit_local_file t d overwrite (tw_disk w2) = (Inl e, D) \<and> w' = w2\<lparr>tw_disk := D\<rparr>)"
      using assms(1) receive stat Inr
      by (auto simp: fetch_and_commit_def bnd_def guard_not_def throw_def ret_def on_disk_def
          split: if_splits sum.splits prod.splits)
    then show ?thesis
    proof (elim disjE exE conjE)
      fix D
      assume commit: "commit_local_file t d overwrite (tw_disk w2) = (Inl e, D)" and w': "w' = w2\<lparr>tw_disk := D\<rparr>"
      from commit_Inl [OF commit assms(2)] touched disk w' assms(2) show ?thesis
        by (auto simp: only_touches_def)
    qed (use touched disk in auto)
  qed
qed

text \<open>The rest of a download, once the remote file was found fit and its disk names are known.\<close>

lemma guarded_fetch_Inl:
  assumes "catch_when is_exception (fetch_and_commit cfg stat receive info t d overwrite)
      (\<lambda>e. bnd (on_disk (unlink_file True t)) (\<lambda>_. throw e)) w = (Inl e, w')" and "t \<noteq> d"
  shows "only_touches {t, d} (dk_files (tw_disk w)) (tw_disk w') \<and>
    (\<not> overwrite \<and> dk_files (tw_disk w) d \<noteq> None \<longrightarrow> dk_files (tw_disk w') d = dk_files (tw_disk w) d) \<and>
    (is_exception e \<and> dk_faults (tw_disk w) = [] \<and> dk_files (tw_disk w) t = None \<longrightarrow> dk_files (tw_disk w') = dk_files (tw_disk w))"
proof -
  obtain e1 w1 where fetch: "fetch_and_commit cfg stat receive info t d overwrite w = (Inl e1, w1)"
    using assms(1) by (cases "fetch_and_commit cfg stat receive info t d overwrite w") (auto simp: catch_when_def split: sum.splits)
  note first = fetch_Inl [OF fetch assms(2)]
  show ?thesis
  proof (cases "is_exception e1")
    case False
    then have "w' = w1" "e = e1" using assms(1) fetch by (auto simp: catch_when_def)
    with first False assms(2) show ?thesis by (auto simp: only_touches_def)
  next
    case True
    obtain r2 D where unlink: "unlink_file True t (tw_disk w1) = (r2, D)" by (cases "unlink_file True t (tw_disk w1)")
    then have w': "w' = w1\<lparr>tw_disk := D\<rparr>" using assms(1) fetch True
      by (auto simp: catch_when_def bnd_def on_disk_def throw_def split: sum.splits)
    from unlink_file_run [OF unlink]
    have D: "dk_files D = dk_files (tw_disk w1) \<or> dk_files D = (dk_files (tw_disk w1))(t := None)"
      and clean: "dk_faults (tw_disk w1) = [] \<Longrightarrow> dk_files D = (dk_files (tw_disk w1))(t := None)"
      by (cases r2; simp)+
    have "dk_faults (tw_disk w) = [] \<and> dk_files (tw_disk w) t = None \<longrightarrow> dk_files D = dk_files (tw_disk w)"
      using first clean by (auto simp: only_touches_def fun_eq_iff)
    moreover have "only_touches {t, d} (dk_files (tw_disk w)) D"
      using first D by (auto simp: only_touches_def)
    moreover have "\<not> overwrite \<and> dk_files (tw_disk w) d \<noteq> None \<longrightarrow> dk_files D d = dk_files (tw_disk w) d"
      using first D assms(2) by (auto simp: only_touches_def)
    ultimately show ?thesis by (simp add: w')
  qed
qed

text \<open>What a download leaves, on success and on failure.\<close>

lemma download_Inr:
  assumes "download_with cfg stat receive remote_path local_path overwrite w = (Inr res, w')"
  shows "\<exists>data. dk_files (tw_disk w') =
      (dk_files (tw_disk w))(temporary_path cfg local_path := None, norm_path_str local_path := Some data) \<and>
    dr_local_path res = norm_path_str local_path \<and>
    dr_size res = int (length data) \<and> dr_size res \<le> dc_max_bytes cfg \<and> dr_sha256 res = hexdigest (dc_sha256 cfg data) \<and>
    (\<not> overwrite \<longrightarrow> dk_files (tw_disk w) (norm_path_str local_path) = None)"
proof -
  let ?dest = "parse_path local_path"
  obtain info w1 D present temporary data where stat: "stat remote_path w = (Inr info, w1)"
    and mkdir: "mkdir_parents (path_str (path_parent ?dest)) (tw_disk w1) = (Inr (), D)"
    and name: "with_name ?dest (temporary_name ?dest (dc_uuid cfg)) = Inr temporary"
    and fetch: "fetch_and_commit cfg stat receive info (path_str temporary) (path_str ?dest) overwrite (w1\<lparr>tw_disk := D\<rparr>) = (Inr data, w')"
    and fits: "\<not> dc_max_bytes cfg < fi_size info"
    and res: "res = \<lparr>dr_remote_path = fi_path info, dr_local_path = path_str ?dest, dr_size = int (length data),
             dr_sha256 = hexdigest (dc_sha256 cfg data)\<rparr>"
    using assms
    by (auto simp: download_with_def bnd_eq_Inr Let_def on_disk_eq exists_path_def gets_run lift_run ret_run
        guard_not_def throw_run catch_rethrow_Inr split: if_splits)
  have t: "temporary_path cfg local_path = path_str temporary" by (simp add: temporary_path_def name)
  show ?thesis
    using fetch_Inr [OF fetch temporary_differs [OF name]] mkdir_files [OF mkdir] stat_disk [OF stat] fits
    by (auto simp: res t norm_path_str_def)
qed

lemma download_Inl:
  assumes "download_with cfg stat receive remote_path local_path overwrite w = (Inl e, w')"
  shows "only_touches {temporary_path cfg local_path, norm_path_str local_path} (dk_files (tw_disk w)) (tw_disk w') \<and>
    (\<not> overwrite \<and> dk_files (tw_disk w) (norm_path_str local_path) \<noteq> None \<longrightarrow>
       dk_files (tw_disk w') (norm_path_str local_path) = dk_files (tw_disk w) (norm_path_str local_path)) \<and>
    (is_exception e \<and> dk_faults (tw_disk w) = [] \<and> dk_files (tw_disk w) (temporary_path cfg local_path) = None \<longrightarrow>
       dk_files (tw_disk w') = dk_files (tw_disk w))"
proof -
  let ?dest = "parse_path local_path"
  let ?guarded = "\<lambda>info temporary. catch_when is_exception
      (fetch_and_commit cfg stat receive info (path_str temporary) (path_str ?dest) overwrite)
      (\<lambda>e. bnd (on_disk (unlink_file True (path_str temporary))) (\<lambda>_. throw e))"
  obtain r1 w1 where stat: "stat remote_path w = (r1, w1)" by (cases "stat remote_path w")
  obtain r2 D where mkdir: "mkdir_parents (path_str (path_parent ?dest)) (tw_disk w1) = (r2, D)"
    by (cases "mkdir_parents (path_str (path_parent ?dest)) (tw_disk w1)")
  have ends: "w' = w1 \<or> w' = w1\<lparr>tw_disk := D\<rparr> \<or>
     (\<exists>info temporary. with_name ?dest (temporary_name ?dest (dc_uuid cfg)) = Inr temporary \<and>
        ?guarded info temporary (w1\<lparr>tw_disk := D\<rparr>) = (Inl e, w'))"
    using assms stat mkdir
    by (auto simp: download_with_def bnd_def Let_def on_disk_def exists_path_def gets_run lift_run ret_run
        guard_not_def throw_run split: prod.splits sum.splits if_splits)
  note same = stat_disk [OF stat] mkdir_files [OF mkdir]
  from ends show ?thesis
  proof (elim disjE exE conjE)
    fix info temporary
    assume name: "with_name ?dest (temporary_name ?dest (dc_uuid cfg)) = Inr temporary"
      and run: "?guarded info temporary (w1\<lparr>tw_disk := D\<rparr>) = (Inl e, w')"
    have t: "temporary_path cfg local_path = path_str temporary" by (simp add: temporary_path_def name)
    show ?thesis
      using guarded_fetch_Inl [OF run temporary_differs [OF name]] same by (simp add: t norm_path_str_def)
  qed (use same in \<open>simp_all add: only_touches_def\<close>)
qed

end

end
