(* ===== verification/Sftp.thy ===== *)
theory Sftp
  imports FileTransfer SshSession
begin

text \<open>
  The read-only SFTP client, \<open>cli_tool/transfer/sftp.py\<close>. paramiko's client and SFTP session are a record
  of runs on a server state, so the server may answer anything and fail anywhere. An error with an \<open>errno\<close> is
  \<open>OSError (Some errno)\<close>.
\<close>

section \<open>The server\<close>

record sftp_attributes =
  at_filename :: string
  at_mode :: "int option"
  at_size :: "int option"
  at_mtime :: "int option"

datatype sftp_auth = PasswordAuth string | KeyAuth string "string option"

record 'e sftp_env =
  sv_installed :: bool
  sv_expanduser :: "string \<Rightarrow> string"
  sv_is_file :: "string \<Rightarrow> bool"
  sv_connect :: "sftp_auth \<Rightarrow> ('e, unit) act"
  sv_open_sftp :: "('e, unit) act"
  sv_close_client :: "('e, unit) act"
  sv_close_sftp :: "('e, unit) act"
  sv_listdir_attr :: "string \<Rightarrow> ('e, sftp_attributes list) act"
  sv_lstat :: "string \<Rightarrow> ('e, sftp_attributes) act"
  sv_open_file :: "string \<Rightarrow> ('e, unit) act"
  sv_read :: "int \<Rightarrow> ('e, string) act"
  sv_close_file :: "('e, unit) act"

section \<open>The client\<close>

record sftp_config =
  sf_host :: string
  sf_username :: string
  sf_password :: "string option"
  sf_port :: int
  sf_timeout :: rat
  sf_known_hosts :: "string option"
  sf_allow_unknown :: bool
  sf_private_key :: "string option"
  sf_passphrase :: "string option"
  sf_remote_root :: string
  sf_max_bytes :: int
  sf_chunk_size :: int
  sf_uuid :: string
  sf_sha256 :: "string \<Rightarrow> string"

text \<open>\<open>__init__\<close>: the checks, in order, and the fields it resolves.\<close>

definition sftp_init :: "'e sftp_env \<Rightarrow> sftp_config \<Rightarrow> sftp_config result" where
  "sftp_init env cfg =
     and_then (raise_when (sf_host cfg = []) (ValueError ''host is required'')) (\<lambda>_.
     and_then (raise_when (sf_username cfg = []) (ValueError ''username is required'')) (\<lambda>_.
     and_then (raise_when (some_text (sf_password cfg) = some_text (sf_private_key cfg))
       (ValueError ''configure exactly one SFTP auth method: password or private_key_path'')) (\<lambda>_.
     and_then (raise_when (some_text (sf_passphrase cfg) \<and> sf_private_key cfg = None)
       (ValueError ''private_key_passphrase requires private_key_path'')) (\<lambda>_.
     let key = (if some_text (sf_private_key cfg) then map_option (sv_expanduser env) (sf_private_key cfg) else None)
     in and_then (case key of
            None \<Rightarrow> Inr ()
          | Some path \<Rightarrow> raise_when (\<not> sv_is_file env path)
              (FileNotFoundError (''private key file does not exist: '' @ path))) (\<lambda>_.
        and_then (raise_when (sf_port cfg < 1 \<or> sf_port cfg > 65535) (ValueError ''port must be between 1 and 65535'')) (\<lambda>_.
        and_then (raise_when (sf_timeout cfg \<le> 0) (ValueError ''timeout must be greater than 0'')) (\<lambda>_.
        and_then (raise_when (sf_max_bytes cfg < 1) (ValueError ''max_download_bytes must be greater than 0'')) (\<lambda>_.
        and_then (raise_when (sf_chunk_size cfg < 1) (ValueError ''chunk_size must be greater than 0'')) (\<lambda>_.
        and_then (resolve_remote_path (sf_remote_root cfg) ''.'') (\<lambda>root.
        Inr (cfg\<lparr>sf_private_key := key, sf_remote_root := root\<rparr>)))))))))))"

record 'e sftp_client =
  cl_server :: 'e
  cl_sftp :: bool
  cl_client :: bool
  cl_calls :: "ssh_call list"

type_synonym 'e sftp_world = "'e sftp_client transfer_world"

definition on_server :: "('e, 'a) act \<Rightarrow> ('e sftp_world, 'a) act" where
  "on_server m = on_remote (\<lambda>c. case m (cl_server c) of (r, e) \<Rightarrow> (r, c\<lparr>cl_server := e\<rparr>))"

definition set_client :: "('e sftp_client \<Rightarrow> 'e sftp_client) \<Rightarrow> ('e sftp_world, unit) act" where
  "set_client f = on_remote (modify f)"

definition configure_client :: "'e sftp_env \<Rightarrow> sftp_config \<Rightarrow> ('e sftp_world, unit) act" where
  "configure_client env cfg = on_remote (\<lambda>c.
     case configure_ssh_host_keys (sv_expanduser env) (sv_is_file env) (sf_known_hosts cfg) (sf_allow_unknown cfg)
            (cl_calls c @ [NewClient]) of
       (r, calls) \<Rightarrow> (r, c\<lparr>cl_calls := calls\<rparr>))"

definition sftp_auth_of :: "sftp_config \<Rightarrow> sftp_auth" where
  "sftp_auth_of cfg =
     (case sf_private_key cfg of
        Some path \<Rightarrow> KeyAuth path (sf_passphrase cfg)
      | None \<Rightarrow> PasswordAuth (case sf_password cfg of None \<Rightarrow> [] | Some p \<Rightarrow> p))"

definition sftp_connect :: "'e sftp_env \<Rightarrow> sftp_config \<Rightarrow> ('e sftp_world, unit) act" where
  "sftp_connect env cfg =
     bnd (gets (\<lambda>w. cl_sftp (tw_remote w))) (\<lambda>is_open.
     if is_open then ret ()
     else bnd (guard_not (\<not> sv_installed env) (RuntimeError ''paramiko is required for SFTP transfer'')) (\<lambda>_.
          bnd (configure_client env cfg) (\<lambda>_.
          catch_when is_exception
            (bnd (set_client (\<lambda>c. c\<lparr>cl_calls := cl_calls c @ [ClientConnect]\<rparr>)) (\<lambda>_.
             bnd (on_server (sv_connect env (sftp_auth_of cfg))) (\<lambda>_.
             bnd (on_server (sv_open_sftp env)) (\<lambda>_.
             set_client (\<lambda>c. c\<lparr>cl_sftp := True, cl_client := True\<rparr>)))))
            (\<lambda>e. bnd (on_server (sv_close_client env)) (\<lambda>_. throw e)))))"

definition sftp_close :: "'e sftp_env \<Rightarrow> ('e sftp_world, unit) act" where
  "sftp_close env =
     bnd (gets (\<lambda>w. (cl_sftp (tw_remote w), cl_client (tw_remote w)))) (\<lambda>(sftp, client).
     bnd (try_finally
       (if sftp then on_server (sv_close_sftp env) else ret ())
       (bnd (set_client (\<lambda>c. c\<lparr>cl_sftp := False\<rparr>)) (\<lambda>_.
        try_finally
          (if client then on_server (sv_close_client env) else ret ())
          (set_client (\<lambda>c. c\<lparr>cl_client := False\<rparr>))))) (\<lambda>_. ret ()))"

definition require_sftp :: "'e sftp_env \<Rightarrow> sftp_config \<Rightarrow> ('e sftp_world, unit) act" where
  "require_sftp env cfg =
     bnd (sftp_connect env cfg) (\<lambda>_.
     bnd (gets (\<lambda>w. cl_sftp (tw_remote w))) (\<lambda>is_open.
     guard_not (\<not> is_open) (RuntimeError ''SFTP session is not available'')))"

definition sftp_resolve :: "sftp_config \<Rightarrow> string \<Rightarrow> string result" where
  "sftp_resolve cfg remote_path = resolve_remote_path (sf_remote_root cfg) remote_path"

text \<open>\<open>stat.S_ISDIR\<close>, \<open>S_ISREG\<close>, \<open>S_ISLNK\<close>: the file type bits of the mode.\<close>

definition file_type_bits :: "int \<Rightarrow> int" where
  "file_type_bits mode = mode div 4096 mod 16"

definition int_or_zero :: "int option \<Rightarrow> int" where
  "int_or_zero v = (case v of None \<Rightarrow> 0 | Some n \<Rightarrow> n)"

definition optional_float :: "int option \<Rightarrow> pyfloat option" where
  "optional_float v = map_option (\<lambda>n. Fin (of_int n)) v"

definition sftp_file_info :: "string \<Rightarrow> sftp_attributes \<Rightarrow> remote_file_info" where
  "sftp_file_info path attributes =
     (let mode = int_or_zero (at_mode attributes)
      in \<lparr>fi_path = path, fi_size = int_or_zero (at_size attributes), fi_modified = optional_float (at_mtime attributes),
          fi_directory = (file_type_bits mode = 4), fi_regular = (file_type_bits mode = 8),
          fi_symlink = (file_type_bits mode = 10)\<rparr>)"

definition posix_join :: "string \<Rightarrow> string \<Rightarrow> string" where
  "posix_join a b =
     (if take 1 b = [slash] then b
      else if a = [] \<or> last a = slash then a @ b
      else a @ [slash] @ b)"

definition sftp_list_files :: "'e sftp_env \<Rightarrow> sftp_config \<Rightarrow> string \<Rightarrow> ('e sftp_world, remote_file_info list) act" where
  "sftp_list_files env cfg remote_path =
     bnd (lift (sftp_resolve cfg remote_path)) (\<lambda>directory.
     bnd (require_sftp env cfg) (\<lambda>_.
     bnd (on_server (sv_listdir_attr env directory)) (\<lambda>attributes.
     bnd (lift (traverse (\<lambda>a.
         and_then (sftp_resolve cfg (posix_join directory (at_filename a))) (\<lambda>path. Inr (sftp_file_info path a)))
       attributes)) (\<lambda>results.
     ret (sort_key fi_path results)))))"

definition sftp_stat :: "'e sftp_env \<Rightarrow> sftp_config \<Rightarrow> string \<Rightarrow> ('e sftp_world, remote_file_info) act" where
  "sftp_stat env cfg remote_path =
     bnd (lift (sftp_resolve cfg remote_path)) (\<lambda>resolved.
     bnd (require_sftp env cfg) (\<lambda>_.
     bnd (on_server (sv_lstat env resolved)) (\<lambda>attributes.
     ret (sftp_file_info resolved attributes))))"

definition sftp_not_found :: "exn \<Rightarrow> bool" where
  "sftp_not_found e = (case e of OSError (Some n) _ \<Rightarrow> n = 2 | _ \<Rightarrow> False)"

definition sftp_exists :: "'e sftp_env \<Rightarrow> sftp_config \<Rightarrow> string \<Rightarrow> ('e sftp_world, bool) act" where
  "sftp_exists env cfg remote_path =
     catch_when is_os_error (bnd (sftp_stat env cfg remote_path) (\<lambda>_. ret True))
       (\<lambda>e. if sftp_not_found e then ret False else throw e)"

definition sftp_download_config :: "sftp_config \<Rightarrow> download_config" where
  "sftp_download_config cfg =
     \<lparr>dc_protocol = ''SFTP'', dc_max_bytes = sf_max_bytes cfg, dc_uuid = sf_uuid cfg, dc_sha256 = sf_sha256 cfg\<rparr>"

text \<open>The loop over the chunks. Every chunk but the last, empty one brings the total nearer to the limit.\<close>

function receive_chunks ::
  "('e sftp_world, string) act \<Rightarrow> download_config \<Rightarrow> string \<Rightarrow> string \<Rightarrow> ('e sftp_world, string) act" where
  "receive_chunks read_chunk dcfg temporary acc w =
     (case read_chunk w of
        (Inl e, w1) \<Rightarrow> (Inl e, w1)
      | (Inr chunk, w1) \<Rightarrow>
          if chunk = [] then (Inr acc, w1)
          else if dc_max_bytes dcfg < int (length acc + length chunk) then (Inl (limit_exceeded dcfg), w1)
          else (case on_disk (append_bytes temporary chunk) w1 of
                  (Inl e, w2) \<Rightarrow> (Inl e, w2)
                | (Inr _, w2) \<Rightarrow> receive_chunks read_chunk dcfg temporary (acc @ chunk) w2))"
  by pat_completeness auto
termination
  by (relation "measure (\<lambda>(read_chunk, dcfg, temporary, acc, w). nat (dc_max_bytes dcfg) - length acc)")
    (simp, clarsimp simp: neq_Nil_conv, arith)

declare receive_chunks.simps [simp del]

definition sftp_receive :: "'e sftp_env \<Rightarrow> sftp_config \<Rightarrow> string \<Rightarrow> string \<Rightarrow> ('e sftp_world, string) act" where
  "sftp_receive env cfg remote_path temporary =
     bnd (require_sftp env cfg) (\<lambda>_.
     bnd (on_server (sv_open_file env remote_path)) (\<lambda>_.
     bnd (try_finally
       (bnd (on_disk (open_exclusive temporary)) (\<lambda>_.
        bnd (receive_chunks (on_server (sv_read env (sf_chunk_size cfg))) (sftp_download_config cfg) temporary []) (\<lambda>data.
        bnd (on_disk flush_sync) (\<lambda>_. ret data))))
       (on_server (sv_close_file env))) (\<lambda>(data, _). ret data)))"

definition sftp_download ::
  "'e sftp_env \<Rightarrow> sftp_config \<Rightarrow> string \<Rightarrow> string \<Rightarrow> bool \<Rightarrow> ('e sftp_world, download_result) act" where
  "sftp_download env cfg = download_with (sftp_download_config cfg) (sftp_stat env cfg) (sftp_receive env cfg)"

section \<open>Lemmas\<close>

lemma keeps_disk_remote:
  "keeps (\<lambda>w. P (tw_disk w)) (on_server m)" "keeps (\<lambda>w. P (tw_disk w)) (set_client f)"
  "keeps (\<lambda>w. P (tw_disk w)) (configure_client env cfg)"
  unfolding on_server_def set_client_def configure_client_def by (rule keeps_on_remote)+

lemma keeps_disk_require: "keeps (\<lambda>w. P (tw_disk w)) (require_sftp env cfg)"
  unfolding require_sftp_def sftp_connect_def by (intro keeps_intros keeps_disk_remote)

lemma keeps_disk_stat: "keeps (\<lambda>w. P (tw_disk w)) (sftp_stat env cfg p)"
  unfolding sftp_stat_def by (intro keeps_intros keeps_disk_remote keeps_disk_require)

text \<open>The loop keeps a relation between the bytes so far and the disk.\<close>

lemma receive_chunks_inv:
  assumes "\<And>w r w'. read_chunk w = (r, w') \<Longrightarrow> tw_disk w' = tw_disk w"
    and "\<And>b c D r D'. J b D \<Longrightarrow> append_bytes t c D = (r, D') \<Longrightarrow> (case r of Inr _ \<Rightarrow> J (b @ c) D' | Inl _ \<Rightarrow> K D')"
    and "\<And>b D. J b D \<Longrightarrow> K D"
    and "J acc (tw_disk w)" and "receive_chunks read_chunk dcfg t acc w = (r, w')"
  shows "case r of Inr data \<Rightarrow> J data (tw_disk w') | Inl _ \<Rightarrow> K (tw_disk w')"
  using assms
proof (induction read_chunk dcfg t acc w rule: receive_chunks.induct)
  case (1 read_chunk dcfg t acc w)
  note loop = receive_chunks.simps [of read_chunk dcfg t acc w]
  obtain r1 w1 where read: "read_chunk w = (r1, w1)" by (cases "read_chunk w")
  have same: "tw_disk w1 = tw_disk w" by (rule "1.prems"(1) [OF read])
  show ?case
  proof (cases "\<exists>chunk. r1 = Inr chunk \<and> chunk \<noteq> [] \<and> int (length acc + length chunk) \<le> dc_max_bytes dcfg")
    case False
    then show ?thesis using "1.prems"(3,4,5) read same
      by (auto simp: loop split: sum.splits if_splits)
  next
    case True
    then obtain chunk where chunk: "r1 = Inr chunk" "chunk \<noteq> []" "\<not> dc_max_bytes dcfg < int (length acc + length chunk)"
      by auto
    obtain r2 w2 where app: "on_disk (append_bytes t chunk) w1 = (r2, w2)"
      by (cases "on_disk (append_bytes t chunk) w1")
    then have D: "append_bytes t chunk (tw_disk w) = (r2, tw_disk w2)" using same by (auto simp: on_disk_eq)
    show ?thesis
    proof (cases r2)
      case (Inl e)
      then show ?thesis using "1.prems"(2) [OF "1.prems"(4) D] "1.prems"(5) read chunk app by (auto simp: loop)
    next
      case (Inr u)
      then have a: "J (acc @ chunk) (tw_disk w2)" using "1.prems"(2) [OF "1.prems"(4) D] by simp
      have b: "receive_chunks read_chunk dcfg t (acc @ chunk) w2 = (r, w')"
        using "1.prems"(5) read chunk app Inr by (simp add: loop)
      show ?thesis
        by (rule "1.IH" [OF read [symmetric] chunk(1,2,3) app [symmetric] Inr])
          (erule "1.prems"(1) | erule (1) "1.prems"(2) | erule "1.prems"(3) | rule a | rule b)+
    qed
  qed
qed

text \<open>Reading leaves the disk alone.\<close>

lemma on_server_disk: "on_server m w = (r, w') \<Longrightarrow> tw_disk w' = tw_disk w"
  by (auto simp: on_server_def on_remote_def split: prod.splits)

lemma require_disk: "require_sftp env cfg w = (r, w') \<Longrightarrow> tw_disk w' = tw_disk w"
  using keepsD [OF keeps_disk_require [where P = "\<lambda>d. d = tw_disk w"]] by blast

lemma stat_disk: "sftp_stat env cfg p w = (r, w') \<Longrightarrow> tw_disk w' = tw_disk w"
  using keepsD [OF keeps_disk_stat [where P = "\<lambda>d. d = tw_disk w"]] by blast

text \<open>One run of \<open>sftp_receive\<close>: a predicate that holds of the disk before, and is kept by its disk
  operations.\<close>

lemma keeps_receive:
  assumes "\<And>c. keeps P (append_bytes t c)" and "keeps P (open_exclusive t)" and "keeps P flush_sync"
  shows "keeps (\<lambda>w. P (tw_disk w)) (sftp_receive env cfg p t)"
proof -
  have chunks: "keeps (\<lambda>w. P (tw_disk w)) (receive_chunks (on_server m) dcfg t acc)" for m :: "('a, string) act" and dcfg acc
    unfolding keeps_def
  proof (intro allI impI)
    fix w :: "'a sftp_world"
    assume P: "P (tw_disk w)"
    obtain r w' where run: "receive_chunks (on_server m) dcfg t acc w = (r, w')"
      by (cases "receive_chunks (on_server m) dcfg t acc w")
    have app: "(case r of Inr _ \<Rightarrow> P D' | Inl _ \<Rightarrow> P D')" if "P D" "append_bytes t c D = (r, D')" for c D r D'
      using keepsD [OF assms(1) that(2,1)] by (simp split: sum.split)
    show "P (tw_disk (snd (receive_chunks (on_server m) dcfg t acc w)))"
      using receive_chunks_inv [where J = "\<lambda>_. P" and K = P, OF on_server_disk app _ P run] run
      by (auto split: sum.splits)
  qed
  show ?thesis
    unfolding sftp_receive_def
    by (intro keeps_intros keeps_disk_require keeps_disk_remote chunks keeps_on_disk assms)
qed

lemma receive_content:
  assumes "sftp_receive env cfg p t w = (Inr data, w')"
  shows "dk_files (tw_disk w') t = Some data"
proof -
  obtain w2 w3 w4 w5 where opened: "on_disk (open_exclusive t) w2 = (Inr (), w3)"
    and chunks: "receive_chunks (on_server (sv_read env (sf_chunk_size cfg))) (sftp_download_config cfg) t [] w3 = (Inr data, w4)"
    and flush: "on_disk flush_sync w4 = (Inr (), w5)" and close: "tw_disk w' = tw_disk w5"
    using assms
    by (fastforce simp: sftp_receive_def bnd_eq_Inr ret_run finally_eq_Inr dest: on_server_disk)
  have "dk_files (tw_disk w3) t = Some []" using opened open_exclusive_Inr by (auto simp: on_disk_eq)
  moreover have "case r of Inr _ \<Rightarrow> dk_files D' t = Some (b @ c) | Inl _ \<Rightarrow> True"
    if "dk_files D t = Some b" "append_bytes t c D = (r, D')" for b c D r D'
    using append_bytes_Inr that by (cases r) auto
  ultimately have "dk_files (tw_disk w4) t = Some data"
    using receive_chunks_inv [where J = "\<lambda>b D. dk_files D t = Some b" and K = "\<lambda>_. True", OF on_server_disk _ _ _ chunks] by simp
  then show ?thesis using flush flush_sync_files close by (auto simp: on_disk_eq)
qed

interpretation sftp_source: byte_source "sftp_download_config cfg" "sftp_stat env cfg" "sftp_receive env cfg" for env cfg
proof
  show "sftp_stat env cfg p w = (ri, w') \<Longrightarrow> tw_disk w' = tw_disk w" for p w ri w' by (rule stat_disk)
  show "sftp_receive env cfg p t w = (Inr data, w') \<Longrightarrow> dk_files (tw_disk w') t = Some data" for p t w w' data
    by (rule receive_content)
  show "only_touches {t} (dk_files (tw_disk w)) (tw_disk w')" if "sftp_receive env cfg p t w = (rs, w')" for p t w rs w'
    using keepsD [OF keeps_receive [where P = "only_touches {t} (dk_files (tw_disk w))"] that]
    by (simp add: touch_rules only_touches_def)
  show "dk_faults (tw_disk w') = []" if "sftp_receive env cfg p t w = (rs, w')" "dk_faults (tw_disk w) = []" for p t w rs w'
    using keepsD [OF keeps_receive [where P = faultless] that(1)] that(2) by (simp add: faultless_rules faultless_def)
qed

section \<open>Properties\<close>


text \<open>A server with one file that arrives in the given chunks.\<close>

definition demo_server :: "int \<Rightarrow> string list sftp_env" where
  "demo_server n =
     \<lparr>sv_installed = True, sv_expanduser = id, sv_is_file = (\<lambda>_. False), sv_connect = (\<lambda>_. ret ()), sv_open_sftp = ret (),
      sv_close_client = ret (), sv_close_sftp = ret (), sv_listdir_attr = (\<lambda>_. ret []),
      sv_lstat = (\<lambda>_. ret \<lparr>at_filename = ''f'', at_mode = Some 33188, at_size = Some n, at_mtime = Some 7\<rparr>),
      sv_open_file = (\<lambda>_. ret ()),
      sv_read = (\<lambda>_ chunks. case chunks of [] \<Rightarrow> (Inr [], []) | c # cs \<Rightarrow> (Inr c, cs)),
      sv_close_file = ret ()\<rparr>"

definition demo_sftp :: sftp_config where
  "demo_sftp =
     \<lparr>sf_host = ''h'', sf_username = ''u'', sf_password = Some ''p'', sf_port = 22, sf_timeout = 5, sf_known_hosts = None,
      sf_allow_unknown = False, sf_private_key = None, sf_passphrase = None, sf_remote_root = ''/data'', sf_max_bytes = 10,
      sf_chunk_size = 4, sf_uuid = ''aa'', sf_sha256 = id\<rparr>"

definition demo_sftp_world :: "string list \<Rightarrow> string list sftp_world" where
  "demo_sftp_world chunks =
     \<lparr>tw_remote = \<lparr>cl_server = chunks, cl_sftp = False, cl_client = False, cl_calls = []\<rparr>,
      tw_disk = \<lparr>dk_files = (\<lambda>_. None), dk_faults = []\<rparr>\<rparr>"


end
