(* ===== verification/FtpParse.thy ===== *)
theory FtpParse
  imports FileTransfer PyRegex
begin

text \<open>
  The parsers of \<open>cli_tool/transfer/ftp.py\<close>: MLST facts, time stamps, and the strict UNIX listing, with the
  parts of \<open>datetime\<close> that they use. The proleptic Gregorian calendar is that of \<open>datetime\<close>.
\<close>

section \<open>datetime\<close>

definition leap_year :: "nat \<Rightarrow> bool" where
  "leap_year y = (y mod 4 = 0 \<and> (y mod 100 \<noteq> 0 \<or> y mod 400 = 0))"

definition days_in_month :: "nat \<Rightarrow> nat \<Rightarrow> nat" where
  "days_in_month y m = (if m = 2 then (if leap_year y then 29 else 28) else if m \<in> {4, 6, 9, 11} then 30 else 31)"

definition valid_date :: "nat \<Rightarrow> nat \<Rightarrow> nat \<Rightarrow> bool" where
  "valid_date y m d = (1 \<le> y \<and> y \<le> 9999 \<and> 1 \<le> m \<and> m \<le> 12 \<and> 1 \<le> d \<and> d \<le> days_in_month y m)"

definition valid_time :: "nat \<Rightarrow> nat \<Rightarrow> nat \<Rightarrow> bool" where
  "valid_time h mi s = (h < 24 \<and> mi < 60 \<and> s < 60)"

text \<open>\<open>date.toordinal()\<close> and the seconds since the epoch of a time in UTC.\<close>

definition ordinal :: "nat \<Rightarrow> nat \<Rightarrow> nat \<Rightarrow> int" where
  "ordinal y m d = (let b = int y - 1 in
     365 * b + b div 4 - b div 100 + b div 400 + int (sum_list (map (days_in_month y) [1..<m])) + int d)"

definition utc_timestamp :: "nat \<Rightarrow> nat \<Rightarrow> nat \<Rightarrow> nat \<Rightarrow> nat \<Rightarrow> nat \<Rightarrow> int" where
  "utc_timestamp y m d h mi s = (ordinal y m d - 719163) * 86400 + int h * 3600 + int mi * 60 + int s"

text \<open>The pattern that \<open>strptime\<close> makes of \<open>%Y%m%d%H%M%S\<close>.\<close>

definition digit_in :: "nat \<Rightarrow> nat \<Rightarrow> rx" where
  "digit_in lo hi = One (in_range (48 + lo) (48 + hi))"

definition strptime_pattern :: rx where
  "strptime_pattern =
     (let d = One is_digit
      in seqs
        [Grp 1 (seqs [d, d, d, d]),
         Grp 2 (alts [seqs [lit ''1'', digit_in 0 2], seqs [lit ''0'', digit_in 1 9], digit_in 1 9]),
         Grp 3 (alts [seqs [lit ''3'', digit_in 0 1], seqs [digit_in 1 2, d], seqs [lit ''0'', digit_in 1 9], digit_in 1 9,
                      seqs [lit '' '', digit_in 1 9]]),
         Grp 4 (alts [seqs [lit ''2'', digit_in 0 3], seqs [digit_in 0 1, d], d]),
         Grp 5 (alts [seqs [digit_in 0 5, d], d]),
         Grp 6 (alts [seqs [lit ''6'', digit_in 0 1], seqs [digit_in 0 5, d], d])])"

definition group_number :: "groups \<Rightarrow> nat \<Rightarrow> nat" where
  "group_number gs n = nat_of_digits (filter is_digit (group_or_empty gs n))"

text \<open>\<open>datetime.strptime(text, "%Y%m%d%H%M%S")\<close> as UTC; \<open>None\<close> is the \<open>ValueError\<close>.\<close>

definition parse_timestamp :: "string \<Rightarrow> int option" where
  "parse_timestamp s =
     (case rx_at strptime_pattern ([], s) of
        None \<Rightarrow> None
      | Some (p, rest, gs) \<Rightarrow>
          let f = group_number gs
          in if rest \<noteq> [] \<or> \<not> valid_date (f 1) (f 2) (f 3) \<or> \<not> valid_time (f 4) (f 5) (f 6) then None
             else Some (utc_timestamp (f 1) (f 2) (f 3) (f 4) (f 5) (f 6)))"

section \<open>Facts\<close>

definition parse_facts :: "string \<Rightarrow> (string, string) dict" where
  "parse_facts text =
     foldl (\<lambda>facts item.
       case split_once ''='' item of
         None \<Rightarrow> facts
       | Some (key, fact_value) \<Rightarrow> AList.update (lower (strip key)) (strip fact_value) facts)
     [] (split_char (CHR '';'') text)"

definition status_prefix :: "string \<Rightarrow> bool" where
  "status_prefix line =
     (line \<noteq> [] \<and> list_all is_str_digit (take 3 line) \<and> 4 < length line \<and> line ! 3 \<in> {CHR ''-'', CHR '' ''})"

definition mlst_line :: "string \<Rightarrow> string" where
  "mlst_line raw_line =
     (let line = strip raw_line in if status_prefix line then lstrip (drop 4 line) else line)"

fun parse_mlst_lines :: "string list \<Rightarrow> (string, string) dict result" where
  "parse_mlst_lines [] = Inl (FtpCapabilityError ''FTP MLST response did not contain structured facts'')"
| "parse_mlst_lines (raw_line # rest) =
     (let line = mlst_line raw_line
      in if CHR ''='' \<notin> set line \<or> CHR '';'' \<notin> set line then parse_mlst_lines rest
         else let facts = parse_facts (hd (split_space line))
              in if dict_get facts ''type'' \<noteq> None then Inr facts else parse_mlst_lines rest)"

definition parse_mlst_response :: "string \<Rightarrow> (string, string) dict result" where
  "parse_mlst_response response = parse_mlst_lines (splitlines response)"

definition parse_modify_time :: "string option \<Rightarrow> pyfloat option result" where
  "parse_modify_time v =
     (case v of
        None \<Rightarrow> Inr None
      | Some text \<Rightarrow>
          if text = [] then Inr None
          else case parse_timestamp (hd (split_char (CHR ''.'') text)) of
                 None \<Rightarrow> Inl (FtpCapabilityError (''invalid FTP modify fact: '' @ text))
               | Some t \<Rightarrow> Inr (Some (Fin (of_int t))))"

definition get_or :: "(string, string) dict \<Rightarrow> string \<Rightarrow> string \<Rightarrow> string" where
  "get_or d key fallback = (case dict_get d key of None \<Rightarrow> fallback | Some v \<Rightarrow> v)"

definition file_info_from_facts :: "string \<Rightarrow> (string, string) dict \<Rightarrow> remote_file_info result" where
  "file_info_from_facts path facts =
     (let normalized = dict_of (map (\<lambda>(k, v). (lower k, v)) facts);
          entry_type = lower (get_or normalized ''type'' []);
          is_dir = entry_type \<in> {''dir'', ''cdir'', ''pdir''};
          is_link = contains ''slink'' entry_type \<or> entry_type \<in> {''link'', ''symlink''};
          is_file = entry_type = ''file''
      in and_then (raise_when (\<not> (is_dir \<or> is_file \<or> is_link))
           (FtpCapabilityError (''unsupported FTP MLST type: '' @ (if entry_type = [] then ''<missing>'' else entry_type)))) (\<lambda>_.
         and_then (raise_when (is_file \<and> dict_get normalized ''size'' = None)
           (FtpCapabilityError ''FTP MLST file metadata is missing size'')) (\<lambda>_.
         let size_text = get_or normalized ''size'' ''0''
         in case parse_int size_text of
              None \<Rightarrow> Inl (FtpCapabilityError (''invalid FTP size fact: '' @ size_text))
            | Some n \<Rightarrow>
                and_then (parse_modify_time (dict_get normalized ''modify'')) (\<lambda>modified.
                Inr \<lparr>fi_path = path, fi_size = n, fi_modified = modified, fi_directory = is_dir, fi_regular = is_file,
                     fi_symlink = is_link\<rparr>))))"

section \<open>UNIX listings\<close>

definition unix_months :: "string list" where
  "unix_months = [''Jan'', ''Feb'', ''Mar'', ''Apr'', ''May'', ''Jun'', ''Jul'', ''Aug'', ''Sep'', ''Oct'', ''Nov'', ''Dec'']"

definition month_number :: "string \<Rightarrow> nat" where
  "month_number name = length (takeWhile (\<lambda>m. m \<noteq> name) unix_months) + 1"

text \<open>The groups: mode 1, links 2, owner 3, group 4, size 5, month 6, day 7, when 8, name 9.\<close>

definition unix_list_pattern :: rx where
  "unix_list_pattern =
     (let s = rx_plus (One is_space); d = One is_digit
      in seqs
        [TextStart,
         Grp 1 (seqs [One (\<lambda>c. c \<in> set ''bcdlps-''), rx_times 9 (One (\<lambda>c. c \<in> set ''rwxStTs-'')),
                      rx_opt (One (\<lambda>c. c \<in> set ''.+@''))]), s,
         Grp 2 (rx_plus d), s,
         Grp 3 (rx_plus (One (\<lambda>c. \<not> is_space c))), s,
         Grp 4 (rx_plus (One (\<lambda>c. \<not> is_space c))), s,
         Grp 5 (rx_plus d), s,
         Grp 6 (alts (map lit unix_months)), s,
         Grp 7 (Rep True 1 (Some 2) d), s,
         Grp 8 (Alt (seqs [d, d, lit '':'', d, d]) (rx_times 4 d)), s,
         Grp 9 (rx_plus (One (\<lambda>c. c \<noteq> nl))), TextEndNl])"

definition forbidden_in_name :: "char \<Rightarrow> bool" where
  "forbidden_in_name c = (c \<in> {slash, backslash, nul, CHR 13, nl})"

definition validate_legacy_name :: "string \<Rightarrow> unit result" where
  "validate_legacy_name name =
     and_then (raise_when (name = [] \<or> name \<noteq> strip name)
       (FtpCapabilityError ''legacy UNIX LIST entry name has unsafe surrounding whitespace'')) (\<lambda>_.
     raise_when (\<exists>c \<in> set name. forbidden_in_name c)
       (FtpCapabilityError ''legacy UNIX LIST entry name is not a safe basename''))"

definition validate_unix_list_date :: "string \<Rightarrow> string \<Rightarrow> string \<Rightarrow> unit result" where
  "validate_unix_list_date month day when' =
     (let m = month_number month; d = nat_of_digits day
      in raise_when
           (\<not> (case split_once '':'' when' of
                 Some (h, mi) \<Rightarrow> valid_date 2000 m d \<and> valid_time (nat_of_digits h) (nat_of_digits mi) 0
               | None \<Rightarrow> valid_date (nat_of_digits when') m d))
           (FtpCapabilityError ''legacy UNIX LIST timestamp is invalid''))"

record unix_entry =
  ue_name :: string
  ue_size :: int
  ue_directory :: bool
  ue_regular :: bool
  ue_symlink :: bool

definition control_char :: "char \<Rightarrow> bool" where
  "control_char c = (c \<in> {nul, CHR 13, nl})"

text \<open>The name of an entry, without the target of a link.\<close>

definition entry_name :: "char \<Rightarrow> string \<Rightarrow> string result" where
  "entry_name entry_type name =
     (if entry_type \<noteq> CHR ''l'' then Inr name
      else case split_once '' -> '' name of
             None \<Rightarrow> Inl (FtpCapabilityError ''legacy UNIX LIST symlink is missing its target'')
           | Some (link, target) \<Rightarrow>
               if target = [] \<or> (\<exists>c \<in> set target. control_char c)
               then Inl (FtpCapabilityError ''legacy UNIX LIST symlink target is invalid'') else Inr link)"

definition parse_unix_list_line :: "string \<Rightarrow> unix_entry result" where
  "parse_unix_list_line line =
     and_then (raise_when (line = [] \<or> (\<exists>c \<in> set line. control_char c))
       (FtpCapabilityError ''legacy UNIX LIST line contains invalid control characters'')) (\<lambda>_.
     case rx_fullmatch unix_list_pattern line of
       None \<Rightarrow> Inl (FtpCapabilityError ''legacy UNIX LIST line does not match the strict format'')
     | Some gs \<Rightarrow>
         let g = group_or_empty gs; entry_type = hd (g 1)
         in and_then (raise_when (entry_type \<notin> {CHR ''-'', CHR ''d'', CHR ''l''})
              (FtpCapabilityError (''unsupported legacy UNIX LIST entry type: '' @ [entry_type]))) (\<lambda>_.
            and_then (validate_unix_list_date (g 6) (g 7) (g 8)) (\<lambda>_.
            and_then (entry_name entry_type (g 9)) (\<lambda>name.
            and_then (validate_legacy_name name) (\<lambda>_.
            Inr \<lparr>ue_name = name, ue_size = int (nat_of_digits (g 5)), ue_directory = (entry_type = CHR ''d''),
                 ue_regular = (entry_type = CHR ''-''), ue_symlink = (entry_type = CHR ''l'')\<rparr>)))))"

definition join_remote :: "string \<Rightarrow> string \<Rightarrow> string" where
  "join_remote directory name =
     (if directory = [slash] then slash # name else rstrip_of (\<lambda>c. c = slash) directory @ [slash] @ name)"

section \<open>Errors\<close>

definition ftp_not_found :: "string \<Rightarrow> bool" where
  "ftp_not_found message = starts_with ''550'' (lstrip message)"

definition ftp_unsupported :: "string \<Rightarrow> bool" where
  "ftp_unsupported message =
     (\<exists>code \<in> {''500'', ''501'', ''502'', ''504''}. starts_with code (lstrip message))"

section \<open>Lemmas\<close>

text \<open>Facts as RFC 3659 writes them.\<close>

definition facts_text :: "(string \<times> string) list \<Rightarrow> string" where
  "facts_text facts = concat (map (\<lambda>(k, v). k @ ''='' @ v @ '';'') facts)"

definition fact_ok :: "string \<times> string \<Rightarrow> bool" where
  "fact_ok = (\<lambda>(k, v). CHR ''='' \<notin> set k \<and> CHR '';'' \<notin> set k \<and> CHR '';'' \<notin> set v \<and>
     trimmed k \<and> trimmed v \<and> lower k = k)"

lemma split_facts_text:
  "list_all fact_ok facts \<Longrightarrow>
   split_char (CHR '';'') (facts_text facts) = map (\<lambda>(k, v). k @ ''='' @ v) facts @ [[]]"
proof (induction facts)
  case (Cons f facts)
  obtain k v where f: "f = (k, v)" by (cases f)
  have "CHR '';'' \<notin> set (k @ ''='' @ v)" using Cons.prems f by (auto simp: fact_ok_def)
  then have "split_char (CHR '';'') ((k @ ''='' @ v) @ CHR '';'' # facts_text facts) =
      (k @ ''='' @ v) # split_char (CHR '';'') (facts_text facts)"
    by (rule split_char_append)
  with Cons f show ?case by (simp add: facts_text_def)
qed (simp add: facts_text_def)

lemma parse_facts_foldl:
  assumes "list_all fact_ok facts"
  shows "foldl (\<lambda>facts item. case split_once ''='' item of None \<Rightarrow> facts
       | Some (key, fact_value) \<Rightarrow> AList.update (lower (strip key)) (strip fact_value) facts)
     d (map (\<lambda>(k, v). k @ ''='' @ v) facts) = foldl (\<lambda>d (k, v). AList.update k v d) d facts"
  using assms
proof (induction facts arbitrary: d)
  case (Cons f facts)
  obtain k v where f: "f = (k, v)" by (cases f)
  have "split_once ''='' (k @ CHR ''='' # v) = Some (k, v)"
    using Cons.prems f by (intro split_once_char) (auto simp: fact_ok_def)
  with Cons f show ?case by (simp add: fact_ok_def strip_trimmed)
qed simp

lemma parse_facts_text: "list_all fact_ok facts \<Longrightarrow> parse_facts (facts_text facts) = dict_of facts"
  by (simp add: parse_facts_def split_facts_text parse_facts_foldl [simplified] dict_of_def)

lemma validate_legacy_name_iff:
  "validate_legacy_name name = Inr u \<longleftrightarrow> name \<noteq> [] \<and> name = strip name \<and> (\<forall>c \<in> set name. \<not> forbidden_in_name c)"
  by (auto simp: validate_legacy_name_def result_simps)

lemma timestamp_examples:
  "parse_timestamp ''19700101000000'' = Some 0" "parse_timestamp ''20240229120000'' = Some 1709208000"
  "parse_timestamp ''20230229120000'' = None" "parse_timestamp ''2024022912000'' = Some 1709208000"
  by code_simp+

section \<open>A reply to MLST\<close>

lemma rstrip_append: "f \<noteq> [] \<Longrightarrow> \<not> is_space (last f) \<Longrightarrow> rstrip (f @ x) = f @ rstrip x"
proof -
  assume f: "f \<noteq> []" "\<not> is_space (last f)"
  then have "dropWhile is_space (rev f) = rev f" by (cases f rule: rev_cases) simp_all
  then show ?thesis by (auto simp: rstrip_def rstrip_of_def dropWhile_append dropWhile_eq_Nil_conv)
qed

lemma rstrip_hd: "rstrip x \<noteq> [] \<Longrightarrow> hd (rstrip x) = hd x"
proof -
  obtain t where "x = rstrip x @ t"
    unfolding rstrip_def rstrip_of_def by (metis rev_append rev_rev_ident takeWhile_dropWhile_id)
  moreover assume "rstrip x \<noteq> []"
  ultimately show ?thesis by (metis hd_append2)
qed

lemma split_space_aux_word:
  "list_all (\<lambda>c. \<not> is_space c) f \<Longrightarrow> f \<noteq> [] \<or> acc \<noteq> [] \<Longrightarrow> r = [] \<or> is_space (hd r) \<Longrightarrow>
   hd (split_space_aux acc (f @ r)) = rev acc @ f"
proof (induction f arbitrary: acc)
  case Nil
  then show ?case by (cases r) auto
qed auto

text \<open>Facts that RFC 3659 allows in one word: no white space, and a first key that is no status code.\<close>

definition word_ok :: "(string \<times> string) list \<Rightarrow> bool" where
  "word_ok facts =
     (list_all fact_ok facts \<and> list_all (\<lambda>(k, v). list_all (\<lambda>c. \<not> is_space c) (k @ v)) facts \<and>
      facts \<noteq> [] \<and> fst (hd facts) \<noteq> [] \<and> \<not> is_str_digit (hd (fst (hd facts))))"

lemma facts_text_word:
  assumes "word_ok facts"
  shows "facts_text facts \<noteq> []" and "list_all (\<lambda>c. \<not> is_space c) (facts_text facts)" and
    "\<not> is_str_digit (hd (facts_text facts))" and "CHR ''='' \<in> set (facts_text facts)" and "last (facts_text facts) = CHR '';''"
proof -
  obtain k v rest where facts: "facts = (k, v) # rest" using assms by (cases facts) (auto simp: word_ok_def)
  have "\<not> is_space (CHR ''='')" "\<not> is_space (CHR '';'')" by code_simp+
  with assms show "list_all (\<lambda>c. \<not> is_space c) (facts_text facts)"
    by (auto simp: word_ok_def facts_text_def list_all_iff)
  have printed: "facts_text facts = k @ ''='' @ v @ '';'' @ facts_text rest" by (simp add: facts facts_text_def)
  then show "facts_text facts \<noteq> []" "CHR ''='' \<in> set (facts_text facts)" by simp_all
  from printed facts assms show "\<not> is_str_digit (hd (facts_text facts))" by (simp add: word_ok_def)
  have "last (facts_text fs) = CHR '';''" if "fs \<noteq> []" for fs
    using that by (cases fs rule: rev_cases) (auto simp: facts_text_def)
  then show "last (facts_text facts) = CHR '';''" using facts by simp
qed

lemma mlst_line_facts:
  assumes "word_ok facts"
  shows "\<exists>r. mlst_line (CHR '' '' # facts_text facts @ CHR '' '' # path) = facts_text facts @ r \<and> (r = [] \<or> is_space (hd r))"
proof -
  let ?f = "facts_text facts"
  note f = facts_text_word [OF assms]
  have space: "is_space (CHR '' '')" "\<not> is_space (CHR '';'')" by code_simp+
  have "\<not> is_space (hd ?f)" using f(1,2) by (cases ?f) simp_all
  then have "lstrip (CHR '' '' # ?f @ CHR '' '' # path) = ?f @ CHR '' '' # path"
    using space f(1) by (cases ?f) (simp_all add: lstrip_def)
  then have strip: "strip (CHR '' '' # ?f @ CHR '' '' # path) = ?f @ rstrip (CHR '' '' # path)"
    using f space by (simp add: strip_def rstrip_append)
  have "\<not> status_prefix (?f @ rstrip (CHR '' '' # path))"
    using f(1,3) by (cases ?f) (simp_all add: status_prefix_def)
  moreover have "rstrip (CHR '' '' # path) = [] \<or> is_space (hd (rstrip (CHR '' '' # path)))"
    using space(1) rstrip_hd [of "CHR '' '' # path"] by (metis list.sel(1))
  ultimately show ?thesis using strip by (simp add: mlst_line_def)
qed

lemma mlst_line_chars: "set (mlst_line l) \<subseteq> set l"
  using set_strip [of l] by (auto simp: mlst_line_def Let_def lstrip_def dest!: set_dropWhileD in_set_dropD)

text \<open>What a server says in reply to MLST, in the form RFC 3659 prescribes, is read back: from the line between the
  opening and the closing line the parser gets exactly the facts that were printed there, the last one for a key that is
  repeated, whatever the path behind them contains.\<close>

theorem mlst_roundtrip:
  assumes "word_ok facts" and "dict_get (dict_of facts) ''type'' \<noteq> None"
    and "CHR ''='' \<notin> set first" and "closing \<noteq> []"
    and "list_all (list_all (\<lambda>c. \<not> is_line_break c)) [first, path, closing]"
  shows "parse_mlst_response (join [nl] [first, '' '' @ facts_text facts @ '' '' @ path, closing]) = Inr (dict_of facts)"
proof -
  let ?f = "facts_text facts"
  note f = facts_text_word [OF assms(1)]
  have line_space: "is_space c" if "is_line_break c" for c
    using that by (auto simp: is_line_break_def is_space_def Let_def)
  then have f_line: "list_all (\<lambda>c. \<not> is_line_break c) ?f" using f(2) by (auto simp: list_all_iff)
  have "\<not> is_line_break (CHR '' '')" by code_simp
  with f_line assms(4,5) have lines: "splitlines (join [nl] [first, '' '' @ ?f @ '' '' @ path, closing]) =
      [first, '' '' @ ?f @ '' '' @ path, closing]"
    by (intro splitlines_join) simp_all
  have skip: "CHR ''='' \<notin> set (mlst_line first)" using assms(3) mlst_line_chars [of first] by auto
  obtain r where r: "mlst_line (CHR '' '' # ?f @ CHR '' '' # path) = ?f @ r" "r = [] \<or> is_space (hd r)"
    using mlst_line_facts [OF assms(1)] by blast
  have word: "hd (split_space (?f @ r)) = ?f"
    using split_space_aux_word [OF f(2), of "[]" r] f(1) r(2) by (simp add: split_space_def)
  have "CHR '';'' \<in> set ?f" using f(1,5) last_in_set by metis
  then show ?thesis
    using lines skip r(1) word f(4) assms(1,2) parse_facts_text
    by (simp add: parse_mlst_response_def word_ok_def)
qed

lemma mlst_roundtrip_witness:
  "parse_mlst_response (join [nl] [''250-Listing'', '' '' @ facts_text [(''type'', ''file''), (''size'', ''3'')] @ '' '' @ ''/a b'', ''250 End''])
     = Inr [(''type'', ''file''), (''size'', ''3'')]"
proof -
  have "dict_of [(''type'', ''file''), (''size'', ''3'')] = [(''type'', ''file''), (''size'', ''3'')]" by code_simp
  moreover have "word_ok [(''type'', ''file''), (''size'', ''3'')]"
    "list_all (list_all (\<lambda>c. \<not> is_line_break c)) [''250-Listing'', ''/a b'', ''250 End'']" by code_simp+
  ultimately show ?thesis
    using mlst_roundtrip [of "[(''type'', ''file''), (''size'', ''3'')]" "''250-Listing''" "''250 End''" "''/a b''"]
    by (simp add: dict_get_def)
qed

end
