(* ===== verification/Ftp.thy ===== *)
theory Ftp
  imports FtpParse
begin

text \<open>
  The read-only FTP and FTPS client, \<open>cli_tool/transfer/ftp.py\<close>. \<open>ftplib\<close> is a record of runs on a server
  state; the steps the client asks for are logged, so that their order can be stated. The chunks of a transfer are
  taken before the callbacks run on them.
\<close>

section \<open>The server\<close>

datatype ftp_step =
    PlainConnect          \<comment> \<open>\<open>ftplib.FTP.connect\<close>: socket and greeting\<close>
  | OpenSocket | WrapTls | ReadGreeting
  | LoginStep | ProtPrivate | SetPassive bool
  | DataCommand string | ControlCommand string
  | QuitStep | CloseStep

record 'e ftp_env =
  fe_is_file :: "string \<Rightarrow> bool"
  fe_expanduser :: "string \<Rightarrow> string"
  fe_step :: "ftp_step \<Rightarrow> ('e, unit) act"
  fe_sendcmd :: "string \<Rightarrow> ('e, string) act"
  fe_mlsd :: "string \<Rightarrow> string list \<Rightarrow> ('e, (string \<times> (string, string) dict) list) act"
  fe_retrlines :: "string \<Rightarrow> ('e, string list) act"
  fe_retrbinary :: "string \<Rightarrow> int \<Rightarrow> ('e, string list \<times> exn option) act"

section \<open>The client\<close>

definition ftp_protocols :: "string list" where "ftp_protocols = [''ftp'', ''ftps'', ''ftps-implicit'']"

definition default_ports :: "(string \<times> int) list" where
  "default_ports = [(''ftp'', 21), (''ftps'', 21), (''ftps-implicit'', 990)]"

definition legacy_list_formats :: "string list" where "legacy_list_formats = [''unix'']"

record ftp_config =
  ft_host :: string
  ft_username :: string
  ft_password :: string
  ft_protocol :: string
  ft_port :: "int option"
  ft_timeout :: rat
  ft_remote_root :: string
  ft_passive :: bool
  ft_ca_file :: "string option"
  ft_allow_unverified :: bool
  ft_allow_insecure :: bool
  ft_allow_legacy :: bool
  ft_legacy_format :: "string option"
  ft_max_bytes :: int
  ft_chunk_size :: int
  ft_uuid :: string
  ft_sha256 :: "string \<Rightarrow> string"

definition nonempty_opt :: "string option \<Rightarrow> string option" where
  "nonempty_opt v = (case v of None \<Rightarrow> None | Some s \<Rightarrow> if s = [] then None else Some s)"

text \<open>\<open>__init__\<close>: the checks, in order, and the configuration with the resolved fields.\<close>

definition ftp_init :: "'e ftp_env \<Rightarrow> ftp_config \<Rightarrow> ftp_config result" where
  "ftp_init env cfg =
     (let protocol = lower (ft_protocol cfg);
          port = (case ft_port cfg of None \<Rightarrow> map_of default_ports protocol | Some p \<Rightarrow> Some p);
          ca_file = nonempty_opt (ft_ca_file cfg);
          legacy = map_option lower (nonempty_opt (ft_legacy_format cfg))
      in
      and_then (raise_when (protocol \<notin> set ftp_protocols)
        (ValueError (''unsupported FTP protocol: '' @ ft_protocol cfg))) (\<lambda>_.
      and_then (raise_when (ft_host cfg = []) (ValueError ''host is required'')) (\<lambda>_.
      and_then (raise_when (ft_username cfg = []) (ValueError ''username is required'')) (\<lambda>_.
      and_then (raise_when (ft_password cfg = []) (ValueError ''password is required'')) (\<lambda>_.
      and_then (raise_when (\<not> (case port of None \<Rightarrow> False | Some p \<Rightarrow> 1 \<le> p \<and> p \<le> 65535))
        (ValueError ''port must be between 1 and 65535'')) (\<lambda>_.
      and_then (raise_when (ft_timeout cfg \<le> 0) (ValueError ''timeout must be greater than 0'')) (\<lambda>_.
      and_then (raise_when (ft_max_bytes cfg < 1) (ValueError ''max_download_bytes must be greater than 0'')) (\<lambda>_.
      and_then (raise_when (ft_chunk_size cfg < 1) (ValueError ''chunk_size must be greater than 0'')) (\<lambda>_.
      and_then (raise_when (protocol = ''ftp'' \<and> \<not> ft_allow_insecure cfg)
        (PermissionError ''FTP is plaintext; set allow_insecure_ftp=True only for an isolated lab'')) (\<lambda>_.
      and_then (raise_when (protocol = ''ftp'' \<and> (ca_file \<noteq> None \<or> ft_allow_unverified cfg))
        (ValueError ''TLS options are not valid for plaintext FTP'')) (\<lambda>_.
      and_then (raise_when (ft_allow_legacy cfg \<noteq> (legacy \<noteq> None))
        (ValueError ''allow_legacy_listing and legacy_list_format must be provided together'')) (\<lambda>_.
      and_then (raise_when (case legacy of None \<Rightarrow> False | Some f \<Rightarrow> f \<notin> set legacy_list_formats)
        (ValueError (''unsupported legacy LIST format: '' @ (case ft_legacy_format cfg of None \<Rightarrow> ''None'' | Some f \<Rightarrow> f)))) (\<lambda>_.
      and_then (resolve_remote_path (ft_remote_root cfg) ''.'') (\<lambda>root.
      Inr (cfg\<lparr>ft_protocol := protocol, ft_port := port, ft_remote_root := root,
               ft_ca_file := map_option (fe_expanduser env) ca_file, ft_legacy_format := legacy\<rparr>)))))))))))))))"

record 'e ftp_client =
  fc_server :: 'e
  fc_open :: bool
  fc_log :: "ftp_step list"
  fc_listing :: "string option"
  fc_metadata :: "string option"

type_synonym 'e ftp_world = "'e ftp_client transfer_world"

definition set_ftp :: "('e ftp_client \<Rightarrow> 'e ftp_client) \<Rightarrow> ('e ftp_world, unit) act" where
  "set_ftp f = on_remote (modify f)"

definition logged :: "ftp_step \<Rightarrow> ('e, 'a) act \<Rightarrow> ('e ftp_world, 'a) act" where
  "logged step m = on_remote (\<lambda>c. case m (fc_server c) of (r, e) \<Rightarrow> (r, c\<lparr>fc_server := e, fc_log := fc_log c @ [step]\<rparr>))"

definition do_step :: "'e ftp_env \<Rightarrow> ftp_step \<Rightarrow> ('e ftp_world, unit) act" where
  "do_step env step = logged step (fe_step env step)"

text \<open>\<open>ImplicitFtpTls.connect\<close>: TLS before the greeting.\<close>

definition implicit_connect :: "'e ftp_env \<Rightarrow> ('e ftp_world, unit) act" where
  "implicit_connect env =
     bnd (do_step env OpenSocket) (\<lambda>_. bnd (do_step env WrapTls) (\<lambda>_. do_step env ReadGreeting))"

text \<open>\<open>_tls_context\<close> and \<open>_new_client\<close>: which client class, or the missing CA file.\<close>

definition tls_context :: "'e ftp_env \<Rightarrow> ftp_config \<Rightarrow> unit result" where
  "tls_context env cfg =
     (if ft_allow_unverified cfg then Inr ()
      else case ft_ca_file cfg of
             None \<Rightarrow> Inr ()
           | Some path \<Rightarrow> raise_when (\<not> fe_is_file env path) (FileNotFoundError (''CA file does not exist: '' @ path)))"

datatype ftp_class = PlainFtp | ExplicitTls | ImplicitTls

definition new_client :: "'e ftp_env \<Rightarrow> ftp_config \<Rightarrow> ftp_class result" where
  "new_client env cfg =
     (if ft_protocol cfg = ''ftp'' then Inr PlainFtp
      else and_then (tls_context env cfg) (\<lambda>_.
           Inr (if ft_protocol cfg = ''ftps-implicit'' then ImplicitTls else ExplicitTls)))"

definition ftp_connect :: "'e ftp_env \<Rightarrow> ftp_config \<Rightarrow> ('e ftp_world, unit) act" where
  "ftp_connect env cfg =
     bnd (gets (\<lambda>w. fc_open (tw_remote w))) (\<lambda>is_open.
     if is_open then ret ()
     else bnd (lift (new_client env cfg)) (\<lambda>class'.
          catch_when is_exception
            (bnd (if class' = ImplicitTls then implicit_connect env else do_step env PlainConnect) (\<lambda>_.
             bnd (do_step env LoginStep) (\<lambda>_.
             bnd (if ft_protocol cfg \<noteq> ''ftp'' then do_step env ProtPrivate else ret ()) (\<lambda>_.
             bnd (do_step env (SetPassive (ft_passive cfg))) (\<lambda>_.
             set_ftp (\<lambda>c. c\<lparr>fc_open := True\<rparr>))))))
            (\<lambda>e. bnd (do_step env CloseStep) (\<lambda>_. throw e))))"

definition ftp_close :: "'e ftp_env \<Rightarrow> ('e ftp_world, unit) act" where
  "ftp_close env =
     bnd (gets (\<lambda>w. fc_open (tw_remote w))) (\<lambda>is_open.
     bnd (set_ftp (\<lambda>c. c\<lparr>fc_open := False\<rparr>)) (\<lambda>_.
     if \<not> is_open then ret ()
     else catch_when is_exception (do_step env QuitStep) (\<lambda>_. do_step env CloseStep)))"

definition require_ftp :: "'e ftp_env \<Rightarrow> ftp_config \<Rightarrow> ('e ftp_world, unit) act" where
  "require_ftp env cfg =
     bnd (ftp_connect env cfg) (\<lambda>_.
     bnd (gets (\<lambda>w. fc_open (tw_remote w))) (\<lambda>is_open.
     guard_not (\<not> is_open) (RuntimeError ''FTP session is not available'')))"

definition ftp_resolve :: "ftp_config \<Rightarrow> string \<Rightarrow> string result" where
  "ftp_resolve cfg remote_path =
     (if CHR 13 \<in> set remote_path \<or> nl \<in> set remote_path
      then Inl (UnsafeRemotePathError ''FTP remote path cannot contain line breaks'')
      else resolve_remote_path (ft_remote_root cfg) remote_path)"

section \<open>Listing\<close>

definition legacy_enabled :: "ftp_config \<Rightarrow> bool" where
  "legacy_enabled cfg = (ft_allow_legacy cfg \<and> ft_legacy_format cfg = Some ''unix'')"

definition info_of_entry :: "string \<Rightarrow> unix_entry \<Rightarrow> pyfloat option \<Rightarrow> remote_file_info" where
  "info_of_entry path entry modified =
     \<lparr>fi_path = path, fi_size = ue_size entry, fi_modified = modified, fi_directory = ue_directory entry,
      fi_regular = ue_regular entry, fi_symlink = ue_symlink entry\<rparr>"

definition retrlines :: "'e ftp_env \<Rightarrow> string \<Rightarrow> ('e ftp_world, string list) act" where
  "retrlines env command = logged (DataCommand command) (fe_retrlines env command)"

definition sendcmd :: "'e ftp_env \<Rightarrow> string \<Rightarrow> ('e ftp_world, string) act" where
  "sendcmd env command = logged (ControlCommand command) (fe_sendcmd env command)"

text \<open>The loop over the lines; entries \<open>.\<close> and \<open>..\<close> are skipped.\<close>

fun legacy_entries :: "ftp_config \<Rightarrow> string \<Rightarrow> string list \<Rightarrow> remote_file_info list result" where
  "legacy_entries cfg directory [] = Inr []"
| "legacy_entries cfg directory (line # lines) =
     and_then (parse_unix_list_line line) (\<lambda>entry.
     if ue_name entry \<in> {''.'', ''..''} then legacy_entries cfg directory lines
     else and_then (ftp_resolve cfg (join_remote directory (ue_name entry))) (\<lambda>path.
          and_then (legacy_entries cfg directory lines) (\<lambda>rest.
          Inr (info_of_entry path entry None # rest))))"

definition legacy_list_files :: "'e ftp_env \<Rightarrow> ftp_config \<Rightarrow> string \<Rightarrow> ('e ftp_world, remote_file_info list) act" where
  "legacy_list_files env cfg directory =
     bnd (guard_not (\<not> legacy_enabled cfg)
       (FtpCapabilityError ''FTP server must support MLSD unless strict legacy listing is explicitly enabled'')) (\<lambda>_.
     bnd (require_ftp env cfg) (\<lambda>_.
     bnd (retrlines env (''LIST '' @ directory)) (\<lambda>lines.
     bnd (lift (legacy_entries cfg directory lines)) (\<lambda>results.
     bnd (set_ftp (\<lambda>c. c\<lparr>fc_listing := Some ''legacy_unix''\<rparr>)) (\<lambda>_.
     ret (sort_key fi_path results))))))"

definition mlsd :: "'e ftp_env \<Rightarrow> string \<Rightarrow> string list \<Rightarrow> ('e ftp_world, (string \<times> (string, string) dict) list) act" where
  "mlsd env directory facts = logged (DataCommand (''MLSD '' @ directory)) (fe_mlsd env directory facts)"

definition mlsd_entries ::
  "ftp_config \<Rightarrow> string \<Rightarrow> (string \<times> (string, string) dict) list \<Rightarrow> remote_file_info list result" where
  "mlsd_entries cfg directory entries =
     traverse (\<lambda>(name, facts).
         and_then (ftp_resolve cfg (join_remote directory name)) (\<lambda>path. file_info_from_facts path facts))
       (filter (\<lambda>(name, facts). name \<notin> {''.'', ''..''}) entries)"

text \<open>The outcome of a run as a value, for the code that inspects the exception.\<close>

definition outcome :: "('s, 'a) act \<Rightarrow> ('s, 'a result) act" where
  "outcome m s = (case m s of (r, s') \<Rightarrow> (Inr r, s'))"

fun mlsd_missing :: "exn \<Rightarrow> bool" where
  "mlsd_missing (AttributeError m) = True"
| "mlsd_missing (ErrorPerm m) = ftp_unsupported m"
| "mlsd_missing e = False"

definition ftp_list_files :: "'e ftp_env \<Rightarrow> ftp_config \<Rightarrow> string \<Rightarrow> ('e ftp_world, remote_file_info list) act" where
  "ftp_list_files env cfg remote_path =
     bnd (lift (ftp_resolve cfg remote_path)) (\<lambda>directory.
     bnd (require_ftp env cfg) (\<lambda>_.
     let finish = (\<lambda>entries.
           bnd (set_ftp (\<lambda>c. c\<lparr>fc_listing := Some ''mlsd''\<rparr>)) (\<lambda>_.
           bnd (lift (mlsd_entries cfg directory entries)) (\<lambda>results. ret (sort_key fi_path results))))
     in bnd (outcome (mlsd env directory [''type'', ''size'', ''modify''])) (\<lambda>first.
        case first of
          Inr entries \<Rightarrow> finish entries
        | Inl (AttributeError m) \<Rightarrow> legacy_list_files env cfg directory
        | Inl e \<Rightarrow>
            if \<not> mlsd_missing e then throw e
            else bnd (outcome (mlsd env directory [])) (\<lambda>second.
                 case second of
                   Inr entries \<Rightarrow> finish entries
                 | Inl e2 \<Rightarrow> if mlsd_missing e2 then legacy_list_files env cfg directory else throw e2))))"

section \<open>Metadata\<close>

definition last_component :: "string \<Rightarrow> string" where
  "last_component path = last (split_char slash path)"

definition legacy_modified :: "'e ftp_env \<Rightarrow> ftp_config \<Rightarrow> string \<Rightarrow> ('e ftp_world, pyfloat option) act" where
  "legacy_modified env cfg resolved =
     catch_when (\<lambda>e. case e of ErrorPerm _ \<Rightarrow> True | _ \<Rightarrow> False)
       (bnd (require_ftp env cfg) (\<lambda>_.
        bnd (sendcmd env (''MDTM '' @ resolved)) (\<lambda>response.
        case rev (split_space response) of
          [] \<Rightarrow> throw (OtherException ''IndexError'' ''list index out of range'')
        | word # _ \<Rightarrow> lift (parse_modify_time (Some word)))))
       (\<lambda>_. ret None)"

definition legacy_stat :: "'e ftp_env \<Rightarrow> ftp_config \<Rightarrow> string \<Rightarrow> ('e ftp_world, remote_file_info) act" where
  "legacy_stat env cfg resolved =
     bnd (guard_not (\<not> legacy_enabled cfg)
       (FtpCapabilityError ''FTP server must support MLST unless strict legacy listing is explicitly enabled'')) (\<lambda>_.
     bnd (catch_when (\<lambda>e. case e of ErrorPerm m \<Rightarrow> ftp_not_found m | _ \<Rightarrow> False)
       (bnd (require_ftp env cfg) (\<lambda>_. retrlines env (''LIST '' @ resolved)))
       (\<lambda>_. throw (FileNotFoundError resolved))) (\<lambda>lines.
     bnd (guard_not (length lines \<noteq> 1)
       (FtpCapabilityError ''legacy UNIX LIST stat must return exactly one structured entry'')) (\<lambda>_.
     bnd (lift (parse_unix_list_line (hd lines))) (\<lambda>entry.
     bnd (guard_not (ue_name entry \<noteq> last_component resolved)
       (FtpCapabilityError ''legacy UNIX LIST stat returned a different entry name'')) (\<lambda>_.
     bnd (if ue_regular entry then legacy_modified env cfg resolved else ret None) (\<lambda>modified.
     bnd (set_ftp (\<lambda>c. c\<lparr>fc_metadata := Some ''legacy_unix''\<rparr>)) (\<lambda>_.
     ret (info_of_entry resolved entry modified))))))))"

definition ftp_stat :: "'e ftp_env \<Rightarrow> ftp_config \<Rightarrow> string \<Rightarrow> ('e ftp_world, remote_file_info) act" where
  "ftp_stat env cfg remote_path =
     bnd (lift (ftp_resolve cfg remote_path)) (\<lambda>resolved.
     bnd (require_ftp env cfg) (\<lambda>_.
     catch_when (\<lambda>e. case e of ErrorPerm _ \<Rightarrow> True | _ \<Rightarrow> False)
       (bnd (sendcmd env (''MLST '' @ resolved)) (\<lambda>response.
        bnd (lift (parse_mlst_response response)) (\<lambda>facts.
        bnd (lift (file_info_from_facts resolved facts)) (\<lambda>info.
        bnd (set_ftp (\<lambda>c. c\<lparr>fc_metadata := Some ''mlst''\<rparr>)) (\<lambda>_. ret info)))))
       (\<lambda>e. case e of
              ErrorPerm m \<Rightarrow>
                if ftp_unsupported m then legacy_stat env cfg resolved
                else if ftp_not_found m then throw (FileNotFoundError resolved) else throw e
            | _ \<Rightarrow> throw e)))"

definition ftp_exists :: "'e ftp_env \<Rightarrow> ftp_config \<Rightarrow> string \<Rightarrow> ('e ftp_world, bool) act" where
  "ftp_exists env cfg remote_path =
     catch_when (\<lambda>e. case e of FileNotFoundError _ \<Rightarrow> True | _ \<Rightarrow> False)
       (bnd (ftp_stat env cfg remote_path) (\<lambda>_. ret True)) (\<lambda>_. ret False)"

section \<open>Download\<close>

definition ftp_download_config :: "ftp_config \<Rightarrow> download_config" where
  "ftp_download_config cfg =
     \<lparr>dc_protocol = ''FTP'', dc_max_bytes = ft_max_bytes cfg, dc_uuid = ft_uuid cfg, dc_sha256 = ft_sha256 cfg\<rparr>"

text \<open>The callback \<open>receive\<close>, over the chunks.\<close>

fun store_chunks :: "download_config \<Rightarrow> string \<Rightarrow> string \<Rightarrow> string list \<Rightarrow> ('e ftp_world, string) act" where
  "store_chunks dcfg temporary acc [] = ret acc"
| "store_chunks dcfg temporary acc (chunk # chunks) =
     (if dc_max_bytes dcfg < int (length acc + length chunk) then throw (limit_exceeded dcfg)
      else bnd (on_disk (append_bytes temporary chunk)) (\<lambda>_. store_chunks dcfg temporary (acc @ chunk) chunks))"

definition ftp_receive :: "'e ftp_env \<Rightarrow> ftp_config \<Rightarrow> string \<Rightarrow> string \<Rightarrow> ('e ftp_world, string) act" where
  "ftp_receive env cfg remote_path temporary =
     bnd (on_disk (open_exclusive temporary)) (\<lambda>_.
     bnd (require_ftp env cfg) (\<lambda>_.
     bnd (logged (DataCommand (''RETR '' @ remote_path))
       (fe_retrbinary env (''RETR '' @ remote_path) (ft_chunk_size cfg))) (\<lambda>(chunks, failure).
     bnd (store_chunks (ftp_download_config cfg) temporary [] chunks) (\<lambda>data.
     bnd (case failure of None \<Rightarrow> ret () | Some e \<Rightarrow> throw e) (\<lambda>_.
     bnd (on_disk flush_sync) (\<lambda>_. ret data))))))"

definition ftp_download ::
  "'e ftp_env \<Rightarrow> ftp_config \<Rightarrow> string \<Rightarrow> string \<Rightarrow> bool \<Rightarrow> ('e ftp_world, download_result) act" where
  "ftp_download env cfg = download_with (ftp_download_config cfg) (ftp_stat env cfg) (ftp_receive env cfg)"

section \<open>Lemmas: the disk\<close>

lemma keeps_disk_ftp:
  "keeps (\<lambda>w. P (tw_disk w)) (logged step m)" "keeps (\<lambda>w. P (tw_disk w)) (set_ftp f)"
  "keeps (\<lambda>w. P (tw_disk w)) (do_step env step)"
  unfolding logged_def set_ftp_def do_step_def by (rule keeps_on_remote)+

lemma keeps_disk_require_ftp: "keeps (\<lambda>w. P (tw_disk w)) (require_ftp env cfg)"
  unfolding require_ftp_def ftp_connect_def implicit_connect_def by (intro keeps_intros keeps_disk_ftp)

lemma keeps_exn_cases:
  "(\<And>m. keeps I (f m)) \<Longrightarrow> keeps I g \<Longrightarrow> keeps I (case e of ErrorPerm m \<Rightarrow> f m | _ \<Rightarrow> g)"
  by (cases e) simp_all

lemma keeps_list_case: "keeps I m \<Longrightarrow> (\<And>x xs. keeps I (f x xs)) \<Longrightarrow> keeps I (case l of [] \<Rightarrow> m | x # xs \<Rightarrow> f x xs)"
  by (cases l) simp_all

lemma keeps_disk_ftp_stat: "keeps (\<lambda>w. P (tw_disk w)) (ftp_stat env cfg p)"
  unfolding ftp_stat_def legacy_stat_def legacy_modified_def retrlines_def sendcmd_def
  by (intro keeps_intros keeps_disk_ftp keeps_disk_require_ftp keeps_exn_cases keeps_list_case)

lemma store_chunks_inv:
  assumes "\<And>b c D r D'. J b D \<Longrightarrow> append_bytes t c D = (r, D') \<Longrightarrow> (case r of Inr _ \<Rightarrow> J (b @ c) D' | Inl _ \<Rightarrow> K D')"
    and "\<And>b D. J b D \<Longrightarrow> K D"
  shows "triple (\<lambda>w. J acc (tw_disk w)) (store_chunks dcfg t acc chunks)
    (\<lambda>data w. J data (tw_disk w)) (\<lambda>_ w. K (tw_disk w))"
proof (induction chunks arbitrary: acc)
  case Nil
  then show ?case by (simp add: triple_ret)
next
  case (Cons c chunks)
  have app: "triple (\<lambda>w. J acc (tw_disk w)) (on_disk (append_bytes t c)) (\<lambda>_ w. J (acc @ c) (tw_disk w)) (\<lambda>_ w. K (tw_disk w))"
    using assms(1) [of acc _ c] by (fastforce simp: triple_def on_disk_def split: prod.split sum.splits)
  show ?case
    unfolding store_chunks.simps
    by (rule triple_if, rule triple_throw, erule assms(2), rule triple_bnd [OF app Cons.IH])
qed

lemma keeps_store_chunks:
  assumes "\<And>c. keeps P (append_bytes t c)"
  shows "keeps (\<lambda>w. P (tw_disk w)) (store_chunks dcfg t acc chunks)"
  unfolding keeps_triple
  by (rule store_chunks_inv [where J = "\<lambda>_. P"]) (auto split: sum.split dest: keepsD [OF assms])

lemma keeps_ftp_receive:
  assumes "\<And>c. keeps P (append_bytes t c)" and "keeps P (open_exclusive t)" and "keeps P flush_sync"
  shows "keeps (\<lambda>w. P (tw_disk w)) (ftp_receive env cfg p t)"
  unfolding ftp_receive_def
  by (intro keeps_intros keeps_disk_require_ftp keeps_disk_ftp keeps_store_chunks keeps_on_disk assms)

lemma ftp_receive_content:
  assumes "ftp_receive env cfg p t w = (Inr data, w')"
  shows "dk_files (tw_disk w') t = Some data"
proof -
  obtain w1 w2 w3 w4 chunks where opened: "on_disk (open_exclusive t) w = (Inr (), w1)"
    and require: "require_ftp env cfg w1 = (Inr (), w2)"
    and retr: "logged (DataCommand (''RETR '' @ p)) (fe_retrbinary env (''RETR '' @ p) (ft_chunk_size cfg)) w2 = (Inr (chunks, None), w3)"
    and store: "store_chunks (ftp_download_config cfg) t [] chunks w3 = (Inr data, w4)"
    and flush: "on_disk flush_sync w4 = (Inr (), w')"
    using assms by (auto simp: ftp_receive_def bnd_eq_Inr ret_run throw_run split: option.splits)
  have "dk_files (tw_disk w1) t = Some []" using opened open_exclusive_Inr by (auto simp: on_disk_eq)
  moreover have "tw_disk w2 = tw_disk w1"
    using keepsD [OF keeps_disk_require_ftp [where P = "\<lambda>d. d = tw_disk w1"] require] by simp
  moreover have "tw_disk w3 = tw_disk w2"
    using keepsD [OF keeps_disk_ftp(1) [where P = "\<lambda>d. d = tw_disk w2"] retr] by simp
  ultimately have empty: "dk_files (tw_disk w3) t = Some []" by simp
  have "triple (\<lambda>w. dk_files (tw_disk w) t = Some []) (store_chunks (ftp_download_config cfg) t [] chunks)
      (\<lambda>data w. dk_files (tw_disk w) t = Some data) (\<lambda>_ w. True)"
    by (rule store_chunks_inv [where J = "\<lambda>b D. dk_files D t = Some b" and K = "\<lambda>_. True"])
      (auto split: sum.split dest: append_bytes_Inr)
  from triple_Inr [OF this empty store] show ?thesis using flush by (auto simp: on_disk_eq dest: flush_sync_files)
qed

interpretation ftp_source: byte_source "ftp_download_config cfg" "ftp_stat env cfg" "ftp_receive env cfg" for env cfg
proof
  show "tw_disk w' = tw_disk w" if "ftp_stat env cfg p w = (ri, w')" for p w ri w'
    using keepsD [OF keeps_disk_ftp_stat [where P = "\<lambda>d. d = tw_disk w"] that] by simp
  show "ftp_receive env cfg p t w = (Inr data, w') \<Longrightarrow> dk_files (tw_disk w') t = Some data" for p t w w' data
    by (rule ftp_receive_content)
  show "only_touches {t} (dk_files (tw_disk w)) (tw_disk w')" if "ftp_receive env cfg p t w = (rs, w')" for p t w rs w'
    using keepsD [OF keeps_ftp_receive [where P = "only_touches {t} (dk_files (tw_disk w))"] that]
    by (simp add: touch_rules only_touches_def)
  show "dk_faults (tw_disk w') = []" if "ftp_receive env cfg p t w = (rs, w')" "dk_faults (tw_disk w) = []" for p t w rs w'
    using keepsD [OF keeps_ftp_receive [where P = faultless] that(1)] that(2) by (simp add: faultless_rules faultless_def)
qed

section \<open>Lemmas: the order of the steps\<close>

text \<open>What a log has established since the last connection: whether TLS wraps the control socket before the
  greeting, and whether data channels are private.\<close>

fun log_state :: "bool \<times> bool \<Rightarrow> ftp_step list \<Rightarrow> bool \<times> bool" where
  "log_state st [] = st"
| "log_state (wrapped, private) (s # steps) =
     log_state (case s of
         PlainConnect \<Rightarrow> (False, False)
       | OpenSocket \<Rightarrow> (False, False)
       | WrapTls \<Rightarrow> (True, private)
       | ProtPrivate \<Rightarrow> (wrapped, True)
       | _ \<Rightarrow> (wrapped, private)) steps"

fun step_allowed :: "bool \<Rightarrow> bool \<times> bool \<Rightarrow> ftp_step \<Rightarrow> bool" where
  "step_allowed implicit (wrapped, private) (DataCommand c) = private"
| "step_allowed implicit (wrapped, private) LoginStep = (implicit \<longrightarrow> wrapped)"
| "step_allowed implicit (wrapped, private) ReadGreeting = wrapped"
| "step_allowed implicit st _ = True"

definition log_protected :: "bool \<Rightarrow> ftp_step list \<Rightarrow> bool" where
  "log_protected implicit steps =
     (\<forall>n < length steps. step_allowed implicit (log_state (False, False) (take n steps)) (steps ! n))"

lemma log_state_append: "log_state st (a @ b) = log_state (log_state st a) b"
  by (induction st a rule: log_state.induct) auto

lemma log_protected_snoc:
  "log_protected implicit (steps @ [s]) \<longleftrightarrow>
   log_protected implicit steps \<and> step_allowed implicit (log_state (False, False) steps) s"
  by (auto simp: log_protected_def less_Suc_eq nth_append)

text \<open>Between connections: the log so far is protected, and in a state of \<open>A\<close>.\<close>

definition in_state :: "bool \<Rightarrow> (bool \<times> bool) set \<Rightarrow> 'e ftp_client \<Rightarrow> bool" where
  "in_state implicit A c =
     (\<not> fc_open c \<and> log_protected implicit (fc_log c) \<and> log_state (False, False) (fc_log c) \<in> A)"

definition ftp_safe :: "bool \<Rightarrow> 'e ftp_client \<Rightarrow> bool" where
  "ftp_safe implicit c =
     (log_protected implicit (fc_log c) \<and> (fc_open c \<longrightarrow> snd (log_state (False, False) (fc_log c))))"

abbreviation remote_is :: "('e ftp_client \<Rightarrow> bool) \<Rightarrow> 'e ftp_world \<Rightarrow> bool" where
  "remote_is P w \<equiv> P (tw_remote w)"

definition ftp_ready :: "bool \<Rightarrow> 'e ftp_client \<Rightarrow> bool" where
  "ftp_ready implicit c = (ftp_safe implicit c \<and> fc_open c)"

lemma triple_do_step:
  assumes "\<And>st. st \<in> A \<Longrightarrow> step_allowed implicit st s" and "\<And>st. st \<in> A \<Longrightarrow> log_state st [s] \<in> B"
  shows "triple (remote_is (in_state implicit A)) (do_step env s) (\<lambda>_. remote_is (in_state implicit B))
    (\<lambda>_. remote_is (in_state implicit UNIV))"
  using assms
  by (auto simp: triple_def do_step_def logged_def on_remote_def in_state_def log_protected_snoc log_state_append
      split: prod.splits sum.splits)

text \<open>Login, data protection and passive mode, from a greeted server.\<close>

lemma triple_opening:
  assumes "ft_protocol cfg \<noteq> ''ftp''" and "implicit \<longleftrightarrow> ft_protocol cfg = ''ftps-implicit''"
    and "(class' = ImplicitTls) = implicit"
  shows "triple (remote_is (in_state implicit UNIV))
    (bnd (if class' = ImplicitTls then implicit_connect env else do_step env PlainConnect) (\<lambda>_.
     bnd (do_step env LoginStep) (\<lambda>_.
     bnd (if ft_protocol cfg \<noteq> ''ftp'' then do_step env ProtPrivate else ret ()) (\<lambda>_.
     bnd (do_step env (SetPassive (ft_passive cfg))) (\<lambda>_.
     set_ftp (\<lambda>c. c\<lparr>fc_open := True\<rparr>))))))
    (\<lambda>_. remote_is (ftp_ready implicit)) (\<lambda>_. remote_is (in_state implicit UNIV))"
proof -
  have ready: "triple (remote_is (in_state implicit {(implicit, True)})) (set_ftp (\<lambda>c. c\<lparr>fc_open := True\<rparr>))
      (\<lambda>_. remote_is (ftp_ready implicit)) (\<lambda>_. remote_is (in_state implicit UNIV))"
    by (simp add: triple_def set_ftp_def on_remote_def modify_def in_state_def ftp_safe_def ftp_ready_def)
  have greet: "triple (remote_is (in_state implicit UNIV)) (if class' = ImplicitTls then implicit_connect env else do_step env PlainConnect)
      (\<lambda>_. remote_is (in_state implicit {(implicit, False)})) (\<lambda>_. remote_is (in_state implicit UNIV))"
    using assms(3) unfolding implicit_connect_def
    by (cases implicit) (auto intro!: triple_bnd triple_do_step [where A = UNIV and B = "{(False, False)}"]
        triple_do_step [where A = "{(False, False)}" and B = "{(True, False)}"]
        triple_do_step [where A = "{(True, False)}" and B = "{(True, False)}"])
  have login: "triple (remote_is (in_state implicit {(implicit, False)})) (do_step env LoginStep)
      (\<lambda>_. remote_is (in_state implicit {(implicit, False)})) (\<lambda>_. remote_is (in_state implicit UNIV))"
    and prot: "triple (remote_is (in_state implicit {(implicit, False)})) (do_step env ProtPrivate)
      (\<lambda>_. remote_is (in_state implicit {(implicit, True)})) (\<lambda>_. remote_is (in_state implicit UNIV))"
    and pasv: "triple (remote_is (in_state implicit {(implicit, True)})) (do_step env (SetPassive p))
      (\<lambda>_. remote_is (in_state implicit {(implicit, True)})) (\<lambda>_. remote_is (in_state implicit UNIV))" for p
    by (auto intro!: triple_do_step)
  show ?thesis
    using assms(1)
    by (simp only: if_True not_False_eq_True)
      (rule triple_bnd [OF greet] triple_bnd [OF login] triple_bnd [OF prot] triple_bnd [OF pasv] ready)+
qed

lemma triple_outcome: "triple P m Q (\<lambda>_. R) \<Longrightarrow> (\<And>x s. Q x s \<Longrightarrow> R s) \<Longrightarrow> triple P (outcome m) (\<lambda>_. R) E"
  by (rule tripleI) (auto simp: outcome_def dest: triple_run split: prod.splits sum.splits)

lemma keeps_outcome: "keeps I m \<Longrightarrow> keeps I (outcome m)"
  by (auto simp: keeps_def outcome_def split: prod.split)

lemma new_client_class:
  "new_client env cfg = Inr class' \<Longrightarrow> (class' = ImplicitTls) = (ft_protocol cfg = ''ftps-implicit'')"
  by (auto simp: new_client_def and_then_eq_Inr split: if_splits)

lemma triple_ftp_connect:
  assumes "ft_protocol cfg \<noteq> ''ftp''" and "implicit \<longleftrightarrow> ft_protocol cfg = ''ftps-implicit''"
  shows "triple (remote_is (ftp_safe implicit)) (ftp_connect env cfg) (\<lambda>_. remote_is (ftp_ready implicit)) (\<lambda>_. remote_is (ftp_safe implicit))"
proof -
  have safe: "ftp_safe implicit c" if "in_state implicit UNIV c" for c :: "'a ftp_client"
    using that by (simp add: in_state_def ftp_safe_def)
  have close: "triple (remote_is (in_state implicit UNIV)) (bnd (do_step env CloseStep) (\<lambda>_. throw e))
      (\<lambda>_. remote_is (ftp_ready implicit)) (\<lambda>_. remote_is (ftp_safe implicit))" for e
    by (rule triple_bnd [OF triple_conseq [OF triple_do_step [where A = UNIV and B = UNIV and s = CloseStep and implicit = implicit]], where R = "\<lambda>_. remote_is (in_state implicit UNIV)"])
      (simp_all add: triple_throw safe)
  show ?thesis
    unfolding ftp_connect_def
    apply (rule triple_bnd [OF triple_gets [where Q = "\<lambda>is_open w. ftp_safe implicit (tw_remote w) \<and> is_open = fc_open (tw_remote w)"]])
     apply simp
    apply (rule triple_if)
     apply (rule triple_ret, simp add: ftp_ready_def)
    apply (rule triple_bnd [OF triple_lift [where Q = "\<lambda>class' w. in_state implicit UNIV (tw_remote w) \<and> (class' = ImplicitTls) = implicit"]])
      apply (simp add: in_state_def ftp_safe_def new_client_class assms)
     apply simp
    subgoal for is_open class'
    proof (cases "(class' = ImplicitTls) = implicit")
      case True
      show ?thesis
        by (rule triple_conseq [OF triple_catch [OF triple_opening [OF assms True] close]]) (auto intro: safe)
    qed (simp add: triple_def)
    done
qed

lemma ready_safe: "ftp_ready implicit c \<Longrightarrow> ftp_safe implicit c"
  by (simp add: ftp_ready_def)

named_theorems ready_rules "what a ready client does keeps it ready"

lemma ready_logged:
  assumes "s = DataCommand c \<or> s = ControlCommand c"
  shows "keeps (remote_is (ftp_ready implicit)) (logged s m)"
proof -
  have "ftp_ready implicit (cl\<lparr>fc_server := e, fc_log := fc_log cl @ [s]\<rparr>)" if "ftp_ready implicit cl" for cl :: "'a ftp_client" and e
  proof (cases "log_state (False, False) (fc_log cl)")
    case (Pair wrapped prot)
    then show ?thesis using that assms by (auto simp: ftp_ready_def ftp_safe_def log_protected_snoc log_state_append)
  qed
  then show ?thesis by (simp add: keeps_def logged_def on_remote_def split: prod.split)
qed

lemma keeps_ready_data [ready_rules]:
  "keeps (remote_is (ftp_ready implicit)) (retrlines env c)" "keeps (remote_is (ftp_ready implicit)) (sendcmd env c)"
  "keeps (remote_is (ftp_ready implicit)) (mlsd env c facts)"
  "keeps (remote_is (ftp_ready implicit)) (logged (DataCommand c) m)"
  unfolding retrlines_def sendcmd_def mlsd_def by (rule ready_logged, simp)+

lemma keeps_ready_set [ready_rules]:
  "keeps (remote_is (ftp_ready implicit)) (set_ftp (\<lambda>c. c\<lparr>fc_listing := l\<rparr>))"
  "keeps (remote_is (ftp_ready implicit)) (set_ftp (\<lambda>c. c\<lparr>fc_metadata := m\<rparr>))"
  by (simp_all add: keeps_def set_ftp_def on_remote_def modify_def ftp_ready_def ftp_safe_def)

lemma keeps_remote_disk: "keeps (remote_is P) (on_disk m)"
  by (simp add: keeps_def on_disk_def split: prod.split)

lemma keeps_ready_require [ready_rules]: "keeps (remote_is (ftp_ready implicit)) (require_ftp env cfg)"
  by (simp add: keeps_def require_ftp_def ftp_connect_def bnd_def gets_def ret_def ftp_ready_def)

lemma triple_require:
  assumes "ft_protocol cfg \<noteq> ''ftp''" and "implicit \<longleftrightarrow> ft_protocol cfg = ''ftps-implicit''"
  shows "triple (remote_is (ftp_safe implicit)) (require_ftp env cfg) (\<lambda>_. remote_is (ftp_ready implicit)) (\<lambda>_. remote_is (ftp_safe implicit))"
  unfolding require_ftp_def
  by (rule triple_bnd [OF triple_ftp_connect [OF assms]])
    (auto simp: triple_def bnd_def gets_def guard_not_def ret_def throw_def ready_safe)

text \<open>An operation that starts with \<open>_require_client\<close> and then keeps the client ready is safe.\<close>

lemma keeps_safe_require:
  assumes "ft_protocol cfg \<noteq> ''ftp''" and "implicit \<longleftrightarrow> ft_protocol cfg = ''ftps-implicit''"
    and "\<And>x. keeps (remote_is (ftp_ready implicit)) (f x)"
  shows "keeps (remote_is (ftp_safe implicit)) (bnd (require_ftp env cfg) f)"
  unfolding keeps_triple
  by (rule triple_bnd [OF triple_require [OF assms(1,2)]])
    (rule triple_conseq [OF assms(3) [unfolded keeps_triple]], auto intro: ready_safe)

lemma keeps_ready_legacy [ready_rules]:
  "keeps (remote_is (ftp_ready implicit)) (legacy_list_files env cfg d)"
  "keeps (remote_is (ftp_ready implicit)) (legacy_stat env cfg p)"
  unfolding legacy_list_files_def legacy_stat_def legacy_modified_def
  by (intro keeps_intros ready_rules keeps_list_case)+

lemma keeps_safe_list:
  assumes "ft_protocol cfg \<noteq> ''ftp''" and "implicit \<longleftrightarrow> ft_protocol cfg = ''ftps-implicit''"
  shows "keeps (remote_is (ftp_safe implicit)) (ftp_list_files env cfg p)"
proof -
  have finish: "keeps (remote_is (ftp_ready implicit)) (bnd (set_ftp (\<lambda>c. c\<lparr>fc_listing := l\<rparr>)) (\<lambda>_.
      bnd (lift r) (\<lambda>results. ret (g results))))" for l :: "string option" and r :: "remote_file_info list result" and g
    by (intro keeps_intros ready_rules)
  show ?thesis
    unfolding ftp_list_files_def Let_def
    by (intro keeps_bnd keeps_lift keeps_safe_require [OF assms] keeps_outcome ready_rules)
      (auto split: sum.split exn.split intro!: finish keeps_bnd keeps_outcome keeps_throw ready_rules)
qed

lemma keeps_safe_stat:
  assumes "ft_protocol cfg \<noteq> ''ftp''" and "implicit \<longleftrightarrow> ft_protocol cfg = ''ftps-implicit''"
  shows "keeps (remote_is (ftp_safe implicit)) (ftp_stat env cfg p)"
  unfolding ftp_stat_def
  by (intro keeps_bnd keeps_lift keeps_safe_require [OF assms] keeps_catch keeps_exn_cases keeps_if keeps_throw keeps_ret ready_rules)

lemma keeps_safe_exists:
  assumes "ft_protocol cfg \<noteq> ''ftp''" and "implicit \<longleftrightarrow> ft_protocol cfg = ''ftps-implicit''"
  shows "keeps (remote_is (ftp_safe implicit)) (ftp_exists env cfg p)"
  unfolding ftp_exists_def by (intro keeps_intros keeps_safe_stat [OF assms])

lemma keeps_remote_store: "keeps (remote_is P) (store_chunks dcfg t acc chunks)"
  by (induction chunks arbitrary: acc) (auto intro!: keeps_intros keeps_remote_disk)

lemma keeps_safe_receive:
  assumes "ft_protocol cfg \<noteq> ''ftp''" and "implicit \<longleftrightarrow> ft_protocol cfg = ''ftps-implicit''"
  shows "keeps (remote_is (ftp_safe implicit)) (ftp_receive env cfg p t)"
  unfolding ftp_receive_def
  by (intro keeps_bnd keeps_remote_disk keeps_safe_require [OF assms] keeps_prod keeps_remote_store keeps_option
      keeps_ret keeps_throw ready_rules)

lemma keeps_download_with:
  assumes "\<And>p. keeps (remote_is P) (stat p)" and "\<And>p t. keeps (remote_is P) (receive p t)"
  shows "keeps (remote_is P) (download_with dcfg stat receive p l ow)"
  unfolding download_with_def fetch_and_commit_def Let_def
  by (intro keeps_intros keeps_remote_disk assms)

lemma keeps_safe_connect:
  assumes "ft_protocol cfg \<noteq> ''ftp''" and "implicit \<longleftrightarrow> ft_protocol cfg = ''ftps-implicit''"
  shows "keeps (remote_is (ftp_safe implicit)) (ftp_connect env cfg)"
  unfolding keeps_triple
  by (rule triple_conseq [OF triple_ftp_connect [OF assms]]) (auto intro: ready_safe)

lemma keeps_safe_close: "keeps (remote_is (ftp_safe implicit)) (ftp_close env)"
proof -
  have closed: "ftp_safe implicit c" if "in_state implicit UNIV c" for c :: "'a ftp_client"
    using that by (simp add: in_state_def ftp_safe_def)
  have step: "triple (remote_is (in_state implicit UNIV)) (do_step env s) (\<lambda>_. remote_is (in_state implicit UNIV))
      (\<lambda>_. remote_is (in_state implicit UNIV))" if "s = QuitStep \<or> s = CloseStep" for s
    using that by (auto intro!: triple_do_step)
  have unset: "triple (remote_is (ftp_safe implicit)) (set_ftp (\<lambda>c. c\<lparr>fc_open := False\<rparr>))
      (\<lambda>_. remote_is (in_state implicit UNIV)) (\<lambda>_. remote_is (in_state implicit UNIV))"
    by (simp add: triple_def set_ftp_def on_remote_def modify_def in_state_def ftp_safe_def)
  have "triple (remote_is (ftp_safe implicit)) (ftp_close env) (\<lambda>_. remote_is (in_state implicit UNIV))
      (\<lambda>_. remote_is (in_state implicit UNIV))"
    unfolding ftp_close_def
    by (rule triple_bnd [OF triple_gets [where Q = "\<lambda>_. remote_is (ftp_safe implicit)"]], assumption)
      (rule triple_bnd [OF unset], auto intro!: triple_ret triple_catch [OF step step])
  then show ?thesis unfolding keeps_triple by (rule triple_conseq) (auto intro: closed)
qed

section \<open>Properties\<close>

text \<open>The public operations of the client, in any order.\<close>

datatype ftp_call = CallConnect | CallClose | CallList string | CallStat string | CallExists string | CallDownload string string bool

fun ftp_call_state :: "'e ftp_env \<Rightarrow> ftp_config \<Rightarrow> ftp_call \<Rightarrow> 'e ftp_world \<Rightarrow> 'e ftp_world" where
  "ftp_call_state env cfg CallConnect w = snd (ftp_connect env cfg w)"
| "ftp_call_state env cfg CallClose w = snd (ftp_close env w)"
| "ftp_call_state env cfg (CallList p) w = snd (ftp_list_files env cfg p w)"
| "ftp_call_state env cfg (CallStat p) w = snd (ftp_stat env cfg p w)"
| "ftp_call_state env cfg (CallExists p) w = snd (ftp_exists env cfg p w)"
| "ftp_call_state env cfg (CallDownload p l ow) w = snd (ftp_download env cfg p l ow w)"

inductive ftp_reachable :: "'e ftp_env \<Rightarrow> ftp_config \<Rightarrow> 'e ftp_world \<Rightarrow> bool" for env cfg where
  fresh: "\<not> fc_open (tw_remote w) \<Longrightarrow> fc_log (tw_remote w) = [] \<Longrightarrow> ftp_reachable env cfg w"
| called: "ftp_reachable env cfg w \<Longrightarrow> ftp_reachable env cfg (ftp_call_state env cfg c w)"

lemma ftp_call_safe:
  assumes "ft_protocol cfg \<noteq> ''ftp''" and "ftp_safe (ft_protocol cfg = ''ftps-implicit'') (tw_remote w)"
  shows "ftp_safe (ft_protocol cfg = ''ftps-implicit'') (tw_remote (ftp_call_state env cfg c w))"
proof -
  note here = assms(2) and rules = keeps_safe_connect [OF assms(1) refl] keeps_safe_close keeps_safe_list [OF assms(1) refl]
    keeps_safe_stat [OF assms(1) refl] keeps_safe_exists [OF assms(1) refl]
    keeps_download_with [OF keeps_safe_stat [OF assms(1) refl] keeps_safe_receive [OF assms(1) refl]]
  show ?thesis
    by (cases c) (simp_all add: ftp_download_def rules [unfolded keeps_def, rule_format] here)
qed


definition demo_ftp_server :: "unit ftp_env" where
  "demo_ftp_server =
     \<lparr>fe_is_file = (\<lambda>_. True), fe_expanduser = id, fe_step = (\<lambda>_. ret ()), fe_sendcmd = (\<lambda>c. ret ''x''),
      fe_mlsd = (\<lambda>_ _. throw (ErrorPerm ''500 unknown'')),
      fe_retrlines = (\<lambda>_. ret [''-rw-r--r-- 1 o g 3 Jan 1 2024 f'']), fe_retrbinary = (\<lambda>_ _. ret ([''abc''], None))\<rparr>"

definition demo_ftp :: "string \<Rightarrow> ftp_config" where
  "demo_ftp protocol =
     \<lparr>ft_host = ''h'', ft_username = ''u'', ft_password = ''p'', ft_protocol = protocol, ft_port = Some 990, ft_timeout = 5,
      ft_remote_root = ''/'', ft_passive = True, ft_ca_file = None, ft_allow_unverified = False, ft_allow_insecure = False,
      ft_allow_legacy = True, ft_legacy_format = Some ''unix'', ft_max_bytes = 10, ft_chunk_size = 4, ft_uuid = ''aa'',
      ft_sha256 = id\<rparr>"

definition demo_ftp_world :: "unit ftp_world" where
  "demo_ftp_world =
     \<lparr>tw_remote = \<lparr>fc_server = (), fc_open = False, fc_log = [], fc_listing = None, fc_metadata = None\<rparr>,
      tw_disk = \<lparr>dk_files = (\<lambda>_. None), dk_faults = []\<rparr>\<rparr>"


section \<open>What the client asks of the server\<close>

definition path_allowed :: "ftp_config \<Rightarrow> string \<Rightarrow> bool" where
  "path_allowed cfg p =
     (inside_root (ft_remote_root cfg) p \<and> (\<forall>c \<in> {CHR 13, nl}. c \<in> set p \<longrightarrow> c \<in> set (ft_remote_root cfg)))"

definition step_read_only :: "ftp_config \<Rightarrow> ftp_step \<Rightarrow> bool" where
  "step_read_only cfg s =
     (case s of
        DataCommand c \<Rightarrow> \<exists>verb \<in> {''LIST '', ''MLSD '', ''RETR ''}. \<exists>p. c = verb @ p \<and> path_allowed cfg p
      | ControlCommand c \<Rightarrow> \<exists>verb \<in> {''MLST '', ''MDTM ''}. \<exists>p. c = verb @ p \<and> path_allowed cfg p
      | _ \<Rightarrow> True)"

definition ftp_read_only :: "ftp_config \<Rightarrow> 'e ftp_client \<Rightarrow> bool" where
  "ftp_read_only cfg c = list_all (step_read_only cfg) (fc_log c)"

lemma ftp_resolve_allowed: "ftp_resolve cfg p = Inr r \<Longrightarrow> path_allowed cfg r"
  using resolve_chars [of "ft_remote_root cfg" p r]
  by (auto simp: ftp_resolve_def path_allowed_def slash_def nl_def resolve_inside split: if_splits)

named_theorems read_only_rules "steps that only read"

lemma keeps_ro_logged: "step_read_only cfg s \<Longrightarrow> keeps (remote_is (ftp_read_only cfg)) (logged s m)"
  by (simp add: keeps_def logged_def on_remote_def ftp_read_only_def split: prod.split)

lemma keeps_ro_steps [read_only_rules]:
  "keeps (remote_is (ftp_read_only cfg)) (do_step env PlainConnect)" "keeps (remote_is (ftp_read_only cfg)) (do_step env OpenSocket)"
  "keeps (remote_is (ftp_read_only cfg)) (do_step env WrapTls)" "keeps (remote_is (ftp_read_only cfg)) (do_step env ReadGreeting)"
  "keeps (remote_is (ftp_read_only cfg)) (do_step env LoginStep)" "keeps (remote_is (ftp_read_only cfg)) (do_step env ProtPrivate)"
  "keeps (remote_is (ftp_read_only cfg)) (do_step env (SetPassive v))" "keeps (remote_is (ftp_read_only cfg)) (do_step env QuitStep)"
  "keeps (remote_is (ftp_read_only cfg)) (do_step env CloseStep)"
  unfolding do_step_def by (rule keeps_ro_logged, simp add: step_read_only_def)+

lemma keeps_ro_set [read_only_rules]:
  "keeps (remote_is (ftp_read_only cfg)) (set_ftp (\<lambda>c. c\<lparr>fc_listing := l\<rparr>))"
  "keeps (remote_is (ftp_read_only cfg)) (set_ftp (\<lambda>c. c\<lparr>fc_metadata := l\<rparr>))"
  "keeps (remote_is (ftp_read_only cfg)) (set_ftp (\<lambda>c. c\<lparr>fc_open := v\<rparr>))"
  by (simp_all add: keeps_def set_ftp_def on_remote_def modify_def ftp_read_only_def)

lemma keeps_ro_commands [read_only_rules]:
  "path_allowed cfg p \<Longrightarrow> keeps (remote_is (ftp_read_only cfg)) (retrlines env (''LIST '' @ p))"
  "path_allowed cfg p \<Longrightarrow> keeps (remote_is (ftp_read_only cfg)) (mlsd env p facts)"
  "path_allowed cfg p \<Longrightarrow> keeps (remote_is (ftp_read_only cfg)) (sendcmd env (''MLST '' @ p))"
  "path_allowed cfg p \<Longrightarrow> keeps (remote_is (ftp_read_only cfg)) (sendcmd env (''MDTM '' @ p))"
  "path_allowed cfg p \<Longrightarrow> keeps (remote_is (ftp_read_only cfg)) (logged (DataCommand (''RETR '' @ p)) m)"
  unfolding retrlines_def mlsd_def sendcmd_def by (rule keeps_ro_logged, simp add: step_read_only_def)+

lemma keeps_ro_connect [read_only_rules]: "keeps (remote_is (ftp_read_only cfg)) (ftp_connect env cfg)"
  unfolding ftp_connect_def implicit_connect_def by (intro keeps_intros read_only_rules)

lemma keeps_ro_close [read_only_rules]: "keeps (remote_is (ftp_read_only cfg)) (ftp_close env)"
  unfolding ftp_close_def by (intro keeps_intros read_only_rules)

lemma keeps_ro_require [read_only_rules]: "keeps (remote_is (ftp_read_only cfg)) (require_ftp env cfg)"
  unfolding require_ftp_def by (intro keeps_intros read_only_rules)

lemma keeps_ro_legacy [read_only_rules]:
  "path_allowed cfg p \<Longrightarrow> keeps (remote_is (ftp_read_only cfg)) (legacy_list_files env cfg p)"
  "path_allowed cfg p \<Longrightarrow> keeps (remote_is (ftp_read_only cfg)) (legacy_stat env cfg p)"
  unfolding legacy_list_files_def legacy_stat_def legacy_modified_def
  by (auto intro!: keeps_intros read_only_rules keeps_list_case simp del: append.simps)

text \<open>Sequencing when the first run's result is known to satisfy \<open>K\<close>.\<close>

lemma keeps_bnd_result:
  assumes "keeps J m" and "\<And>s x s'. m s = (Inr x, s') \<Longrightarrow> K x" and "\<And>x. K x \<Longrightarrow> keeps J (f x)"
  shows "keeps J (bnd m f)"
  using assms by (auto simp: keeps_def bnd_def split: prod.split sum.split)

lemma keeps_resolved:
  "(\<And>r. path_allowed cfg r \<Longrightarrow> keeps J (f r)) \<Longrightarrow> keeps J (bnd (lift (ftp_resolve cfg p)) f)"
  by (rule keeps_bnd_result [where K = "path_allowed cfg"]) (auto simp: lift_run keeps_lift intro: ftp_resolve_allowed)

lemma keeps_ro_list: "keeps (remote_is (ftp_read_only cfg)) (ftp_list_files env cfg p)"
  unfolding ftp_list_files_def Let_def
  by (intro keeps_resolved keeps_bnd read_only_rules keeps_outcome; assumption?)
    (auto split: sum.split exn.split intro!: keeps_bnd keeps_outcome keeps_throw keeps_lift keeps_ret read_only_rules)

lemma keeps_ro_stat: "keeps (remote_is (ftp_read_only cfg)) (ftp_stat env cfg p)"
  unfolding ftp_stat_def
  by (intro keeps_resolved keeps_bnd keeps_lift keeps_catch keeps_exn_cases keeps_if keeps_throw keeps_ret read_only_rules; assumption)

lemma file_info_path: "file_info_from_facts p facts = Inr info \<Longrightarrow> fi_path info = p"
  by (auto simp: file_info_from_facts_def Let_def and_then_eq_Inr split: option.splits)

lemma legacy_stat_path: "legacy_stat env cfg p w = (Inr info, w') \<Longrightarrow> fi_path info = p"
  by (auto simp: legacy_stat_def bnd_eq_Inr info_of_entry_def ret_run)

lemma ftp_stat_path:
  assumes "ftp_stat env cfg p w = (Inr info, w')"
  shows "path_allowed cfg (fi_path info)"
proof -
  let ?path = "\<lambda>r info (_ :: 'a ftp_world). fi_path info = r"
  have fallback: "triple (\<lambda>_. True) (case e of
        ErrorPerm m \<Rightarrow> if ftp_unsupported m then legacy_stat env cfg r
                       else if ftp_not_found m then throw (FileNotFoundError r) else throw e
      | _ \<Rightarrow> throw e) (?path r) (\<lambda>_ _. True)" for e r
    by (cases e) (auto intro!: triple_if triple_throw tripleI dest: legacy_stat_path)
  have direct: "triple (\<lambda>_. True) (bnd (sendcmd env c) (\<lambda>response.
        bnd (lift (parse_mlst_response response)) (\<lambda>facts.
        bnd (lift (file_info_from_facts r facts)) (\<lambda>info.
        bnd (set_ftp (\<lambda>c. c\<lparr>fc_metadata := Some ''mlst''\<rparr>)) (\<lambda>_. ret info))))) (?path r) (\<lambda>_ _. True)" for c r
    by (rule tripleI) (auto simp: bnd_eq_Inr lift_run ret_run dest: file_info_path)
  obtain r where r: "ftp_resolve cfg p = Inr r"
    using assms by (auto simp: ftp_stat_def bnd_eq_Inr lift_run)
  have "triple (\<lambda>_. True) (ftp_stat env cfg p) (?path r) (\<lambda>_ _. True)"
    unfolding ftp_stat_def r lift_simps bnd_ret
    by (rule triple_bnd [OF triple_any] triple_catch [OF triple_conseq [OF direct] triple_conseq [OF fallback]])+ simp_all
  then have "fi_path info = r" using assms triple_Inr by fastforce
  with ftp_resolve_allowed [OF r] show ?thesis by simp
qed

lemma keeps_ro_download: "keeps (remote_is (ftp_read_only cfg)) (ftp_download env cfg p l ow)"
proof -
  have receive: "keeps (remote_is (ftp_read_only cfg)) (ftp_receive env cfg r t)" if "path_allowed cfg r" for r t
    unfolding ftp_receive_def
    by (intro keeps_bnd keeps_remote_disk keeps_prod keeps_remote_store keeps_option keeps_ret keeps_throw read_only_rules that)
  have fetch: "keeps (remote_is (ftp_read_only cfg))
      (fetch_and_commit (ftp_download_config cfg) (ftp_stat env cfg) (ftp_receive env cfg) info t d ow)"
    if "path_allowed cfg (fi_path info)" for info t d
    unfolding fetch_and_commit_def by (intro keeps_intros keeps_remote_disk keeps_ro_stat receive that)
  show ?thesis
    unfolding ftp_download_def download_with_def Let_def
    by (rule keeps_bnd_result [OF keeps_ro_stat, where K = "\<lambda>info. path_allowed cfg (fi_path info)"], erule ftp_stat_path)
      (intro keeps_intros keeps_remote_disk fetch; assumption)
qed

lemma keeps_ro_exists: "keeps (remote_is (ftp_read_only cfg)) (ftp_exists env cfg p)"
  unfolding ftp_exists_def by (intro keeps_intros keeps_ro_stat)

lemma ftp_call_read_only:
  "ftp_read_only cfg (tw_remote w) \<Longrightarrow> ftp_read_only cfg (tw_remote (ftp_call_state env cfg c w))"
  by (cases c) (simp_all add: keeps_ro_connect [unfolded keeps_def, rule_format] keeps_ro_close [unfolded keeps_def, rule_format]
      keeps_ro_list [unfolded keeps_def, rule_format] keeps_ro_stat [unfolded keeps_def, rule_format]
      keeps_ro_exists [unfolded keeps_def, rule_format] keeps_ro_download [unfolded keeps_def, rule_format])

text \<open>C29. The client only reads, and only below its root: whatever is asked of it and whatever the server answers,
  each command it asks \<open>ftplib\<close> for is \<open>LIST\<close>, \<open>MLSD\<close>, \<open>RETR\<close>, \<open>MLST\<close> or \<open>MDTM\<close> on one absolute path inside the configured
  root, without \<open>..\<close>, and with no line break that could start a second command unless the root itself has one.\<close>

theorem ftp_commands_read_only:
  assumes "ftp_reachable env cfg w" and "s \<in> set (fc_log (tw_remote w))"
  shows "case s of
      DataCommand c \<Rightarrow> \<exists>verb \<in> {''LIST '', ''MLSD '', ''RETR ''}. \<exists>p. c = verb @ p \<and> path_allowed cfg p
    | ControlCommand c \<Rightarrow> \<exists>verb \<in> {''MLST '', ''MDTM ''}. \<exists>p. c = verb @ p \<and> path_allowed cfg p
    | _ \<Rightarrow> True"
proof -
  have "ftp_read_only cfg (tw_remote w)"
    using assms(1) by induction (simp add: ftp_read_only_def, rule ftp_call_read_only)
  with assms(2) show ?thesis by (simp add: ftp_read_only_def list_all_iff step_read_only_def)
qed

lemma ftp_commands_read_only_witness:
  "(\<exists>verb \<in> {''LIST '', ''MLSD '', ''RETR ''}. \<exists>p. ''LIST /'' = verb @ p \<and> path_allowed (demo_ftp ''ftps'') p)"
proof -
  let ?w = "ftp_call_state demo_ftp_server (demo_ftp ''ftps'') (CallList ''.'') demo_ftp_world"
  have "ftp_reachable demo_ftp_server (demo_ftp ''ftps'') ?w"
    by (intro ftp_reachable.intros) (simp_all add: demo_ftp_world_def)
  moreover have "fc_log (tw_remote ?w) = [PlainConnect, LoginStep, ProtPrivate, SetPassive True, DataCommand ''MLSD /'',
      DataCommand ''MLSD /'', DataCommand ''LIST /'']"
    by code_simp
  ultimately show ?thesis using ftp_commands_read_only [of _ _ ?w "DataCommand ''LIST /''"] by simp
qed

section \<open>Downloads and listings\<close>

text \<open>A download over FTP or FTPS is all or nothing, as over SFTP: on success the destination holds the bytes
  received, whose number is within the limit and whose digest is reported, and the temporary name is gone; on failure
  nothing but the two names can differ, a file that was there is not touched without \<open>overwrite\<close>, and with a working
  disk every file is as it was.\<close>

theorem ftp_download_all_or_nothing:
  assumes "ftp_download env cfg remote_path local_path overwrite w = (r, w')"
  shows "case r of
      Inr res \<Rightarrow> \<exists>data. dk_files (tw_disk w') = (dk_files (tw_disk w))
          (temporary_path (ftp_download_config cfg) local_path := None, norm_path_str local_path := Some data) \<and>
        dr_local_path res = norm_path_str local_path \<and> dr_size res = int (length data) \<and> dr_size res \<le> ft_max_bytes cfg \<and>
        dr_sha256 res = hexdigest (ft_sha256 cfg data) \<and>
        (\<not> overwrite \<longrightarrow> dk_files (tw_disk w) (norm_path_str local_path) = None)
    | Inl e \<Rightarrow>
        only_touches {temporary_path (ftp_download_config cfg) local_path, norm_path_str local_path}
          (dk_files (tw_disk w)) (tw_disk w') \<and>
        (\<not> overwrite \<and> dk_files (tw_disk w) (norm_path_str local_path) \<noteq> None \<longrightarrow>
           dk_files (tw_disk w') (norm_path_str local_path) = dk_files (tw_disk w) (norm_path_str local_path)) \<and>
        (is_exception e \<and> dk_faults (tw_disk w) = [] \<and>
           dk_files (tw_disk w) (temporary_path (ftp_download_config cfg) local_path) = None \<longrightarrow>
           dk_files (tw_disk w') = dk_files (tw_disk w))"
proof (cases r)
  case (Inl e)
  from ftp_source.download_Inl [OF assms [unfolded ftp_download_def Inl]] Inl show ?thesis by simp
next
  case (Inr res)
  from ftp_source.download_Inr [OF assms [unfolded ftp_download_def Inr]] Inr show ?thesis
    by (simp add: ftp_download_config_def)
qed

text \<open>The server of the example lists one file of three bytes; \<open>four\<close> bytes arrive the second time.\<close>

definition demo_download_server :: "string \<Rightarrow> unit ftp_env" where
  "demo_download_server content = demo_ftp_server
     \<lparr>fe_sendcmd := (\<lambda>c. throw (ErrorPerm ''500 unknown'')), fe_retrbinary := (\<lambda>_ _. ret ([content], None))\<rparr>"

lemma ftp_download_all_or_nothing_witness:
  "dk_files (tw_disk (snd (ftp_download (demo_download_server ''abc'') (demo_ftp ''ftps'') ''f'' ''out/f'' False demo_ftp_world)))
     ''out/f'' = Some ''abc'' \<and>
   dk_files (tw_disk (snd (ftp_download (demo_download_server ''abcd'') (demo_ftp ''ftps'') ''f'' ''out/f'' False demo_ftp_world)))
     = (\<lambda>_. None)"
proof -
  let ?good = "ftp_download (demo_download_server ''abc'') (demo_ftp ''ftps'') ''f'' ''out/f'' False demo_ftp_world"
  let ?bad = "ftp_download (demo_download_server ''abcd'') (demo_ftp ''ftps'') ''f'' ''out/f'' False demo_ftp_world"
  have good: "dk_files (tw_disk (snd ?good)) ''out/f'' = Some ''abc''" by code_simp
  have "fst ?bad = Inl (OSError None ''FTP download size mismatch: expected 3, received 4'')" by code_simp
  then have "dk_files (tw_disk (snd ?bad)) = (\<lambda>_. None)"
    using ftp_download_all_or_nothing [where env = "demo_download_server ''abcd''" and cfg = "demo_ftp ''ftps''" and
      remote_path = "''f''" and local_path = "''out/f''" and overwrite = False and w = demo_ftp_world, OF prod.collapse [symmetric]]
    by (simp add: demo_ftp_world_def)
  with good show ?thesis by simp
qed

text \<open>\<open>exists\<close> answers \<open>False\<close>, before any connection, when the configured CA file is missing: the local
  \<open>FileNotFoundError\<close> of \<open>_tls_context\<close> is taken for a missing remote file.\<close>

lemma exists_hides_missing_ca:
  assumes "\<not> fc_open (tw_remote w)" and "ft_protocol cfg \<noteq> ''ftp''" and "\<not> ft_allow_unverified cfg"
    and "ft_ca_file cfg = Some ca" and "\<not> fe_is_file env ca" and "ftp_resolve cfg p = Inr path"
  shows "ftp_exists env cfg p w = (Inr False, w)"
  using assms
  by (simp add: ftp_exists_def ftp_stat_def require_ftp_def ftp_connect_def new_client_def tls_context_def raise_when_def
      catch_when_def bnd_def lift_def gets_def ret_def throw_def)

text \<open>What holds of each entry of a listing.\<close>

definition one_kind :: "bool \<Rightarrow> bool \<Rightarrow> bool \<Rightarrow> bool" where
  "one_kind d r l = (length (filter id [d, r, l]) = 1)"

definition listed_ok :: "ftp_config \<Rightarrow> remote_file_info \<Rightarrow> bool" where
  "listed_ok cfg info =
     (path_allowed cfg (fi_path info) \<and> one_kind (fi_directory info) (fi_regular info) (fi_symlink info))"

lemma unix_line_kind:
  "parse_unix_list_line line = Inr entry \<Longrightarrow> one_kind (ue_directory entry) (ue_regular entry) (ue_symlink entry)"
  by (auto simp: parse_unix_list_line_def Let_def and_then_eq_Inr raise_when_def one_kind_def split: option.splits if_splits)

lemma legacy_entries_ok: "legacy_entries cfg d lines = Inr infos \<Longrightarrow> list_all (listed_ok cfg) infos"
proof (induction lines arbitrary: infos)
  case (Cons line lines)
  from Cons.prems obtain entry where entry: "parse_unix_list_line line = Inr entry"
    by (auto simp: and_then_eq_Inr)
  show ?case
  proof (cases "ue_name entry \<in> {''.'', ''..''}")
    case True
    then show ?thesis using Cons entry by simp
  next
    case False
    then obtain path rest where "ftp_resolve cfg (join_remote d (ue_name entry)) = Inr path"
      "legacy_entries cfg d lines = Inr rest" "infos = info_of_entry path entry None # rest"
      using Cons.prems entry by (auto simp: and_then_eq_Inr)
    then show ?thesis
      using Cons.IH unix_line_kind [OF entry] by (simp add: listed_ok_def info_of_entry_def ftp_resolve_allowed)
  qed
qed simp

lemma type_kinds:
  assumes "is_dir = (ty \<in> {''dir'', ''cdir'', ''pdir''})" and "is_file = (ty = ''file'')"
    and "is_link = (contains ''slink'' ty \<or> ty \<in> {''link'', ''symlink''})" and "is_dir \<or> is_file \<or> is_link"
  shows "one_kind is_dir is_file is_link"
proof (cases "is_dir \<or> is_file")
  case True
  moreover have "\<not> contains ''slink'' ''dir''" "\<not> contains ''slink'' ''cdir''" "\<not> contains ''slink'' ''pdir''"
    "\<not> contains ''slink'' ''file''" by code_simp+
  ultimately show ?thesis using assms by (auto simp: one_kind_def)
qed (use assms in \<open>simp add: one_kind_def\<close>)

lemma fact_kind:
  assumes "file_info_from_facts p facts = Inr info"
  shows "one_kind (fi_directory info) (fi_regular info) (fi_symlink info)"
proof -
  have "one_kind (fi_directory info) (fi_regular info) (fi_symlink info)"
    if "\<exists>ty n m d r l. info = \<lparr>fi_path = p, fi_size = n, fi_modified = m, fi_directory = d, fi_regular = r, fi_symlink = l\<rparr> \<and>
      d = (ty \<in> {''dir'', ''cdir'', ''pdir''}) \<and> r = (ty = ''file'') \<and>
      l = (contains ''slink'' ty \<or> ty \<in> {''link'', ''symlink''}) \<and> (d \<or> r \<or> l)"
    using that type_kinds by fastforce
  moreover have "\<exists>ty n m d r l. info = \<lparr>fi_path = p, fi_size = n, fi_modified = m, fi_directory = d, fi_regular = r, fi_symlink = l\<rparr> \<and>
      d = (ty \<in> {''dir'', ''cdir'', ''pdir''}) \<and> r = (ty = ''file'') \<and>
      l = (contains ''slink'' ty \<or> ty \<in> {''link'', ''symlink''}) \<and> (d \<or> r \<or> l)"
    using assms unfolding file_info_from_facts_def Let_def
    by (intro exI [where x = "lower (get_or (dict_of (map (\<lambda>(k, v). (lower k, v)) facts)) ''type'' [])"])
      (simp add: and_then_eq_Inr raise_when_def disj_assoc split: option.splits if_splits, blast?)
  ultimately show ?thesis by blast
qed

lemma mlsd_entries_ok:
  assumes "mlsd_entries cfg d entries = Inr infos"
  shows "list_all (listed_ok cfg) infos"
  using assms unfolding mlsd_entries_def
proof (rule traverse_all)
  fix entry info
  assume "(case entry of (name, facts) \<Rightarrow>
      and_then (ftp_resolve cfg (join_remote d name)) (\<lambda>path. file_info_from_facts path facts)) = Inr info"
  then show "listed_ok cfg info"
    by (cases entry) (auto simp only: listed_ok_def and_then_eq_Inr prod.case file_info_path intro: fact_kind ftp_resolve_allowed)
qed

lemma sorted_listing: "sorted (map fi_path (sort_key fi_path infos))"
  by (rule sorted_sort_key)

lemma listing_finish:
  assumes "\<And>infos. r = Inr infos \<Longrightarrow> list_all (listed_ok cfg) infos"
  shows "triple (\<lambda>_. True) (bnd (set_ftp f) (\<lambda>_. bnd (lift r) (\<lambda>results. ret (sort_key fi_path results))))
    (\<lambda>infos _. sorted (map fi_path infos) \<and> list_all (listed_ok cfg) infos) (\<lambda>_ _. True)"
  by (rule tripleI) (auto simp: bnd_eq_Inr lift_run ret_run list_all_iff sorted_listing dest: assms)

lemma legacy_listing_ok:
  "triple (\<lambda>_. True) (legacy_list_files env cfg d)
    (\<lambda>infos _. sorted (map fi_path infos) \<and> list_all (listed_ok cfg) infos) (\<lambda>_ _. True)"
  by (rule tripleI) (auto simp: legacy_list_files_def bnd_eq_Inr lift_run ret_run list_all_iff sorted_listing
      dest!: legacy_entries_ok)

text \<open>C30. Every listing is sorted by path, each of its entries lies inside the configured root, whatever names the
  server sends and whichever of MLSD and the strict UNIX format was used, and is exactly one of directory, regular
  file and symbolic link.\<close>

theorem ftp_listing_confined:
  assumes "ftp_list_files env cfg remote_path w = (Inr infos, w')"
  shows "sorted (map fi_path infos) \<and>
    (\<forall>info \<in> set infos. path_allowed cfg (fi_path info) \<and>
       one_kind (fi_directory info) (fi_regular info) (fi_symlink info))"
proof -
  let ?good = "\<lambda>infos (_ :: 'a ftp_world). sorted (map fi_path infos) \<and> list_all (listed_ok cfg) infos"
  note finish = listing_finish [OF mlsd_entries_ok]
  have second: "triple (\<lambda>_. True) (bnd (outcome (mlsd env d [])) (\<lambda>second. case second of
        Inr entries \<Rightarrow> bnd (set_ftp f) (\<lambda>_. bnd (lift (mlsd_entries cfg d entries)) (\<lambda>results. ret (sort_key fi_path results)))
      | Inl e2 \<Rightarrow> if mlsd_missing e2 then legacy_list_files env cfg d else throw e2)) ?good (\<lambda>_ _. True)" for d f
    by (rule triple_bnd [OF triple_any]) (auto split: sum.split intro!: finish legacy_listing_ok triple_throw)
  have "triple (\<lambda>_. True) (ftp_list_files env cfg remote_path) ?good (\<lambda>_ _. True)"
    unfolding ftp_list_files_def Let_def
    by (intro triple_bnd [OF triple_any] triple_if)
      (auto split: sum.split exn.split intro!: finish second legacy_listing_ok triple_throw)
  then have "?good infos w'" using assms triple_Inr by fastforce
  then show ?thesis by (simp add: list_all_iff listed_ok_def)
qed

lemma ftp_listing_confined_witness:
  "map fi_path (case fst (ftp_list_files demo_ftp_server (demo_ftp ''ftps'') ''.'' demo_ftp_world) of Inr infos \<Rightarrow> infos | Inl _ \<Rightarrow> [])
     = [''/f''] \<and> path_allowed (demo_ftp ''ftps'') ''/f''"
proof -
  let ?run = "ftp_list_files demo_ftp_server (demo_ftp ''ftps'') ''.'' demo_ftp_world"
  let ?info = "\<lparr>fi_path = ''/f'', fi_size = 3, fi_modified = None, fi_directory = False, fi_regular = True, fi_symlink = False\<rparr>"
  have run: "fst ?run = Inr [?info]" by code_simp
  then have "?run = (Inr [?info], snd ?run)" by (metis prod.collapse)
  from ftp_listing_confined [OF this] run show ?thesis by simp
qed

end
