(* ===== verification/Tokens.thy ===== *)
theory Tokens
  imports Json Effects PyRegex
begin

text \<open>
  The token files that bound the number of SSH sessions to a node across processes: \<open>FileTokenSemaphore\<close> of
  \<open>cli_tool/transport/ssh.py\<close>, as one process runs it on a directory that others change only while it sleeps.
  The protocol as several processes run it, system call by system call, is in \<open>TokenProtocol\<close>.
\<close>

section \<open>The directory\<close>

text \<open>The content of a token file is the JSON value in it; \<open>None\<close> when it cannot be read or parsed, as for the empty
  file between its creation and the write.\<close>

type_synonym token = "pyval option"

datatype token_event = Creates string token | Removes string token | Starts int | Exits int

text \<open>Another process removes a file in which it found \<open>t\<close>. \<open>td_alive\<close> are the processes that \<open>os.kill(pid, 0)\<close> reports, \<open>td_wall\<close> is \<open>time.time()\<close>,
  \<open>td_others\<close> what the other processes do during each sleep to come.\<close>

record token_dir =
  td_files :: "(string, token) dict"
  td_pid :: int
  td_alive :: "int list"
  td_time :: rat
  td_wall :: "rat \<Rightarrow> pyfloat"
  td_others :: "token_event list list"

fun apply_event :: "token_event \<Rightarrow> token_dir \<Rightarrow> token_dir" where
  "apply_event (Creates f t) d = (if dict_get (td_files d) f = None then d\<lparr>td_files := AList.update f t (td_files d)\<rparr> else d)"
| "apply_event (Removes f t) d = (if dict_get (td_files d) f = Some t then d\<lparr>td_files := AList.delete f (td_files d)\<rparr> else d)"
| "apply_event (Starts pid) d = d\<lparr>td_alive := pid # td_alive d\<rparr>"
| "apply_event (Exits pid) d = d\<lparr>td_alive := filter (\<lambda>p. p \<noteq> pid) (td_alive d)\<rparr>"

definition sleep_tick :: "rat \<Rightarrow> (token_dir, unit) act" where
  "sleep_tick seconds d =
     (case td_others d of
        [] \<Rightarrow> (Inr (), d\<lparr>td_time := td_time d + seconds\<rparr>)
      | events # later \<Rightarrow> (Inr (), (fold apply_event events d)\<lparr>td_time := td_time d + seconds, td_others := later\<rparr>))"

section \<open>FileTokenSemaphore\<close>

definition token_char :: "char \<Rightarrow> bool" where
  "token_char c = (c \<in> set ''ABCDEFGHIJKLMNOPQRSTUVWXYZabcdefghijklmnopqrstuvwxyz0123456789_.-'')"

definition safe_token_name :: "string \<Rightarrow> string" where
  "safe_token_name s = rx_sub (rx_plus (One (\<lambda>c. \<not> token_char c))) (\<lambda>_. ''_'') s"

record semaphore =
  sem_name :: string
  sem_max :: int
  sem_timeout :: rat
  sem_timeout_text :: string    \<comment> \<open>\<open>f"{timeout:.0f}"\<close>\<close>

definition semaphore_init :: "string \<Rightarrow> int \<Rightarrow> rat \<Rightarrow> string \<Rightarrow> semaphore result" where
  "semaphore_init name max_tokens timeout timeout_text =
     (if max_tokens < 1 then Inl (ValueError ''max_tokens must be at least 1'')
      else Inr \<lparr>sem_name = safe_token_name name, sem_max = max_tokens, sem_timeout = timeout, sem_timeout_text = timeout_text\<rparr>)"

definition token_file :: "string \<Rightarrow> nat \<Rightarrow> string" where
  "token_file name index = name @ ''.'' @ str_of_nat index @ ''.token''"

text \<open>What \<open>glob(f"{name}.*.token")\<close> matches.\<close>

definition glob_token :: "string \<Rightarrow> string \<Rightarrow> bool" where
  "glob_token name f =
     (starts_with (name @ ''.'') f \<and> starts_with (rev ''.token'') (rev f) \<and> length name + 7 \<le> length f)"

definition token_pid :: "pyval \<Rightarrow> int option" where
  "token_pid v = (case v of PInt n \<Rightarrow> Some n | PBool b \<Rightarrow> Some (if b then 1 else 0) | _ \<Rightarrow> None)"

definition no_get_attribute :: exn where
  "no_get_attribute = AttributeError (''object has no attribute '' @ py_repr ''get'')"

definition is_stale :: "int \<Rightarrow> int list \<Rightarrow> token \<Rightarrow> bool result" where
  "is_stale own alive t =
     (case t of
        None \<Rightarrow> Inr True
      | Some (PDict d) \<Rightarrow>
          (case token_pid (get_str d ''pid'') of
             None \<Rightarrow> Inr False
           | Some pid \<Rightarrow> if pid = own then Inr False else Inr (pid \<notin> set alive))
      | Some _ \<Rightarrow> Inl no_get_attribute)"

definition token_release :: "string option \<Rightarrow> (token_dir, unit) act" where
  "token_release path =
     (case path of
        None \<Rightarrow> ret ()
      | Some f \<Rightarrow> modify (\<lambda>d. d\<lparr>td_files := AList.delete f (td_files d)\<rparr>))"

definition remove_stale_tokens :: "semaphore \<Rightarrow> (token_dir, unit) act" where
  "remove_stale_tokens sem =
     bnd (gets (\<lambda>d. filter (\<lambda>(f, _). glob_token (sem_name sem) f) (td_files d))) (\<lambda>found.
     bnd (for_each found (\<lambda>(f, t).
            bnd (gets (\<lambda>d. is_stale (td_pid d) (td_alive d) t)) (\<lambda>r.
            bnd (lift r) (\<lambda>stale. if stale then token_release (Some f) else ret ())))) (\<lambda>_. ret ()))"

definition token_value :: "string \<Rightarrow> string \<Rightarrow> int \<Rightarrow> pyfloat \<Rightarrow> pyval" where
  "token_value name owner pid created_at =
     obj [(''owner'', PStr owner), (''pid'', PInt pid), (''created_at'', PFloat created_at), (''node'', PStr name)]"

text \<open>The \<open>for\<close> loop over the indexes: the first free file is created and filled.\<close>

fun try_create :: "semaphore \<Rightarrow> string \<Rightarrow> nat list \<Rightarrow> (token_dir, string option) act" where
  "try_create sem owner [] = ret None"
| "try_create sem owner (index # indexes) =
     (let f = token_file (sem_name sem) index
      in bnd (gets (\<lambda>d. dict_get (td_files d) f)) (\<lambda>present.
         if present \<noteq> None then try_create sem owner indexes
         else bnd (modify (\<lambda>d. d\<lparr>td_files := AList.update f
                    (Some (token_value (sem_name sem) owner (td_pid d) (td_wall d (td_time d)))) (td_files d)\<rparr>)) (\<lambda>_.
              ret (Some f))))"

definition acquire_timeout :: "semaphore \<Rightarrow> string \<Rightarrow> exn" where
  "acquire_timeout sem owner =
     TimeoutError (''waiting for '' @ sem_name sem @ '' SSH token timed out after '' @ sem_timeout_text sem @
       ''s (max_tokens='' @ str_of_int (sem_max sem) @ '', owner='' @ owner @ '')'')"

text \<open>One round: the stale tokens go, then the free indexes are tried.\<close>

definition acquire_round :: "semaphore \<Rightarrow> string \<Rightarrow> (token_dir, string option) act" where
  "acquire_round sem owner =
     bnd (remove_stale_tokens sem) (\<lambda>_. try_create sem owner [0..<nat (sem_max sem)])"

lemma acquire_round_time:
  "acquire_round sem owner d = (r, d') \<Longrightarrow> td_time d' = td_time d"
proof -
  assume run: "acquire_round sem owner d = (r, d')"
  have release: "keeps (\<lambda>d. td_time d = t) (token_release p)" for p t
    by (auto simp: keeps_def token_release_def ret_def modify_def split: option.split)
  have create: "keeps (\<lambda>d. td_time d = t) (try_create sem owner indexes)" for indexes t
    by (induction indexes) (auto simp: Let_def intro!: keeps_intros, simp add: keeps_def modify_def)
  have "keeps (\<lambda>d. td_time d = t) (acquire_round sem owner)" for t
    unfolding acquire_round_def remove_stale_tokens_def by (intro keeps_intros release create)
  from keepsD [OF this run] show ?thesis by simp
qed

lemma sleep_tick_time: "td_time (snd (sleep_tick s d)) = td_time d + s"
  by (simp add: sleep_tick_def split: list.split)

text \<open>The sleeps that fit before the deadline.\<close>

definition rounds_left :: "rat \<Rightarrow> rat \<Rightarrow> nat" where
  "rounds_left deadline t = nat \<lceil>(deadline - t) * 5\<rceil>"

lemma rounds_left_tick: "\<not> deadline \<le> t \<Longrightarrow> rounds_left deadline t = Suc (rounds_left deadline (t + 1 / 5))"
proof -
  assume late: "\<not> deadline \<le> t"
  have step: "nat \<lceil>x\<rceil> = Suc (nat \<lceil>x - 1\<rceil>)" if "0 < x" for x :: rat
  proof -
    have "0 < \<lceil>x\<rceil>" using that by simp
    then show ?thesis by (simp only: ceiling_diff_one)
  qed
  have eq: "(deadline - (t + 1 / 5)) * 5 = (deadline - t) * 5 - 1" by (simp add: algebra_simps)
  have "0 < (deadline - t) * 5" using late by simp
  then show ?thesis unfolding rounds_left_def eq by (rule step)
qed

text \<open>The loop of \<open>acquire\<close>; the clock is the measure, since every sleep moves it towards the deadline.\<close>

function acquire_loop :: "semaphore \<Rightarrow> string \<Rightarrow> rat \<Rightarrow> token_dir \<Rightarrow> string result \<times> token_dir" where
  "acquire_loop sem owner deadline d =
     (case acquire_round sem owner d of
        (Inl e, d1) \<Rightarrow> (Inl e, d1)
      | (Inr (Some f), d1) \<Rightarrow> (Inr f, d1)
      | (Inr None, d1) \<Rightarrow>
          if deadline \<le> td_time d1 then (Inl (acquire_timeout sem owner), d1)
          else acquire_loop sem owner deadline (snd (sleep_tick (1 / 5) d1)))"
  by pat_completeness auto

termination
  by (relation "measure (\<lambda>(sem, owner, deadline, d). rounds_left deadline (td_time d))")
    (auto simp: sleep_tick_time rounds_left_tick dest!: acquire_round_time [OF sym])

declare acquire_loop.simps [simp del]

definition token_acquire :: "semaphore \<Rightarrow> string \<Rightarrow> (token_dir, string \<times> rat) act" where
  "token_acquire sem owner =
     bnd (gets td_time) (\<lambda>started.
     bnd (acquire_loop sem owner (started + sem_timeout sem)) (\<lambda>f.
     bnd (gets td_time) (\<lambda>ended. ret (f, ended - started))))"

section \<open>Lemmas: the class in one process\<close>

lemma try_create_Some:
  "try_create sem owner indexes d = (Inr (Some f), d') \<Longrightarrow>
   \<exists>i \<in> set indexes. f = token_file (sem_name sem) i \<and> dict_get (td_files d) f = None \<and>
     d' = d\<lparr>td_files := AList.update f (Some (token_value (sem_name sem) owner (td_pid d) (td_wall d (td_time d)))) (td_files d)\<rparr>"
  by (induction indexes) (auto simp: Let_def bnd_eq_Inr gets_run ret_run modify_run split: if_splits)

lemma try_create_None:
  "try_create sem owner indexes d = (Inr None, d') \<Longrightarrow>
   d' = d \<and> (\<forall>i \<in> set indexes. dict_get (td_files d) (token_file (sem_name sem) i) \<noteq> None)"
  by (induction indexes) (auto simp: Let_def bnd_eq_Inr gets_run ret_run modify_run split: if_splits)

lemma try_create_total: "\<exists>o' d'. try_create sem owner indexes d = (Inr o', d')"
  by (induction indexes) (auto simp: Let_def act_simps)

lemma is_stale_error: "is_stale own alive t = Inl e \<Longrightarrow> e = no_get_attribute"
  by (auto simp: is_stale_def split: option.splits pyval.splits if_splits)

lemma remove_stale_error: "remove_stale_tokens sem d = (Inl e, d') \<Longrightarrow> e = no_get_attribute"
proof -
  have "triple (\<lambda>_. True) (remove_stale_tokens sem) (\<lambda>_ _. True) (\<lambda>e _. e = no_get_attribute)"
    unfolding remove_stale_tokens_def
    by (rule triple_bnd [OF triple_gets [where Q = "\<lambda>_ _. True"]], simp, rule triple_bnd [where R = "\<lambda>_ _. True"],
        rule triple_for_each, clarify,
        rule triple_bnd [OF triple_gets [where Q = "\<lambda>r d. r = is_stale (td_pid d) (td_alive d) _"]])
      (auto intro!: triple_bnd [OF triple_lift [where Q = "\<lambda>_ _. True"]] triple_if triple_ret
         simp: token_release_def triple_modify dest: is_stale_error)
  moreover assume "remove_stale_tokens sem d = (Inl e, d')"
  ultimately show ?thesis using triple_Inl by fastforce
qed

lemma acquire_round_error: "acquire_round sem owner d = (Inl e, d') \<Longrightarrow> e = no_get_attribute"
proof -
  assume run: "acquire_round sem owner d = (Inl e, d')"
  obtain r1 d1 where stale: "remove_stale_tokens sem d = (r1, d1)" by (cases "remove_stale_tokens sem d")
  show ?thesis
  proof (cases r1)
    case (Inl e1)
    then show ?thesis using run stale remove_stale_error by (simp add: acquire_round_def bnd_def)
  next
    case (Inr u)
    obtain x d2 where "try_create sem owner [0..<nat (sem_max sem)] d1 = (Inr x, d2)" using try_create_total by blast
    then show ?thesis using run stale Inr by (simp add: acquire_round_def bnd_def)
  qed
qed

text \<open>The index files all exist, or one of them is now ours.\<close>

lemma acquire_round_Inr:
  assumes "acquire_round sem owner d = (Inr o', d')"
  shows "case o' of
      Some f \<Rightarrow> (\<exists>i < nat (sem_max sem). f = token_file (sem_name sem) i) \<and>
        dict_get (td_files d') f = Some (Some (token_value (sem_name sem) owner (td_pid d') (td_wall d' (td_time d'))))
    | None \<Rightarrow> \<forall>i < nat (sem_max sem). dict_get (td_files d') (token_file (sem_name sem) i) \<noteq> None"
proof -
  obtain d1 where run: "try_create sem owner [0..<nat (sem_max sem)] d1 = (Inr o', d')"
    using assms by (auto simp: acquire_round_def bnd_eq_Inr)
  show ?thesis
  proof (cases o')
    case None
    from try_create_None [OF run [unfolded None]] show ?thesis by (simp add: None)
  next
    case (Some f)
    from try_create_Some [OF run [unfolded Some]] show ?thesis by (auto simp: Some dict_get_def update_conv)
  qed
qed

text \<open>How long the loop takes and what it leaves.\<close>

lemma acquire_loop_outcome:
  assumes "acquire_loop sem owner deadline d = (r, d')"
  shows "td_time d \<le> td_time d' \<and> (td_time d' = td_time d \<or> td_time d' < deadline + 1 / 5) \<and>
    (case r of
       Inr f \<Rightarrow> (\<exists>i < nat (sem_max sem). f = token_file (sem_name sem) i) \<and>
         dict_get (td_files d') f = Some (Some (token_value (sem_name sem) owner (td_pid d') (td_wall d' (td_time d'))))
     | Inl e \<Rightarrow> e = no_get_attribute \<or>
         e = acquire_timeout sem owner \<and> deadline \<le> td_time d' \<and>
         (\<forall>i < nat (sem_max sem). dict_get (td_files d') (token_file (sem_name sem) i) \<noteq> None))"
  using assms
proof (induction sem owner deadline d rule: acquire_loop.induct)
  case (1 sem owner deadline d)
  obtain r1 d1 where round: "acquire_round sem owner d = (r1, d1)" by (cases "acquire_round sem owner d")
  note time = acquire_round_time [OF round]
  show ?case
  proof (cases r1)
    case (Inl e)
    then show ?thesis using round time "1.prems" acquire_round_error by (fastforce simp: acquire_loop.simps [of sem owner deadline d])
  next
    case (Inr o')
    note facts = acquire_round_Inr [OF round [unfolded Inr]]
    show ?thesis
    proof (cases "o' = None \<and> \<not> deadline \<le> td_time d1")
      case True
      then have again: "acquire_loop sem owner deadline (snd (sleep_tick (1 / 5) d1)) = (r, d')"
        using round Inr "1.prems" by (simp add: acquire_loop.simps [of sem owner deadline d])
      from "1.IH" [OF round [symmetric] _ _ _ again] Inr True
      show ?thesis using time by (auto simp: sleep_tick_time)
    next
      case False
      then show ?thesis using round Inr "1.prems" facts time
        by (cases o') (auto simp: acquire_loop.simps [of sem owner deadline d])
    qed
  qed
qed

text \<open>The token \<open>t\<close> in \<open>f\<close>, seen by a process that finds it in use.\<close>

definition live_token :: "string \<Rightarrow> token \<Rightarrow> token_dir \<Rightarrow> bool" where
  "live_token f t d =
     (dict_ok (td_files d) \<and> dict_get (td_files d) f = Some t \<and> is_stale (td_pid d) (td_alive d) t = Inr False)"

lemma keeps_live_release: "f' \<noteq> f \<Longrightarrow> keeps (live_token f t) (token_release (Some f'))"
  by (auto simp: keeps_def token_release_def modify_def live_token_def dict_ok_def dict_get_def distinct_delete
      map_of_delete)

lemma keeps_live_sweep: "keeps (live_token f t) (remove_stale_tokens sem)"
proof -
  have "live_token f t (snd (remove_stale_tokens sem d))" if "live_token f t d" for d
  proof -
    let ?found = "filter (\<lambda>(f, _). glob_token (sem_name sem) f) (td_files d)"
    let ?I = "\<lambda>d'. live_token f t d' \<and> td_pid d' = td_pid d \<and> td_alive d' = td_alive d"
    have entry: "t' = t" if "(f, t') \<in> set ?found" for t'
      using that \<open>live_token f t d\<close> by (auto simp: live_token_def dict_ok_def dict_get_def)
    have step: "keeps ?I (bnd (gets (\<lambda>d. is_stale (td_pid d) (td_alive d) t')) (\<lambda>r.
        bnd (lift r) (\<lambda>stale. if stale then token_release (Some f') else ret ())))" if "(f', t') \<in> set ?found" for f' t'
    proof (cases "f' = f")
      case True
      then have "t' = t" using entry that by simp
      then show ?thesis
        by (auto simp: keeps_def bnd_def gets_def lift_def ret_def live_token_def split: sum.split)
    next
      case False
      have "keeps ?I (token_release (Some f'))"
        using keeps_live_release [OF False] by (auto simp: keeps_def token_release_def modify_def)
      then show ?thesis by (intro keeps_intros)
    qed
    have "keeps ?I (for_each ?found (\<lambda>(f, t).
        bnd (gets (\<lambda>d. is_stale (td_pid d) (td_alive d) t)) (\<lambda>r.
        bnd (lift r) (\<lambda>stale. if stale then token_release (Some f) else ret ()))))"
      by (rule keeps_for_each_mem) (use step in \<open>force\<close>)
    from keeps_bnd [OF this keeps_ret] have "keeps ?I (bnd (for_each ?found (\<lambda>(f, t).
        bnd (gets (\<lambda>d. is_stale (td_pid d) (td_alive d) t)) (\<lambda>r.
        bnd (lift r) (\<lambda>stale. if stale then token_release (Some f) else ret ())))) (\<lambda>_. ret ()))" .
    then show ?thesis using that by (simp add: remove_stale_tokens_def bnd_def [of "gets _"] gets_def keeps_def)
  qed
  then show ?thesis by (simp add: keeps_def)
qed

lemma keeps_live_create: "keeps (live_token f t) (try_create sem owner indexes)"
proof (induction indexes)
  case (Cons i indexes)
  have "live_token f t (d\<lparr>td_files := AList.update f' v (td_files d)\<rparr>)"
    if "live_token f t d" "dict_get (td_files d) f' = None" for f' v d
    using that by (cases "f' = f") (simp_all add: live_token_def dict_ok_def dict_get_def distinct_update update_conv)
  then show ?case using Cons by (simp add: keeps_def Let_def bnd_def gets_def modify_def ret_def)
qed (simp add: keeps_ret)

text \<open>No round removes a token in use.\<close>

lemma keeps_live_round: "keeps (live_token f t) (acquire_round sem owner)"
  unfolding acquire_round_def by (intro keeps_intros keeps_live_sweep keeps_live_create)

section \<open>Lemmas: what a process holds\<close>

definition names_pid :: "int \<Rightarrow> token \<Rightarrow> bool" where
  "names_pid pid t = (case t of Some (PDict kvs) \<Rightarrow> token_pid (get_str kvs ''pid'') = Some pid | _ \<Rightarrow> False)"

text \<open>The other processes leave alone the files in which they find this process named, and make no such file.\<close>

fun polite_event :: "int \<Rightarrow> token_event \<Rightarrow> bool" where
  "polite_event pid (Removes f t) = (\<not> names_pid pid t)"
| "polite_event pid (Creates f t) = (\<not> names_pid pid t)"
| "polite_event pid e = True"

definition polite :: "token_dir \<Rightarrow> bool" where
  "polite d = list_all (list_all (polite_event (td_pid d))) (td_others d)"

text \<open>The files that name the process \<open>pid\<close> are exactly \<open>F\<close>.\<close>

definition owns :: "int \<Rightarrow> string set \<Rightarrow> token_dir \<Rightarrow> bool" where
  "owns pid F d =
     (dict_ok (td_files d) \<and> polite d \<and> td_pid d = pid \<and>
      (\<forall>f. f \<in> F \<longleftrightarrow> (\<exists>t. dict_get (td_files d) f = Some t \<and> names_pid pid t)))"

lemma names_pid_live: "names_pid (td_pid d) t \<Longrightarrow> is_stale (td_pid d) (td_alive d) t = Inr False"
  by (auto simp: names_pid_def is_stale_def split: option.splits pyval.splits)

lemma names_token_value: "names_pid pid (Some (token_value name owner pid now))"
  by (simp add: names_pid_def token_value_def obj_def get_str_def token_pid_def)

lemma owns_files:
  assumes "owns pid F d" and "dict_ok (td_files d')" and "td_others d' = td_others d" and "td_pid d' = td_pid d"
    and "\<And>f. f \<in> F' \<longleftrightarrow> (\<exists>t. dict_get (td_files d') f = Some t \<and> names_pid pid t)"
  shows "owns pid F' d'"
  using assms by (auto simp: owns_def polite_def)

text \<open>A sweep only removes.\<close>

definition swept_from :: "token_dir \<Rightarrow> token_dir \<Rightarrow> bool" where
  "swept_from d d' =
     (dict_ok (td_files d') \<and> td_others d' = td_others d \<and> td_pid d' = td_pid d \<and>
      (\<forall>f t. dict_get (td_files d') f = Some t \<longrightarrow> dict_get (td_files d) f = Some t))"

lemma keeps_swept: "keeps (swept_from d) (remove_stale_tokens sem)"
proof -
  have "keeps (swept_from d) (token_release p)" for p
    by (auto simp: keeps_def token_release_def ret_def modify_def swept_from_def dict_ok_delete dict_get_delete split: option.split)
  then show ?thesis unfolding remove_stale_tokens_def by (intro keeps_intros)
qed

lemma owns_sweep:
  assumes "owns pid F d" and "remove_stale_tokens sem d = (r, d')"
  shows "owns pid F d'"
proof -
  have swept: "swept_from d d'"
    using assms(1) by (intro keepsD [OF keeps_swept assms(2)]) (simp add: swept_from_def owns_def)
  have stays: "dict_get (td_files d') f = Some t" if "dict_get (td_files d) f = Some t" "names_pid pid t" for f t
  proof -
    have "live_token f t d" using assms(1) that names_pid_live [of d t] by (simp add: live_token_def owns_def)
    from keepsD [OF keeps_live_sweep assms(2) this] show ?thesis by (simp add: live_token_def)
  qed
  show ?thesis
  proof (rule owns_files [OF assms(1)])
    fix f
    have "f \<in> F \<longleftrightarrow> (\<exists>t. dict_get (td_files d) f = Some t \<and> names_pid pid t)" using assms(1) by (simp add: owns_def)
    moreover have "dict_get (td_files d') f = Some t \<Longrightarrow> dict_get (td_files d) f = Some t" for t
      using swept by (simp add: swept_from_def)
    ultimately show "f \<in> F \<longleftrightarrow> (\<exists>t. dict_get (td_files d') f = Some t \<and> names_pid pid t)"
      using stays by meson
  qed (use swept in \<open>simp_all add: swept_from_def\<close>)
qed

lemma owns_round:
  assumes "owns pid F d" and "acquire_round sem owner d = (r, d')" and "\<forall>f. r \<noteq> Inr (Some f)"
  shows "owns pid F d'"
proof -
  obtain r1 d1 where sweep: "remove_stale_tokens sem d = (r1, d1)" by (cases "remove_stale_tokens sem d")
  have "d' = d1"
  proof (cases r1)
    case (Inl e)
    then show ?thesis using assms(2) sweep by (simp add: acquire_round_def bnd_def)
  next
    case (Inr u)
    obtain o' d2 where create: "try_create sem owner [0..<nat (sem_max sem)] d1 = (Inr o', d2)" using try_create_total by blast
    then have "o' = None \<and> d' = d2" using assms(2,3) sweep Inr by (cases o') (auto simp: acquire_round_def bnd_def)
    then show ?thesis using try_create_None create by blast
  qed
  with owns_sweep [OF assms(1) sweep] show ?thesis by simp
qed

text \<open>A file that a round creates was not there, so it is none of those already held.\<close>

lemma owns_created:
  assumes "owns pid F d" and "acquire_round sem owner d = (Inr (Some f), d')"
  shows "f \<notin> F \<and> owns pid (insert f F) d'"
proof -
  obtain d1 where sweep: "remove_stale_tokens sem d = (Inr (), d1)"
    and create: "try_create sem owner [0..<nat (sem_max sem)] d1 = (Inr (Some f), d')"
    using assms(2) by (auto simp: acquire_round_def bnd_eq_Inr)
  note own = owns_sweep [OF assms(1) sweep]
  from try_create_Some [OF create] have new: "dict_get (td_files d1) f = None"
    and d': "d' = d1\<lparr>td_files := AList.update f (Some (token_value (sem_name sem) owner (td_pid d1) (td_wall d1 (td_time d1)))) (td_files d1)\<rparr>"
    by blast+
  have "f \<notin> F" using own new by (simp add: owns_def)
  moreover have "owns pid (insert f F) d'"
    by (rule owns_files [OF own]) (use own in \<open>auto simp: d' dict_ok_update dict_get_update owns_def names_token_value\<close>)
  ultimately show ?thesis by simp
qed

lemma owns_event:
  assumes "owns pid F d" and "polite_event pid e"
  shows "owns pid F (apply_event e d)"
  using assms
  by (cases e) (auto simp: owns_def polite_def dict_ok_update dict_ok_delete dict_get_update dict_get_delete split: if_splits)

lemma owns_events:
  "owns pid F d \<Longrightarrow> list_all (polite_event pid) events \<Longrightarrow>
   owns pid F (fold apply_event events d)"
  by (induction events arbitrary: d) (auto intro: owns_event)

lemma owns_tick:
  assumes "owns pid F d"
  shows "owns pid F (snd (sleep_tick s d))"
proof (cases "td_others d")
  case Nil
  then show ?thesis using assms by (simp add: sleep_tick_def owns_def polite_def)
next
  case (Cons events later)
  have "owns pid F (fold apply_event events d)"
    using assms Cons by (intro owns_events) (auto simp: owns_def polite_def)
  then show ?thesis using assms Cons by (auto simp: sleep_tick_def owns_def polite_def)
qed

lemma owns_loop:
  assumes "owns pid F d" and "acquire_loop sem owner deadline d = (r, d')"
  shows "case r of Inr f \<Rightarrow> f \<notin> F \<and> owns pid (insert f F) d' | Inl e \<Rightarrow> owns pid F d'"
  using assms
proof (induction sem owner deadline d rule: acquire_loop.induct)
  case (1 sem owner deadline d)
  obtain r1 d1 where round: "acquire_round sem owner d = (r1, d1)" by (cases "acquire_round sem owner d")
  note here = owns_round [OF "1.prems"(1) round]
  show ?case
  proof (cases r1)
    case (Inl e)
    then show ?thesis using round "1.prems"(2) here by (auto simp: acquire_loop.simps [of sem owner deadline d])
  next
    case (Inr o')
    show ?thesis
    proof (cases o')
      case (Some f)
      then show ?thesis using round Inr "1.prems"(2) owns_created [OF "1.prems"(1) round [unfolded Inr Some]]
        by (auto simp: acquire_loop.simps [of sem owner deadline d])
    next
      case None
      show ?thesis
      proof (cases "deadline \<le> td_time d1")
        case True
        then show ?thesis using round Inr None "1.prems"(2) here by (auto simp add: acquire_loop.simps [of sem owner deadline d])
      next
        case False
        then have again: "acquire_loop sem owner deadline (snd (sleep_tick (1 / 5) d1)) = (r, d')"
          using round Inr None "1.prems"(2) by (simp add: acquire_loop.simps [of sem owner deadline d])
        show ?thesis
          using "1.IH" [OF round [symmetric] _ _ False owns_tick [OF here] again] Inr None by simp
      qed
    qed
  qed
qed

lemma owns_acquire:
  assumes "owns pid F d" and "token_acquire sem owner d = (r, d')"
  shows "case r of
      Inr (f, _) \<Rightarrow> f \<notin> F \<and> owns pid (insert f F) d' \<and> (\<exists>i < nat (sem_max sem). f = token_file (sem_name sem) i)
    | Inl e \<Rightarrow> owns pid F d'"
proof -
  obtain r1 d1 where loop: "acquire_loop sem owner (td_time d + sem_timeout sem) d = (r1, d1)"
    by (cases "acquire_loop sem owner (td_time d + sem_timeout sem) d")
  have same: "d' = d1 \<and> r = (case r1 of Inl e \<Rightarrow> Inl e | Inr f \<Rightarrow> Inr (f, td_time d1 - td_time d))"
    using assms(2) loop by (auto simp: token_acquire_def bnd_def gets_def ret_def split: sum.splits)
  from owns_loop [OF assms(1) loop] acquire_loop_outcome [OF loop] same show ?thesis
    by (auto split: sum.splits)
qed

lemma owns_release:
  assumes "owns pid F d" and "token_release (Some f) d = (r, d')"
  shows "r = Inr () \<and> owns pid (F - {f}) d'"
proof -
  have d': "r = Inr ()" "d' = d\<lparr>td_files := AList.delete f (td_files d)\<rparr>"
    using assms(2) by (simp_all add: token_release_def modify_def)
  have "owns pid (F - {f}) d'"
    by (rule owns_files [OF assms(1)]) (use assms(1) in \<open>auto simp: d' owns_def dict_ok_delete dict_get_delete\<close>)
  with d' show ?thesis by simp
qed

section \<open>Properties of the class\<close>


definition demo_tokens :: token_dir where
  "demo_tokens =
     \<lparr>td_files = [(''n.0.token'', Some (token_value ''n'' ''other'' 7 (Fin 0))), (''n.1.token'', None)],
      td_pid = 5, td_alive = [5, 7], td_time = 0, td_wall = Fin, td_others = [[Exits 7]]\<rparr>"

definition demo_semaphore :: "int \<Rightarrow> semaphore" where
  "demo_semaphore n = \<lparr>sem_name = ''n'', sem_max = n, sem_timeout = 1, sem_timeout_text = ''1''\<rparr>"


end
