(* ===== verification/TokenProtocol.thy ===== *)
theory TokenProtocol
  imports Tokens
begin

text \<open>
  \<open>FileTokenSemaphore\<close> as several processes run it on one directory (\<open>cli_tool/transport/ssh.py\<close>,
  \<open>acquire\<close>, \<open>release\<close>, \<open>_remove_stale_tokens\<close>): one step is one system call. Creating a file and writing its
  content are two steps, and so are judging a token stale and unlinking its name. When those pairs are not
  interrupted the protocol refines a table of leases; when they are, two processes can hold one token.
\<close>

section \<open>Steps\<close>

datatype phase = Resting | Created nat | Holding nat | Judged nat

text \<open>A name of the directory with the process that created the file and the content.\<close>

record protocol =
  pr_file :: "nat \<Rightarrow> (int \<times> token) option"
  pr_phase :: "int \<Rightarrow> phase"
  pr_alive :: "int list"

datatype action = Create int nat | Write int | Release int | Judge int nat | Reap int | Start int | Die int

definition set_phase :: "int \<Rightarrow> phase \<Rightarrow> protocol \<Rightarrow> protocol" where
  "set_phase p ph s = s\<lparr>pr_phase := (pr_phase s)(p := ph)\<rparr>"

definition set_file :: "nat \<Rightarrow> (int \<times> token) option \<Rightarrow> protocol \<Rightarrow> protocol" where
  "set_file i f s = s\<lparr>pr_file := (pr_file s)(i := f)\<rparr>"

text \<open>
  \<open>m\<close> is \<open>max_tokens\<close>. The write goes to the created file, wherever its name has gone; unlinking goes by name.
\<close>

inductive token_step :: "nat \<Rightarrow> string \<Rightarrow> action \<Rightarrow> protocol \<Rightarrow> protocol \<Rightarrow> bool" for m name where
  do_create: "pr_phase s p = Resting \<Longrightarrow> p \<in> set (pr_alive s) \<Longrightarrow> i < m \<Longrightarrow> pr_file s i = None \<Longrightarrow>
    token_step m name (Create p i) s (set_phase p (Created i) (set_file i (Some (p, None)) s))"
| do_write: "pr_phase s p = Created i \<Longrightarrow> p \<in> set (pr_alive s) \<Longrightarrow>
    token_step m name (Write p) s
      (set_phase p (Holding i)
        (if \<exists>t. pr_file s i = Some (p, t) then set_file i (Some (p, Some (token_value name owner p now))) s else s))"
| do_release: "pr_phase s p = Holding i \<Longrightarrow> p \<in> set (pr_alive s) \<Longrightarrow>
    token_step m name (Release p) s (set_phase p Resting (set_file i None s))"
| do_judge: "pr_phase s p = Resting \<Longrightarrow> p \<in> set (pr_alive s) \<Longrightarrow> pr_file s i = Some (q, t) \<Longrightarrow>
    is_stale p (pr_alive s) t = Inr True \<Longrightarrow> token_step m name (Judge p i) s (set_phase p (Judged i) s)"
| do_reap: "pr_phase s p = Judged i \<Longrightarrow> p \<in> set (pr_alive s) \<Longrightarrow>
    token_step m name (Reap p) s (set_phase p Resting (set_file i None s))"
| do_start: "p \<notin> set (pr_alive s) \<Longrightarrow>
    token_step m name (Start p) s (set_phase p Resting (s\<lparr>pr_alive := p # pr_alive s\<rparr>))"
| do_die: "p \<in> set (pr_alive s) \<Longrightarrow>
    token_step m name (Die p) s (set_phase p Resting (s\<lparr>pr_alive := filter (\<lambda>q. q \<noteq> p) (pr_alive s)\<rparr>))"

inductive_cases create_cases: "token_step m name (Create p i) s s'"
inductive_cases write_cases: "token_step m name (Write p) s s'"
inductive_cases release_cases: "token_step m name (Release p) s s'"
inductive_cases judge_cases: "token_step m name (Judge p i) s s'"
inductive_cases reap_cases: "token_step m name (Reap p) s s'"
inductive_cases start_cases: "token_step m name (Start p) s s'"
inductive_cases die_cases: "token_step m name (Die p) s s'"

lemmas step_cases = create_cases write_cases release_cases judge_cases reap_cases start_cases die_cases

definition token_start :: protocol where
  "token_start = \<lparr>pr_file = (\<lambda>_. None), pr_phase = (\<lambda>_. Resting), pr_alive = []\<rparr>"

inductive interleaved :: "nat \<Rightarrow> string \<Rightarrow> protocol \<Rightarrow> bool" for m name where
  begins: "interleaved m name token_start"
| step: "interleaved m name s \<Longrightarrow> token_step m name a s s' \<Longrightarrow> interleaved m name s'"

text \<open>Runs in which creating and writing, and judging and unlinking, are not interrupted.\<close>

inductive serial_step :: "nat \<Rightarrow> string \<Rightarrow> protocol \<Rightarrow> protocol \<Rightarrow> bool" for m name where
  acquires: "token_step m name (Create p i) s s1 \<Longrightarrow> token_step m name (Write p) s1 s2 \<Longrightarrow> serial_step m name s s2"
| releases: "token_step m name (Release p) s s1 \<Longrightarrow> serial_step m name s s1"
| sweeps: "token_step m name (Judge p i) s s1 \<Longrightarrow> token_step m name (Reap p) s1 s2 \<Longrightarrow> serial_step m name s s2"
| starts: "token_step m name (Start p) s s1 \<Longrightarrow> serial_step m name s s1"
| dies: "token_step m name (Die p) s s1 \<Longrightarrow> serial_step m name s s1"

inductive serial :: "nat \<Rightarrow> string \<Rightarrow> protocol \<Rightarrow> bool" for m name where
  begins: "serial m name token_start"
| step: "serial m name s \<Longrightarrow> serial_step m name s s' \<Longrightarrow> serial m name s'"

section \<open>The table of leases\<close>

record leases =
  ls_owner :: "nat \<Rightarrow> int option"
  ls_alive :: "int set"

text \<open>Who may have a slot: it is taken when free, returned by its owner, and expires when the owner is gone.\<close>

inductive lease_step :: "nat \<Rightarrow> leases \<Rightarrow> leases \<Rightarrow> bool" for m where
  take_slot: "i < m \<Longrightarrow> ls_owner l i = None \<Longrightarrow> p \<in> ls_alive l \<Longrightarrow>
    lease_step m l (l\<lparr>ls_owner := (ls_owner l)(i \<mapsto> p)\<rparr>)"
| return_slot: "ls_owner l i = Some p \<Longrightarrow> p \<in> ls_alive l \<Longrightarrow> lease_step m l (l\<lparr>ls_owner := (ls_owner l)(i := None)\<rparr>)"
| expire: "ls_owner l i = Some p \<Longrightarrow> p \<notin> ls_alive l \<Longrightarrow> lease_step m l (l\<lparr>ls_owner := (ls_owner l)(i := None)\<rparr>)"
| join: "lease_step m l (l\<lparr>ls_alive := insert p (ls_alive l)\<rparr>)"
| leave: "lease_step m l (l\<lparr>ls_alive := ls_alive l - {p}\<rparr>)"

definition leases_of :: "protocol \<Rightarrow> leases" where
  "leases_of s = \<lparr>ls_owner = (\<lambda>i. map_option fst (pr_file s i)), ls_alive = set (pr_alive s)\<rparr>"

text \<open>What serial runs maintain: nothing is half done, every file names its creator, and a holder has its file.\<close>

definition settled :: "nat \<Rightarrow> string \<Rightarrow> protocol \<Rightarrow> bool" where
  "settled m name s =
     ((\<forall>p. case pr_phase s p of
         Resting \<Rightarrow> True
       | Holding i \<Rightarrow> i < m \<and> p \<in> set (pr_alive s) \<and> (\<exists>t. pr_file s i = Some (p, t))
       | _ \<Rightarrow> False) \<and>
      (\<forall>i p t. pr_file s i = Some (p, t) \<longrightarrow> i < m \<and> (\<exists>owner now. t = Some (token_value name owner p now))))"

lemma stale_token_value: "is_stale own alive (Some (token_value name owner p now)) = Inr (p \<noteq> own \<and> p \<notin> set alive)"
  by (simp add: is_stale_def token_value_def obj_def get_str_def token_pid_def)

lemma settled_start: "settled m name token_start"
  by (simp add: settled_def token_start_def)

lemma settled_phase:
  assumes "settled m name s"
  shows "pr_phase s p = Resting \<or> (\<exists>i t. pr_phase s p = Holding i \<and> i < m \<and> p \<in> set (pr_alive s) \<and> pr_file s i = Some (p, t))"
proof -
  have "case pr_phase s p of Resting \<Rightarrow> True
      | Holding i \<Rightarrow> i < m \<and> p \<in> set (pr_alive s) \<and> (\<exists>t. pr_file s i = Some (p, t)) | _ \<Rightarrow> False"
    using assms by (simp add: settled_def)
  then show ?thesis by (cases "pr_phase s p") auto
qed

lemma settled_file:
  "settled m name s \<Longrightarrow> pr_file s i = Some (p, t) \<Longrightarrow> i < m \<and> (\<exists>owner now. t = Some (token_value name owner p now))"
  by (simp add: settled_def)

text \<open>One process moves to a fitting phase, the others keep what they hold, and files are well formed.\<close>

lemma settled_change:
  assumes "settled m name s" and "\<And>q. q \<noteq> p \<Longrightarrow> pr_phase s' q = pr_phase s q"
    and "pr_phase s' p = Resting \<or> (\<exists>i t. pr_phase s' p = Holding i \<and> i < m \<and> p \<in> set (pr_alive s') \<and> pr_file s' i = Some (p, t))"
    and "\<And>q i t. q \<noteq> p \<Longrightarrow> q \<in> set (pr_alive s) \<Longrightarrow> pr_file s i = Some (q, t) \<Longrightarrow>
      q \<in> set (pr_alive s') \<and> pr_file s' i = Some (q, t)"
    and "\<And>i q t. pr_file s' i = Some (q, t) \<Longrightarrow>
      pr_file s i = Some (q, t) \<or> (i < m \<and> (\<exists>owner now. t = Some (token_value name owner q now)))"
  shows "settled m name s'"
proof -
  have "case pr_phase s' q of Resting \<Rightarrow> True
      | Holding i \<Rightarrow> i < m \<and> q \<in> set (pr_alive s') \<and> (\<exists>t. pr_file s' i = Some (q, t)) | _ \<Rightarrow> False" for q
  proof (cases "q = p")
    case True
    then show ?thesis using assms(3) by auto
  next
    case False
    then show ?thesis using settled_phase [OF assms(1), of q] assms(2) [OF False] assms(4) [OF False] by fastforce
  qed
  moreover have "i < m \<and> (\<exists>owner now. t = Some (token_value name owner q now))" if "pr_file s' i = Some (q, t)" for i q t
    using assms(5) [OF that] settled_file [OF assms(1)] by blast
  ultimately show ?thesis by (simp add: settled_def)
qed

lemmas set_simps = set_phase_def set_file_def leases_of_def

lemma serial_simulation:
  assumes "settled m name s" and "serial_step m name s s'"
  shows "settled m name s' \<and> lease_step m (leases_of s) (leases_of s')"
  using assms(2)
proof cases
  case (acquires p i s1)
  from acquires(1) have c: "pr_phase s p = Resting" "p \<in> set (pr_alive s)" "i < m" "pr_file s i = None"
    and s1: "s1 = set_phase p (Created i) (set_file i (Some (p, None)) s)"
    by (auto elim: create_cases)
  from acquires(2) s1 obtain owner now where
    s': "s' = set_phase p (Holding i) (set_file i (Some (p, Some (token_value name owner p now))) s)"
    by (auto elim!: write_cases simp: set_phase_def set_file_def)
  have "settled m name s'"
    by (rule settled_change [OF assms(1), where p = p]) (use c s' in \<open>auto simp: set_phase_def set_file_def split: if_splits\<close>)
  moreover have "leases_of s' = (leases_of s)\<lparr>ls_owner := (ls_owner (leases_of s))(i \<mapsto> p)\<rparr>"
    by (simp add: s' set_simps fun_eq_iff)
  ultimately show ?thesis using take_slot [of i m "leases_of s" p] c by (simp add: leases_of_def)
next
  case (releases p)
  then obtain i where r: "pr_phase s p = Holding i" "p \<in> set (pr_alive s)" and s': "s' = set_phase p Resting (set_file i None s)"
    by (auto elim: release_cases)
  then obtain t where has: "pr_file s i = Some (p, t)" using settled_phase [OF assms(1), of p] by auto
  have "settled m name s'"
    by (rule settled_change [OF assms(1), where p = p]) (use has s' in \<open>auto simp: set_phase_def set_file_def split: if_splits\<close>)
  moreover have "leases_of s' = (leases_of s)\<lparr>ls_owner := (ls_owner (leases_of s))(i := None)\<rparr>"
    by (simp add: s' set_simps fun_eq_iff)
  ultimately show ?thesis using return_slot [of "leases_of s" i p m] r has by (simp add: leases_of_def)
next
  case (sweeps p i s1)
  then obtain q t where j: "pr_phase s p = Resting" "pr_file s i = Some (q, t)" "is_stale p (pr_alive s) t = Inr True"
    and s1: "s1 = set_phase p (Judged i) s"
    by (auto elim: judge_cases)
  have s': "s' = set_phase p Resting (set_file i None s)"
    using sweeps(2) s1 j(1) by (auto elim!: reap_cases simp: set_phase_def set_file_def fun_eq_iff)
  have gone: "q \<notin> set (pr_alive s)"
    using settled_file [OF assms(1) j(2)] j(3) by (auto simp: stale_token_value)
  have "settled m name s'"
    by (rule settled_change [OF assms(1), where p = p]) (use j gone s' in \<open>auto simp: set_phase_def set_file_def split: if_splits\<close>)
  moreover have "leases_of s' = (leases_of s)\<lparr>ls_owner := (ls_owner (leases_of s))(i := None)\<rparr>"
    by (simp add: s' set_simps fun_eq_iff)
  ultimately show ?thesis using expire [of "leases_of s" i q m] j gone by (simp add: leases_of_def)
next
  case (starts p)
  then have c: "p \<notin> set (pr_alive s)" and s': "s' = set_phase p Resting (s\<lparr>pr_alive := p # pr_alive s\<rparr>)"
    by (auto elim: start_cases)
  have "settled m name s'"
    by (rule settled_change [OF assms(1), where p = p]) (use s' in \<open>auto simp: set_phase_def set_file_def split: if_splits\<close>)
  moreover have "leases_of s' = (leases_of s)\<lparr>ls_alive := insert p (ls_alive (leases_of s))\<rparr>" by (simp add: s' set_simps)
  ultimately show ?thesis using join by metis
next
  case (dies p)
  then have s': "s' = set_phase p Resting (s\<lparr>pr_alive := filter (\<lambda>q. q \<noteq> p) (pr_alive s)\<rparr>)" by (auto elim: die_cases)
  have "settled m name s'"
    by (rule settled_change [OF assms(1), where p = p]) (use s' in \<open>auto simp: set_phase_def set_file_def split: if_splits\<close>)
  moreover have "leases_of s' = (leases_of s)\<lparr>ls_alive := ls_alive (leases_of s) - {p}\<rparr>" by (auto simp: s' set_simps)
  ultimately show ?thesis using leave by metis
qed

lemma serial_settled: "serial m name s \<Longrightarrow> settled m name s"
  by (induction rule: serial.induct) (use settled_start serial_simulation in \<open>blast+\<close>)

inductive lease_reachable :: "nat \<Rightarrow> leases \<Rightarrow> bool" for m where
  nobody: "lease_reachable m \<lparr>ls_owner = (\<lambda>_. None), ls_alive = {}\<rparr>"
| moved: "lease_reachable m l \<Longrightarrow> lease_step m l l' \<Longrightarrow> lease_reachable m l'"

section \<open>Properties\<close>



text \<open>With an interruption between creation and write, a second process takes the empty file for a stale one, removes
  it and takes the slot, and both hold the single token.\<close>

lemma token_held_twice:
  "\<exists>s. interleaved 1 name s \<and> pr_phase s 1 = Holding 0 \<and> pr_phase s 2 = Holding 0"
proof -
  let ?s1 = "set_phase 1 Resting (token_start\<lparr>pr_alive := 1 # pr_alive token_start\<rparr>)"
  let ?s2 = "set_phase 2 Resting (?s1\<lparr>pr_alive := 2 # pr_alive ?s1\<rparr>)"
  let ?s3 = "set_phase 1 (Created 0) (set_file 0 (Some (1, None)) ?s2)"
  let ?s4 = "set_phase 2 (Judged 0) ?s3"
  let ?s5 = "set_phase 2 Resting (set_file 0 None ?s4)"
  let ?s6 = "set_phase 2 (Created 0) (set_file 0 (Some (2, None)) ?s5)"
  let ?s7 = "set_phase 1 (Holding 0) ?s6"
  note simps = token_start_def set_phase_def set_file_def is_stale_def
  have "interleaved 1 name ?s1" by (rule interleaved.step [OF interleaved.begins do_start]) (simp add: simps)
  then have "interleaved 1 name ?s2" by (rule interleaved.step [OF _ do_start]) (simp add: simps)
  then have "interleaved 1 name ?s3" by (rule interleaved.step [OF _ do_create]) (simp_all add: simps)
  then have "interleaved 1 name ?s4" by (rule interleaved.step [OF _ do_judge [of _ _ 0 1 None]]) (simp_all add: simps)
  then have "interleaved 1 name ?s5" by (rule interleaved.step [OF _ do_reap]) (simp_all add: simps)
  then have s6: "interleaved 1 name ?s6" by (rule interleaved.step [OF _ do_create]) (simp_all add: simps)
  have "token_step 1 name (Write 1) ?s6 ?s7"
    using do_write [of ?s6 1 0 1 name] by (simp add: simps fun_upd_twist)
  then have s7: "interleaved 1 name ?s7" using s6 interleaved.step by blast
  obtain s8 where "token_step 1 name (Write 2) ?s7 s8" and "pr_phase s8 1 = Holding 0" "pr_phase s8 2 = Holding 0"
    using do_write [of ?s7 2 0 1 name] by (fastforce simp: simps)
  then show ?thesis using s7 interleaved.step by blast
qed

end
