(* ===== verification/SshPool.thy ===== *)
theory SshPool
  imports SshSession Tokens LocalFs "HOL-Library.Multiset"
begin

text \<open>
  The pool of SSH sessions to one node: \<open>SshTiming\<close>, \<open>PooledSshSession\<close>, \<open>SshSessionPool\<close> and
  \<open>ssh_session_pool\<close> of \<open>cli_tool/transport/ssh.py\<close>, and \<open>SshCliTransport\<close>
  (\<open>cli_tool/transport/ssh_adapter.py\<close>). Sessions and pooled sessions are objects that several places refer to, so
  the state has a store of each and refers to them by index.
\<close>

section \<open>Objects\<close>

record ssh_timing =
  tm_node_key :: string
  tm_host :: string
  tm_owner :: string
  tm_session_id :: string
  tm_reused :: bool
  tm_token_path :: string
  tm_wait :: rat
  tm_attempts :: nat
  tm_connect :: rat
  tm_banner :: rat
  tm_commands :: "(string \<times> rat \<times> bool) list"
  tm_logout :: rat
  tm_closed :: bool
  tm_error :: "string option"

definition timing_as_dict :: "ssh_timing \<Rightarrow> pyval" where
  "timing_as_dict t = obj
     [(''node_key'', PStr (tm_node_key t)), (''host'', PStr (tm_host t)), (''owner'', PStr (tm_owner t)),
      (''session_id'', PStr (tm_session_id t)), (''reused_session'', PBool (tm_reused t)),
      (''token_path'', PStr (tm_token_path t)), (''wait_seconds'', PFloat (Fin (round3 (tm_wait t)))),
      (''connect_attempts'', PInt (int (tm_attempts t))), (''connect_seconds'', PFloat (Fin (round3 (tm_connect t)))),
      (''banner_read_seconds'', PFloat (Fin (round3 (tm_banner t)))),
      (''command_seconds'', PList (map (\<lambda>(command, elapsed, confirmed). obj
         [(''command'', PStr command), (''elapsed_seconds'', PFloat (Fin (round3 elapsed))), (''confirmed'', PBool confirmed)])
         (tm_commands t))),
      (''logout_seconds'', PFloat (Fin (round3 (tm_logout t)))), (''closed'', PBool (tm_closed t)),
      (''error'', opt_str (tm_error t))]"

record pooled =
  po_session :: nat
  po_token :: string
  po_timing :: ssh_timing

record pool_world =
  pw_dir :: token_dir
  pw_sessions :: "ssh_session list"
  pw_idle :: "(nat \<times> string) list"
  pw_pooled :: "pooled list"

text \<open>\<open>pc_fresh n\<close> is the session that the \<open>n\<close>-th constructor call makes, with what its connection will do.\<close>

record pool_config =
  pc_node :: string
  pc_host :: string
  pc_username :: string
  pc_password :: string
  pc_sem :: semaphore
  pc_ssh :: ssh_config
  pc_reuse :: bool
  pc_fresh :: "nat \<Rightarrow> ssh_session"
  pc_session_id :: "nat \<Rightarrow> string"

definition on_dir :: "(token_dir, 'a) act \<Rightarrow> (pool_world, 'a) act" where
  "on_dir m w = (case m (pw_dir w) of (r, d) \<Rightarrow> (r, w\<lparr>pw_dir := d\<rparr>))"

definition on_session :: "nat \<Rightarrow> (ssh_session, 'a) act \<Rightarrow> (pool_world, 'a) act" where
  "on_session sid m w = (case m (pw_sessions w ! sid) of (r, s) \<Rightarrow> (r, w\<lparr>pw_sessions := (pw_sessions w)[sid := s]\<rparr>))"

definition set_timing :: "nat \<Rightarrow> (ssh_timing \<Rightarrow> ssh_timing) \<Rightarrow> (pool_world, unit) act" where
  "set_timing h f = modify (\<lambda>w. w\<lparr>pw_pooled := (pw_pooled w)[h := (pw_pooled w ! h)\<lparr>po_timing := f (po_timing (pw_pooled w ! h))\<rparr>]\<rparr>)"

section \<open>SshSessionPool\<close>

text \<open>\<open>__init__\<close>: \<open>ssh_check\<close> are its first two checks.\<close>

definition pool_init ::
  "string \<Rightarrow> string \<Rightarrow> string \<Rightarrow> string \<Rightarrow> int \<Rightarrow> rat \<Rightarrow> string \<Rightarrow> ssh_config \<Rightarrow> bool \<Rightarrow> (nat \<Rightarrow> ssh_session) \<Rightarrow> (nat \<Rightarrow> string) \<Rightarrow> pool_config result" where
  "pool_init node_key host username password max_sessions timeout timeout_text ssh reuse fresh session_id =
     and_then (ssh_check ssh) (\<lambda>_.
     and_then (semaphore_init (lower node_key @ ''_'' @ host) max_sessions timeout timeout_text) (\<lambda>sem.
     Inr \<lparr>pc_node = lower node_key, pc_host = host, pc_username = username, pc_password = password, pc_sem = sem, pc_ssh = ssh, pc_reuse = reuse, pc_fresh = fresh,
          pc_session_id = session_id\<rparr>))"

definition new_timing :: "pool_config \<Rightarrow> string \<Rightarrow> nat \<Rightarrow> bool \<Rightarrow> string \<Rightarrow> rat \<Rightarrow> ssh_timing" where
  "new_timing cfg owner sid reused token_path wait =
     \<lparr>tm_node_key = pc_node cfg, tm_host = pc_host cfg, tm_owner = owner, tm_session_id = pc_session_id cfg sid,
      tm_reused = reused, tm_token_path = token_path, tm_wait = wait, tm_attempts = 0, tm_connect = 0, tm_banner = 0,
      tm_commands = [], tm_logout = 0, tm_closed = False, tm_error = None\<rparr>"

definition new_pooled :: "nat \<Rightarrow> string \<Rightarrow> ssh_timing \<Rightarrow> (pool_world, nat) act" where
  "new_pooled sid token_path timing w =
     (Inr (length (pw_pooled w)),
      w\<lparr>pw_pooled := pw_pooled w @ [\<lparr>po_session = sid, po_token = token_path, po_timing = timing\<rparr>]\<rparr>)"

text \<open>The \<open>while self._idle\<close> loop; the idle sessions in the order in which \<open>pop\<close> takes them.\<close>

fun take_idle :: "pool_config \<Rightarrow> string \<Rightarrow> (nat \<times> string) list \<Rightarrow> (pool_world, nat option) act" where
  "take_idle cfg owner [] = ret None"
| "take_idle cfg owner ((sid, token_path) # rest) =
     bnd (modify (\<lambda>w. w\<lparr>pw_idle := rev rest\<rparr>)) (\<lambda>_.
     bnd (on_session sid is_healthy) (\<lambda>healthy.
     if healthy then
       bnd (new_pooled sid token_path (new_timing cfg owner sid True token_path 0)) (\<lambda>h. ret (Some h))
     else
       bnd (on_session sid (ssh_close (pc_ssh cfg) False)) (\<lambda>_.
       bnd (on_dir (token_release (Some token_path))) (\<lambda>_.
       take_idle cfg owner rest))))"

definition new_session :: "pool_config \<Rightarrow> (pool_world, nat) act" where
  "new_session cfg w =
     (Inr (length (pw_sessions w)), w\<lparr>pw_sessions := pw_sessions w @ [pc_fresh cfg (length (pw_sessions w))]\<rparr>)"

text \<open>\<open>_acquire\<close>: an idle session that is healthy, or a token and a new connection.\<close>

definition pool_acquire :: "pool_config \<Rightarrow> string \<Rightarrow> (pool_world, nat) act" where
  "pool_acquire cfg owner =
     bnd (gets pw_idle) (\<lambda>idle.
     bnd (take_idle cfg owner (rev idle)) (\<lambda>found.
     case found of
       Some h \<Rightarrow> ret h
     | None \<Rightarrow>
         bnd (on_dir (token_acquire (pc_sem cfg) owner)) (\<lambda>(token_path, wait_seconds).
         bnd (new_session cfg) (\<lambda>sid.
         bnd (catch_when is_exception (on_session sid (ssh_connect (pc_ssh cfg))) (\<lambda>e.
                bnd (on_dir (token_release (Some token_path))) (\<lambda>_.
                bnd (on_session sid (ssh_close (pc_ssh cfg) False)) (\<lambda>_. throw e)))) (\<lambda>_.
         bnd (gets (\<lambda>w. pw_sessions w ! sid)) (\<lambda>s.
         new_pooled sid token_path ((new_timing cfg owner sid False token_path wait_seconds)
           \<lparr>tm_attempts := ss_attempts_used s, tm_connect := ss_connect_seconds s, tm_banner := ss_banner_seconds s\<rparr>)))))))"

definition pool_discard :: "pool_config \<Rightarrow> bool \<Rightarrow> nat \<Rightarrow> (pool_world, unit) act" where
  "pool_discard cfg logout h =
     bnd (gets (\<lambda>w. pw_pooled w ! h)) (\<lambda>p.
     bnd (on_session (po_session p) (ssh_close (pc_ssh cfg) logout)) (\<lambda>logout_seconds.
     bnd (set_timing h (\<lambda>t. t\<lparr>tm_logout := tm_logout t + logout_seconds, tm_closed := True\<rparr>)) (\<lambda>_.
     on_dir (token_release (Some (po_token p))))))"

definition pool_release :: "pool_config \<Rightarrow> nat \<Rightarrow> (pool_world, unit) act" where
  "pool_release cfg h =
     bnd (gets (\<lambda>w. pw_pooled w ! h)) (\<lambda>p.
     bnd (if pc_reuse cfg then on_session (po_session p) is_healthy else ret False) (\<lambda>keep.
     if keep then modify (\<lambda>w. w\<lparr>pw_idle := pw_idle w @ [(po_session p, po_token p)]\<rparr>)
     else pool_discard cfg True h))"

text \<open>\<open>PooledSshSession.run_commands\<close>\<close>

definition pooled_run_commands :: "pool_config \<Rightarrow> nat \<Rightarrow> string list \<Rightarrow> (pool_world, cli_command_output list) act" where
  "pooled_run_commands cfg h commands =
     catch_when is_exception
       (for_each commands (\<lambda>command.
          bnd (gets (\<lambda>w. po_session (pw_pooled w ! h))) (\<lambda>sid.
          bnd (on_session sid (ssh_run_command (pc_ssh cfg) command)) (\<lambda>(output, elapsed, confirmed).
          bnd (set_timing h (\<lambda>t. t\<lparr>tm_commands := tm_commands t @ [(command, elapsed, confirmed)]\<rparr>)) (\<lambda>_.
          ret \<lparr>out_command = command, out_output = output\<rparr>)))))
       (\<lambda>e. bnd (set_timing h (\<lambda>t. t\<lparr>tm_error := Some (exn_type_name e @ '': '' @ exn_text e)\<rparr>)) (\<lambda>_.
            bnd (pool_discard cfg False h) (\<lambda>_. throw e)))"

text \<open>The \<open>with self.acquire(owner)\<close> block: the session goes back unless an error was recorded.\<close>

definition with_pooled :: "pool_config \<Rightarrow> string \<Rightarrow> (nat \<Rightarrow> (pool_world, 'a) act) \<Rightarrow> (pool_world, 'a) act" where
  "with_pooled cfg owner body =
     bnd (pool_acquire cfg owner) (\<lambda>h.
     bnd (try_finally (body h)
            (bnd (gets (\<lambda>w. tm_error (po_timing (pw_pooled w ! h)))) (\<lambda>error.
             if error = None \<or> error = Some [] then pool_release cfg h else ret ()))) (\<lambda>(x, _). ret x))"

definition pool_run_commands ::
  "pool_config \<Rightarrow> string list \<Rightarrow> string \<Rightarrow> (pool_world, cli_command_output list \<times> ssh_timing) act" where
  "pool_run_commands cfg commands owner =
     bnd (with_pooled cfg owner (\<lambda>h. bnd (pooled_run_commands cfg h commands) (\<lambda>results. ret (results, h)))) (\<lambda>(results, h).
     bnd (gets (\<lambda>w. po_timing (pw_pooled w ! h))) (\<lambda>timing. ret (results, timing)))"

definition close_idle :: "pool_config \<Rightarrow> nat \<times> string \<Rightarrow> (pool_world, unit) act" where
  "close_idle cfg entry =
     bnd (on_session (fst entry) (ssh_close (pc_ssh cfg) True)) (\<lambda>_. on_dir (token_release (Some (snd entry))))"

definition pool_close_all :: "pool_config \<Rightarrow> (pool_world, unit) act" where
  "pool_close_all cfg =
     bnd (gets pw_idle) (\<lambda>sessions.
     bnd (modify (\<lambda>w. w\<lparr>pw_idle := []\<rparr>)) (\<lambda>_.
     bnd (for_each sessions (close_idle cfg)) (\<lambda>_. ret ())))"

section \<open>The pools of the process\<close>

definition env_bool :: "(string \<Rightarrow> string option) \<Rightarrow> string \<Rightarrow> bool \<Rightarrow> bool" where
  "env_bool getenv name fallback =
     (case getenv name of None \<Rightarrow> fallback | Some v \<Rightarrow> lower (strip v) \<in> {''1'', ''true'', ''yes'', ''on''})"

text \<open>\<open>package_root\<close> is \<open>Path(__file__).resolve().parents[1]\<close>.\<close>

definition default_token_directory :: "(string \<Rightarrow> string option) \<Rightarrow> posix_path \<Rightarrow> posix_path" where
  "default_token_directory getenv package_root =
     (case getenv ''NEOX_SSH_POOL_TOKEN_DIR'' of
        Some (c # configured) \<Rightarrow> parse_path (c # configured)
      | _ \<Rightarrow> path_child (path_child package_root ''.pytest_cache'') ''ssh-session-pool'')"

record pool_request =
  pq_node :: string
  pq_host :: string
  pq_username :: string
  pq_password :: string
  pq_max :: "int option"
  pq_acquire_timeout :: "rat option"
  pq_ssh :: ssh_config
  pq_reuse :: "bool option"

type_synonym pool_key = "string \<times> string \<times> string \<times> int \<times> bool \<times> rat \<times> int \<times> rat \<times> string option \<times> bool"

text \<open>\<open>_POOLS\<close>, with each pool's objects and the one token directory; \<open>rw_fresh\<close> and \<open>rw_session_id\<close> are what
  a new pool's sessions will do, \<open>rw_float\<close> is \<open>float(text)\<close> and \<open>rw_format\<close> is \<open>f"{timeout:.0f}"\<close>.\<close>

record pools_world =
  rw_pools :: "(pool_key \<times> pool_config \<times> pool_world) list"
  rw_dir :: token_dir
  rw_getenv :: "string \<Rightarrow> string option"
  rw_float :: "string \<Rightarrow> rat option"
  rw_format :: "rat \<Rightarrow> string"
  rw_fresh :: "nat \<Rightarrow> ssh_session"
  rw_session_id :: "nat \<Rightarrow> string"

definition env_or :: "(string \<Rightarrow> string option) \<Rightarrow> string \<Rightarrow> string \<Rightarrow> string" where
  "env_or getenv name fallback = (case getenv name of None \<Rightarrow> fallback | Some v \<Rightarrow> v)"

definition resolved_max_sessions :: "(string \<Rightarrow> string option) \<Rightarrow> int option \<Rightarrow> int result" where
  "resolved_max_sessions getenv max_sessions =
     (if max_sessions \<noteq> None \<and> max_sessions \<noteq> Some 0 then Inr (the max_sessions)
      else let text = env_or getenv ''NEOX_SSH_POOL_SIZE'' ''2''
           in case parse_int text of
                None \<Rightarrow> Inl (ValueError (''invalid literal for int() with base 10: '' @ py_repr text))
              | Some n \<Rightarrow> Inr n)"

definition resolved_acquire_timeout ::
  "(string \<Rightarrow> string option) \<Rightarrow> (string \<Rightarrow> rat option) \<Rightarrow> rat option \<Rightarrow> rat result" where
  "resolved_acquire_timeout getenv to_float timeout =
     (if timeout \<noteq> None \<and> timeout \<noteq> Some 0 then Inr (the timeout)
      else let text = env_or getenv ''NEOX_SSH_POOL_ACQUIRE_TIMEOUT'' ''60''
           in case to_float text of
                None \<Rightarrow> Inl (ValueError (''could not convert string to float: '' @ py_repr text))
              | Some t \<Rightarrow> Inr t)"

definition pool_key :: "pool_request \<Rightarrow> int \<Rightarrow> bool \<Rightarrow> pool_key" where
  "pool_key req max_sessions reuse =
     (let ssh = pq_ssh req
      in (lower (pq_node req), pq_host req, pq_username req, max_sessions, reuse, sc_timeout ssh, sc_attempts ssh,
          sc_backoff ssh, map_option (sc_expanduser ssh) (sc_known_hosts ssh), sc_allow_unknown ssh))"

definition find_pool :: "pool_key \<Rightarrow> (pool_key \<times> pool_config \<times> pool_world) list \<Rightarrow> nat option" where
  "find_pool key pools = (case filter (\<lambda>n. fst (pools ! n) = key) [0..<length pools] of [] \<Rightarrow> None | n # _ \<Rightarrow> Some n)"

text \<open>\<open>ssh_session_pool\<close>: the index of the pool, which is made when the key is new.\<close>

definition ssh_session_pool :: "pool_request \<Rightarrow> (pools_world, nat) act" where
  "ssh_session_pool req =
     bnd (gets (\<lambda>rw. resolved_max_sessions (rw_getenv rw) (pq_max req))) (\<lambda>r.
     bnd (lift r) (\<lambda>max_sessions.
     bnd (gets (\<lambda>rw. case pq_reuse req of Some b \<Rightarrow> b | None \<Rightarrow> env_bool (rw_getenv rw) ''NEOX_SSH_POOL_REUSE'' True)) (\<lambda>reuse.
     let key = pool_key req max_sessions reuse
     in bnd (gets (\<lambda>rw. find_pool key (rw_pools rw))) (\<lambda>found.
        case found of
          Some n \<Rightarrow> ret n
        | None \<Rightarrow>
            bnd (gets (\<lambda>rw. resolved_acquire_timeout (rw_getenv rw) (rw_float rw) (pq_acquire_timeout req))) (\<lambda>rt.
            bnd (lift rt) (\<lambda>timeout.
            bnd (gets (\<lambda>rw. pool_init (pq_node req) (pq_host req) (pq_username req) (pq_password req) max_sessions timeout
                   (rw_format rw timeout) (pq_ssh req) reuse (rw_fresh rw) (rw_session_id rw))) (\<lambda>rc.
            bnd (lift rc) (\<lambda>cfg.
            bnd (gets (\<lambda>rw. length (rw_pools rw))) (\<lambda>n.
            bnd (modify (\<lambda>rw. rw\<lparr>rw_pools := rw_pools rw @
                   [(key, cfg, \<lparr>pw_dir = rw_dir rw, pw_sessions = [], pw_idle = [], pw_pooled = []\<rparr>)]\<rparr>)) (\<lambda>_. ret n)))))))))) "

text \<open>A run on one pool, with the shared directory.\<close>

definition on_pool :: "nat \<Rightarrow> (pool_config \<Rightarrow> (pool_world, 'a) act) \<Rightarrow> (pools_world, 'a) act" where
  "on_pool n m rw =
     (case rw_pools rw ! n of (key, cfg, w) \<Rightarrow>
        (case m cfg (w\<lparr>pw_dir := rw_dir rw\<rparr>) of (r, w') \<Rightarrow>
           (r, rw\<lparr>rw_pools := (rw_pools rw)[n := (key, cfg, w')], rw_dir := pw_dir w'\<rparr>)))"

definition close_ssh_session_pools :: "(pools_world, unit) act" where
  "close_ssh_session_pools =
     bnd (gets rw_pools) (\<lambda>pools.
     bnd (modify (\<lambda>rw. rw\<lparr>rw_pools := []\<rparr>)) (\<lambda>_.
     bnd (for_each pools (\<lambda>(key, cfg, w) rw.
            case pool_close_all cfg (w\<lparr>pw_dir := rw_dir rw\<rparr>) of (r, w') \<Rightarrow> (r, rw\<lparr>rw_dir := pw_dir w'\<rparr>))) (\<lambda>_.
     ret ())))"

section \<open>SshCliTransport\<close>

definition transport_owner :: "string \<Rightarrow> string list \<Rightarrow> string option \<Rightarrow> string" where
  "transport_owner node_key commands owner =
     (case owner of
        Some (c # s) \<Rightarrow> c # s
      | _ \<Rightarrow> node_key @ '':'' @ (case commands of [] \<Rightarrow> ''no_commands'' | command # _ \<Rightarrow> command))"

definition ssh_transport_run :: "pool_request \<Rightarrow> string list \<Rightarrow> string option \<Rightarrow> (pools_world, cli_command_output list) act" where
  "ssh_transport_run req commands owner =
     bnd (ssh_session_pool req) (\<lambda>n.
     bnd (on_pool n (\<lambda>cfg. pool_run_commands cfg commands (transport_owner (pq_node req) commands owner))) (\<lambda>(results, _).
     ret results))"

section \<open>Lemmas: leases\<close>

text \<open>A lease is a session with its token; \<open>K\<close> are tokens that were leaked, \<open>n\<close> is the number of sessions made.\<close>

definition leases_ok :: "pool_config \<Rightarrow> int \<Rightarrow> string set \<Rightarrow> (nat \<times> string) list \<Rightarrow> nat \<Rightarrow> token_dir \<Rightarrow> bool" where
  "leases_ok cfg pid K L n d =
     (distinct (map fst L) \<and> distinct (map snd L) \<and>
      (\<forall>(s, t) \<in> set L. s < n \<and> (\<exists>i < nat (sem_max (pc_sem cfg)). t = token_file (sem_name (pc_sem cfg)) i)) \<and>
      K \<inter> snd ` set L = {} \<and> owns pid (snd ` set L \<union> K) d)"

lemma leases_ok_perm:
  assumes "mset L = mset L'"
  shows "leases_ok cfg pid K L n d \<longleftrightarrow> leases_ok cfg pid K L' n d"
proof -
  have "mset (map f L) = mset (map f L')" for f :: "nat \<times> string \<Rightarrow> 'b" using assms by simp
  then have "distinct (map fst L) = distinct (map fst L')" "distinct (map snd L) = distinct (map snd L')"
    by (metis mset_eq_imp_distinct_iff)+
  moreover have "set L = set L'" using assms by (rule mset_eq_setD)
  ultimately show ?thesis by (simp add: leases_ok_def)
qed

lemma leases_ok_leak: "leases_ok cfg pid K ((s, t) # L) n d \<Longrightarrow> leases_ok cfg pid (insert t K) L n d"
  by (auto simp: leases_ok_def image_iff)

lemma leases_ok_release:
  assumes "leases_ok cfg pid K ((s, t) # L) n d" and "token_release (Some t) d = (r, d')"
  shows "r = Inr () \<and> leases_ok cfg pid K L n d'"
proof -
  have "(snd ` set ((s, t) # L) \<union> K) - {t} = snd ` set L \<union> K" using assms(1) by (auto simp: leases_ok_def image_iff)
  moreover have "owns pid (snd ` set ((s, t) # L) \<union> K) d" using assms(1) by (simp add: leases_ok_def)
  ultimately have "r = Inr () \<and> owns pid (snd ` set L \<union> K) d'" using owns_release [OF _ assms(2)] by metis
  with assms(1) show ?thesis by (auto simp: leases_ok_def)
qed

lemma leases_ok_acquire:
  assumes "leases_ok cfg pid K L n d" and "token_acquire (pc_sem cfg) owner d = (r, d')"
  shows "case r of Inr (t, _) \<Rightarrow> leases_ok cfg pid K ((n, t) # L) (Suc n) d' | Inl e \<Rightarrow> leases_ok cfg pid K L n d'"
proof -
  have own: "owns pid (snd ` set L \<union> K) d" using assms(1) by (simp add: leases_ok_def)
  show ?thesis
  proof (cases r)
    case (Inl e)
    then show ?thesis using owns_acquire [OF own assms(2)] assms(1) by (simp add: leases_ok_def)
  next
    case (Inr tw)
    obtain t wt where tw: "tw = (t, wt)" by (cases tw)
    have new: "t \<notin> snd ` set L \<union> K" "owns pid (insert t (snd ` set L \<union> K)) d'"
      "\<exists>i < nat (sem_max (pc_sem cfg)). t = token_file (sem_name (pc_sem cfg)) i"
      using owns_acquire [OF own assms(2)] Inr tw by simp_all
    have "n \<notin> fst ` set L" using assms(1) by (auto simp: leases_ok_def)
    with new assms(1) show ?thesis
      by (auto simp: Inr tw leases_ok_def intro: less_SucI)
  qed
qed

lemma leases_bound:
  assumes "leases_ok cfg pid K L n d"
  shows "length L \<le> nat (sem_max (pc_sem cfg))"
proof -
  have "set (map snd L) \<subseteq> token_file (sem_name (pc_sem cfg)) ` {..<nat (sem_max (pc_sem cfg))}"
    using assms by (fastforce simp: leases_ok_def)
  then have "card (set (map snd L)) \<le> nat (sem_max (pc_sem cfg))"
    by (metis card_image_le card_lessThan card_mono finite_imageI finite_lessThan le_trans)
  moreover have "card (set (map snd L)) = length L"
    using assms distinct_card [of "map snd L"] by (simp add: leases_ok_def)
  ultimately show ?thesis by simp
qed

section \<open>Lemmas: runs that do not touch the leases\<close>

type_synonym lease_core = "token_dir \<times> (nat \<times> string) list \<times> (nat \<times> string) list \<times> nat"

definition lease_core :: "pool_world \<Rightarrow> lease_core" where
  "lease_core w = (pw_dir w, pw_idle w, map (\<lambda>p. (po_session p, po_token p)) (pw_pooled w), length (pw_sessions w))"

lemma keeps_core_session: "keeps (\<lambda>w. lease_core w = c) (on_session sid m)"
  by (auto simp: keeps_def on_session_def lease_core_def split: prod.split)

lemma keeps_core_timing: "keeps (\<lambda>w. lease_core w = c) (set_timing h f)"
proof -
  have "map g (ps[h := (ps ! h)\<lparr>po_timing := t\<rparr>]) = map g ps" if "\<And>p. g (p\<lparr>po_timing := t\<rparr>) = g p"
    for g :: "pooled \<Rightarrow> nat \<times> string" and ps t
    by (simp add: map_update that list_update_same_conv) (metis list_update_beyond list_update_id length_map nth_map not_le_imp_less)
  then show ?thesis by (simp add: keeps_def set_timing_def modify_def lease_core_def)
qed

definition lease_list :: "pool_world \<Rightarrow> nat list \<Rightarrow> (nat \<times> string) list" where
  "lease_list w H = pw_idle w @ map (\<lambda>h. (po_session (pw_pooled w ! h), po_token (pw_pooled w ! h))) H"

definition pool_ok :: "pool_config \<Rightarrow> int \<Rightarrow> string set \<Rightarrow> nat list \<Rightarrow> pool_world \<Rightarrow> bool" where
  "pool_ok cfg pid K H w =
     (leases_ok cfg pid K (lease_list w H) (length (pw_sessions w)) (pw_dir w) \<and> (\<forall>h \<in> set H. h < length (pw_pooled w)))"

lemma pool_ok_core: "lease_core w = lease_core w' \<Longrightarrow> pool_ok cfg pid K H w \<Longrightarrow> pool_ok cfg pid K H w'"
proof -
  assume core: "lease_core w = lease_core w'" and ok: "pool_ok cfg pid K H w"
  have pooled: "map (\<lambda>p. (po_session p, po_token p)) (pw_pooled w) = map (\<lambda>p. (po_session p, po_token p)) (pw_pooled w')"
    using core by (simp add: lease_core_def)
  then have len: "length (pw_pooled w) = length (pw_pooled w')" by (metis length_map)
  have "(po_session (pw_pooled w ! h), po_token (pw_pooled w ! h)) = (po_session (pw_pooled w' ! h), po_token (pw_pooled w' ! h))"
    if "h \<in> set H" for h
    using arg_cong [OF pooled, of "\<lambda>l. l ! h"] ok that len by (simp add: pool_ok_def)
  then have "lease_list w H = lease_list w' H" using core by (simp add: lease_list_def lease_core_def)
  with ok core len show ?thesis by (simp add: pool_ok_def lease_core_def)
qed

lemma keeps_pool_ok: "(\<And>c. keeps (\<lambda>w. lease_core w = c) m) \<Longrightarrow> keeps (pool_ok cfg pid K H) m"
  unfolding keeps_def using pool_ok_core by metis

lemmas keeps_ok_session = keeps_pool_ok [OF keeps_core_session]
lemmas keeps_ok_timing = keeps_pool_ok [OF keeps_core_timing]

lemma is_healthy_Inr: "\<exists>b s'. is_healthy s = (Inr b, s')"
  by (cases "ss_health s") (auto simp: is_healthy_def)

lemma quiet_close: "\<exists>x s'. ssh_close cfg False s = (Inr x, s')"
  by (simp add: ssh_close_def bnd_def gets_def try_finally_def ret_def on_link_def modify_def call_def on_calls_def)

lemma on_session_Inr: "\<exists>x s'. m (pw_sessions w ! sid) = (Inr x, s') \<Longrightarrow> \<exists>x w'. on_session sid m w = (Inr x, w')"
  by (auto simp: on_session_def)

section \<open>Lemmas: operations on leases\<close>

lemma ok_session_run:
  "pool_ok cfg pid K H w \<Longrightarrow> on_session sid m w = (r, w') \<Longrightarrow> pool_ok cfg pid K H w' \<and> lease_core w' = lease_core w"
  using keepsD [OF keeps_ok_session] keepsD [OF keeps_core_session [where c = "lease_core w"]] by metis

lemma release_dir:
  assumes "leases_ok cfg pid K ((s, t) # L) (length (pw_sessions w)) (pw_dir w)" and "on_dir (token_release (Some t)) w = (r, w')"
    and "mset L = mset (lease_list w H)" and "\<forall>h \<in> set H. h < length (pw_pooled w)"
  shows "r = Inr () \<and> pool_ok cfg pid K H w'"
proof -
  obtain d where rel: "token_release (Some t) (pw_dir w) = (r, d)" and w': "w' = w\<lparr>pw_dir := d\<rparr>"
    using assms(2) by (auto simp: on_dir_def split: prod.splits)
  from leases_ok_release [OF assms(1) rel] have r: "r = Inr ()" and "leases_ok cfg pid K L (length (pw_sessions w)) d" by auto
  then have "leases_ok cfg pid K (lease_list w H) (length (pw_sessions w)) d" using leases_ok_perm [OF assms(3)] by simp
  with r assms(4) show ?thesis by (simp add: w' pool_ok_def lease_list_def)
qed

text \<open>A new pooled object takes over the lease of a session that is neither idle nor in use.\<close>

lemma pooled_takes:
  assumes "leases_ok cfg pid K ((sid, t) # lease_list w H) (length (pw_sessions w)) (pw_dir w)"
    and "\<forall>h \<in> set H. h < length (pw_pooled w)" and "new_pooled sid t tm w = (r, w')"
  shows "\<exists>h. r = Inr h \<and> pool_ok cfg pid K (h # H) w'"
proof -
  let ?h = "length (pw_pooled w)"
  have w': "r = Inr ?h" "w' = w\<lparr>pw_pooled := pw_pooled w @ [\<lparr>po_session = sid, po_token = t, po_timing = tm\<rparr>]\<rparr>"
    using assms(3) by (simp_all add: new_pooled_def)
  have maps: "map (\<lambda>h. (po_session (pw_pooled w' ! h), po_token (pw_pooled w' ! h))) H =
      map (\<lambda>h. (po_session (pw_pooled w ! h), po_token (pw_pooled w ! h))) H"
    using assms(2) by (auto simp: w' nth_append)
  have eq: "lease_list w' (?h # H) = pw_idle w @ (sid, t) # map (\<lambda>h. (po_session (pw_pooled w ! h), po_token (pw_pooled w ! h))) H"
    unfolding lease_list_def list.map maps by (simp add: w')
  have "mset (lease_list w' (?h # H)) = mset ((sid, t) # lease_list w H)" unfolding eq by (simp add: lease_list_def)
  then have "leases_ok cfg pid K (lease_list w' (?h # H)) (length (pw_sessions w)) (pw_dir w)"
    using assms(1) leases_ok_perm by blast
  with assms(2) show ?thesis by (auto simp: pool_ok_def w')
qed

lemma take_idle_ok:
  assumes "pool_ok cfg pid K H w" and "pw_idle w = rev l" and "take_idle cfg owner l w = (r, w')"
  shows "case r of Inr (Some h) \<Rightarrow> pool_ok cfg pid K (h # H) w' | Inr None \<Rightarrow> pool_ok cfg pid K H w' | Inl e \<Rightarrow> False"
  using assms
proof (induction l arbitrary: w)
  case Nil
  then show ?case by (auto simp: ret_def)
next
  case (Cons x rest)
  obtain sid t where x: "x = (sid, t)" by (cases x)
  let ?w0 = "w\<lparr>pw_idle := rev rest\<rparr>"
  have split: "mset (lease_list w H) = mset ((sid, t) # lease_list ?w0 H)"
    using Cons.prems(2) by (simp add: lease_list_def x)
  have ok0: "leases_ok cfg pid K ((sid, t) # lease_list ?w0 H) (length (pw_sessions ?w0)) (pw_dir ?w0)"
    and handles: "\<forall>h \<in> set H. h < length (pw_pooled ?w0)"
    using Cons.prems(1) leases_ok_perm [OF split] by (simp_all add: pool_ok_def)
  obtain healthy w1 where health: "on_session sid is_healthy ?w0 = (Inr healthy, w1)"
    using on_session_Inr [of is_healthy ?w0 sid, OF is_healthy_Inr] by blast
  have core: "lease_core w1 = lease_core ?w0" using keepsD [OF keeps_core_session [where c = "lease_core ?w0"] health] by simp
  have same: "leases_ok cfg pid K ((sid, t) # lease_list v H) (length (pw_sessions v)) (pw_dir v) \<and>
      (\<forall>h \<in> set H. h < length (pw_pooled v)) \<and> pw_idle v = rev rest" if "lease_core v = lease_core ?w0" for v
  proof -
    have "pool_ok cfg pid K H (v\<lparr>pw_idle := pw_idle v @ [(sid, t)]\<rparr>)"
    proof (rule pool_ok_core)
      show "pool_ok cfg pid K H w" by (rule Cons.prems(1))
      show "lease_core w = lease_core (v\<lparr>pw_idle := pw_idle v @ [(sid, t)]\<rparr>)"
        using that Cons.prems(2) by (simp add: lease_core_def x)
    qed
    then have "leases_ok cfg pid K (lease_list (v\<lparr>pw_idle := pw_idle v @ [(sid, t)]\<rparr>) H) (length (pw_sessions v)) (pw_dir v)"
      and "\<forall>h \<in> set H. h < length (pw_pooled v)"
      by (simp_all add: pool_ok_def)
    moreover have "mset (lease_list (v\<lparr>pw_idle := pw_idle v @ [(sid, t)]\<rparr>) H) = mset ((sid, t) # lease_list v H)"
      by (simp add: lease_list_def)
    note leases_ok_perm [OF this, of cfg pid K "length (pw_sessions v)" "pw_dir v"]
    moreover have "pw_idle v = rev rest" using that by (simp add: lease_core_def)
    ultimately show ?thesis by simp
  qed
  show ?case
  proof (cases healthy)
    case True
    obtain r1 w2 where new: "new_pooled sid t (new_timing cfg owner sid True t 0) w1 = (r1, w2)" by (metis surj_pair)
    have "r = map_sum id Some r1 \<and> w' = w2"
      using Cons.prems(3) health True new
      by (auto simp: x bnd_def modify_def ret_def new_pooled_def)
    moreover obtain h where "r1 = Inr h" "pool_ok cfg pid K (h # H) w2" using pooled_takes [OF _ _ new] same [OF core] by blast
    ultimately show ?thesis by simp
  next
    case False
    obtain secs w2 where close: "on_session sid (ssh_close (pc_ssh cfg) False) w1 = (Inr secs, w2)"
      using on_session_Inr [of "ssh_close (pc_ssh cfg) False" w1 sid, OF quiet_close] by blast
    have core2: "lease_core w2 = lease_core ?w0"
      using keepsD [OF keeps_core_session [where c = "lease_core w1"] close] core by simp
    obtain r3 w3 where rel: "on_dir (token_release (Some t)) w2 = (r3, w3)" by (metis surj_pair)
    have ok3: "r3 = Inr () \<and> pool_ok cfg pid K H w3" using release_dir [OF _ rel refl] same [OF core2] by blast
    moreover have "pw_idle w3 = rev rest" using rel same [OF core2] by (auto simp: on_dir_def split: prod.splits)
    moreover have "take_idle cfg owner rest w3 = (r, w')"
      using Cons.prems(3) health False close rel ok3 by (simp add: x bnd_def modify_def)
    ultimately show ?thesis using Cons.IH by blast
  qed
qed

text \<open>The world holds, beside the leases of \<open>H\<close>, one lease \<open>(sid, t)\<close> that is neither idle nor in use.\<close>

definition extra_lease :: "pool_config \<Rightarrow> int \<Rightarrow> string set \<Rightarrow> nat list \<Rightarrow> nat \<times> string \<Rightarrow> pool_world \<Rightarrow> bool" where
  "extra_lease cfg pid K H l w =
     (leases_ok cfg pid K (l # lease_list w H) (length (pw_sessions w)) (pw_dir w) \<and> (\<forall>h \<in> set H. h < length (pw_pooled w)))"

lemma extra_core:
  assumes "lease_core w = lease_core w'" and "extra_lease cfg pid K H l w"
  shows "extra_lease cfg pid K H l w'"
proof -
  have perm: "mset (lease_list (v\<lparr>pw_idle := l # pw_idle v\<rparr>) H) = mset (l # lease_list v H)" for v
    by (simp add: lease_list_def)
  have same: "extra_lease cfg pid K H l v = pool_ok cfg pid K H (v\<lparr>pw_idle := l # pw_idle v\<rparr>)" for v
    using leases_ok_perm [OF perm, of cfg pid K] by (simp add: extra_lease_def pool_ok_def)
  have "lease_core (w\<lparr>pw_idle := l # pw_idle w\<rparr>) = lease_core (w'\<lparr>pw_idle := l # pw_idle w'\<rparr>)"
    using assms(1) by (simp add: lease_core_def)
  with assms(2) pool_ok_core show ?thesis unfolding same by blast
qed

lemma extra_session: "extra_lease cfg pid K H l w \<Longrightarrow> on_session sid m w = (r, w') \<Longrightarrow> extra_lease cfg pid K H l w'"
  by (rule extra_core [rotated], assumption) (use keepsD [OF keeps_core_session [where c = "lease_core w"]] in fastforce)

lemma extra_timing: "extra_lease cfg pid K H l w \<Longrightarrow> set_timing h f w = (r, w') \<Longrightarrow> extra_lease cfg pid K H l w'"
  by (rule extra_core [rotated], assumption) (use keepsD [OF keeps_core_timing [where c = "lease_core w"]] in fastforce)

lemma extra_leak: "extra_lease cfg pid K H (s, t) w \<Longrightarrow> pool_ok cfg pid (insert t K) H w"
  by (auto simp: extra_lease_def pool_ok_def dest: leases_ok_leak)

lemma extra_release:
  "extra_lease cfg pid K H (s, t) w \<Longrightarrow> on_dir (token_release (Some t)) w = (r, w') \<Longrightarrow> r = Inr () \<and> pool_ok cfg pid K H w'"
  using release_dir [OF _ _ refl] unfolding extra_lease_def by blast

lemma extra_pooled:
  "extra_lease cfg pid K H (s, t) w \<Longrightarrow> new_pooled s t tm w = (r, w') \<Longrightarrow> \<exists>h. r = Inr h \<and> pool_ok cfg pid K (h # H) w'"
  using pooled_takes unfolding extra_lease_def by blast

lemma acquire_token_ok:
  assumes "pool_ok cfg pid K H w"
    and "bnd (on_dir (token_acquire (pc_sem cfg) owner)) (\<lambda>(t, wt). bnd (new_session cfg) (\<lambda>sid. ret (sid, t, wt))) w = (r, w')"
  shows "case r of Inr (sid, t, wt) \<Rightarrow> extra_lease cfg pid K H (sid, t) w' | Inl e \<Rightarrow> pool_ok cfg pid K H w'"
proof -
  obtain r1 d where acq: "token_acquire (pc_sem cfg) owner (pw_dir w) = (r1, d)" by (metis surj_pair)
  have ok: "leases_ok cfg pid K (lease_list w H) (length (pw_sessions w)) (pw_dir w)" "\<forall>h \<in> set H. h < length (pw_pooled w)"
    using assms(1) by (simp_all add: pool_ok_def)
  note after = leases_ok_acquire [OF ok(1) acq]
  show ?thesis
  proof (cases r1)
    case (Inl e)
    then have "r = Inl e \<and> w' = w\<lparr>pw_dir := d\<rparr>" using assms(2) acq by (auto simp: bnd_def on_dir_def)
    then show ?thesis using after Inl ok by (simp add: pool_ok_def lease_list_def)
  next
    case (Inr x)
    obtain t wt where x: "x = (t, wt)" by (cases x)
    have "r = Inr (length (pw_sessions w), t, wt) \<and>
        w' = w\<lparr>pw_dir := d, pw_sessions := pw_sessions w @ [pc_fresh cfg (length (pw_sessions w))]\<rparr>"
      using assms(2) acq Inr x by (auto simp: bnd_def on_dir_def new_session_def ret_def)
    then show ?thesis using after Inr x ok by (simp add: extra_lease_def lease_list_def)
  qed
qed

lemma pool_acquire_ok:
  assumes "pool_ok cfg pid K H w" and "pool_acquire cfg owner w = (r, w')"
  shows "case r of
      Inr h \<Rightarrow> pool_ok cfg pid K (h # H) w'
    | Inl e \<Rightarrow> \<exists>K'. pool_ok cfg pid K' H w' \<and> (is_exception e \<longrightarrow> K' = K)"
proof -
  obtain r1 w1 where idle: "take_idle cfg owner (rev (pw_idle w)) w = (r1, w1)" by (metis surj_pair)
  note taken = take_idle_ok [OF assms(1) _ idle, simplified]
  then obtain found where r1: "r1 = Inr found" by (cases r1) simp_all
  show ?thesis
  proof (cases found)
    case (Some h)
    then show ?thesis using assms(2) idle r1 taken by (auto simp: pool_acquire_def bnd_def gets_def ret_def)
  next
    case None
    then have ok1: "pool_ok cfg pid K H w1" using taken r1 by simp
    obtain r2 w2 where token: "bnd (on_dir (token_acquire (pc_sem cfg) owner))
        (\<lambda>(t, wt). bnd (new_session cfg) (\<lambda>sid. ret (sid, t, wt))) w1 = (r2, w2)" by (metis surj_pair)
    note extra = acquire_token_ok [OF ok1 token]
    let ?rest = "\<lambda>(sid, token_path, wait_seconds).
         bnd (catch_when is_exception (on_session sid (ssh_connect (pc_ssh cfg))) (\<lambda>e.
                bnd (on_dir (token_release (Some token_path))) (\<lambda>_.
                bnd (on_session sid (ssh_close (pc_ssh cfg) False)) (\<lambda>_. throw e)))) (\<lambda>_.
         bnd (gets (\<lambda>w. pw_sessions w ! sid)) (\<lambda>s.
         new_pooled sid token_path ((new_timing cfg owner sid False token_path wait_seconds)
           \<lparr>tm_attempts := ss_attempts_used s, tm_connect := ss_connect_seconds s, tm_banner := ss_banner_seconds s\<rparr>)))"
    have run: "bnd (bnd (on_dir (token_acquire (pc_sem cfg) owner))
        (\<lambda>(t, wt). bnd (new_session cfg) (\<lambda>sid. ret (sid, t, wt)))) ?rest w1 = (r, w')"
      using assms(2) idle r1 None
      by (simp add: pool_acquire_def bnd_assoc case_prod_beta' bnd_def [of "gets pw_idle"] bnd_def [of "take_idle _ _ _"] gets_def)
    show ?thesis
    proof (cases r2)
      case (Inl e)
      then show ?thesis using run token extra by (auto simp: bnd_def [of "bnd _ _"])
    next
      case (Inr x)
      obtain sid t wt where x: "x = (sid, t, wt)" by (cases x)
      have ext: "extra_lease cfg pid K H (sid, t) w2" using extra Inr x by simp
      have rest: "?rest (sid, t, wt) w2 = (r, w')" using run token Inr x by (simp add: bnd_def [of "bnd _ _"])
      obtain r3 w3 where conn: "on_session sid (ssh_connect (pc_ssh cfg)) w2 = (r3, w3)" by (metis surj_pair)
      note ext3 = extra_session [OF ext conn]
      show ?thesis
      proof (cases r3)
        case (Inr u)
        obtain tm where "new_pooled sid t tm w3 = (r, w')"
          using rest conn Inr by (auto simp: bnd_def catch_when_def gets_def)
        then show ?thesis using extra_pooled [OF ext3] by fastforce
      next
        case (Inl e)
        show ?thesis
        proof (cases "is_exception e")
          case False
          then have "r = Inl e \<and> w' = w3" using rest conn Inl by (auto simp: bnd_def catch_when_def)
          then show ?thesis using extra_leak [OF ext3] False by auto
        next
          case True
          obtain r4 w4 where rel: "on_dir (token_release (Some t)) w3 = (r4, w4)" by (metis surj_pair)
          have ok4: "r4 = Inr () \<and> pool_ok cfg pid K H w4" by (rule extra_release [OF ext3 rel])
          obtain secs w5 where close: "on_session sid (ssh_close (pc_ssh cfg) False) w4 = (Inr secs, w5)"
            using on_session_Inr [of "ssh_close (pc_ssh cfg) False" w4 sid, OF quiet_close] by blast
          have "r = Inl e \<and> w' = w5"
            using rest conn Inl True rel ok4 close by (auto simp: bnd_def catch_when_def throw_def)
          then show ?thesis using ok_session_run [OF conjunct2 [OF ok4] close] by auto
        qed
      qed
    qed
  qed
qed

lemma mset_map_remove1: "h \<in> set H \<Longrightarrow> mset (map f H) = add_mset (f h) (mset (map f (remove1 h H)))"
  by (induction H) auto

lemma handle_out:
  assumes "pool_ok cfg pid K H w" and "h \<in> set H"
  shows "extra_lease cfg pid K (remove1 h H) (po_session (pw_pooled w ! h), po_token (pw_pooled w ! h)) w"
proof -
  have "mset (lease_list w H) = mset ((po_session (pw_pooled w ! h), po_token (pw_pooled w ! h)) # lease_list w (remove1 h H))"
    using mset_map_remove1 [OF assms(2)] by (simp add: lease_list_def)
  from leases_ok_perm [OF this, of cfg pid K] assms(1) notin_set_remove1 show ?thesis
    by (fastforce simp: extra_lease_def pool_ok_def)
qed

lemma pool_discard_ok:
  assumes "pool_ok cfg pid K H w" and "h \<in> set H" and "pool_discard cfg logout h w = (r, w')"
  shows "case r of
      Inr _ \<Rightarrow> pool_ok cfg pid K (remove1 h H) w'
    | Inl e \<Rightarrow> logout \<and> pool_ok cfg pid (insert (po_token (pw_pooled w ! h)) K) (remove1 h H) w'"
proof -
  let ?s = "po_session (pw_pooled w ! h)" and ?t = "po_token (pw_pooled w ! h)"
  note ext = handle_out [OF assms(1,2)]
  obtain r1 w1 where close: "on_session ?s (ssh_close (pc_ssh cfg) logout) w = (r1, w1)" by (metis surj_pair)
  note ext1 = extra_session [OF ext close]
  show ?thesis
  proof (cases r1)
    case (Inl e)
    have "logout"
    proof (rule ccontr)
      assume "\<not> logout"
      then obtain x w2 where "on_session ?s (ssh_close (pc_ssh cfg) logout) w = (Inr x, w2)"
        using on_session_Inr [of "ssh_close (pc_ssh cfg) False" w ?s, OF quiet_close] by auto
      with close Inl show False by simp
    qed
    moreover have "r = Inl e \<and> w' = w1" using assms(3) close Inl by (auto simp: pool_discard_def bnd_def gets_def)
    ultimately show ?thesis using extra_leak [OF ext1] by simp
  next
    case (Inr secs)
    obtain r2 w2 where timing: "set_timing h (\<lambda>t. t\<lparr>tm_logout := tm_logout t + secs, tm_closed := True\<rparr>) w1 = (r2, w2)"
      by (metis surj_pair)
    then have r2: "r2 = Inr ()" by (simp add: set_timing_def modify_def)
    obtain r3 w3 where rel: "on_dir (token_release (Some ?t)) w2 = (r3, w3)" by (metis surj_pair)
    from extra_release [OF extra_timing [OF ext1 timing] rel] have ok: "r3 = Inr ()" "pool_ok cfg pid K (remove1 h H) w3" by auto
    have "r = r3 \<and> w' = w3"
      using assms(3) close Inr timing r2 rel by (auto simp: pool_discard_def bnd_def gets_def)
    then show ?thesis using ok by simp
  qed
qed

lemma pool_release_ok:
  assumes "pool_ok cfg pid K H w" and "h \<in> set H" and "pool_release cfg h w = (r, w')"
  shows "case r of
      Inr _ \<Rightarrow> pool_ok cfg pid K (remove1 h H) w'
    | Inl e \<Rightarrow> \<exists>K'. pool_ok cfg pid K' (remove1 h H) w'"
proof -
  let ?s = "po_session (pw_pooled w ! h)" and ?t = "po_token (pw_pooled w ! h)"
  obtain keep w1 where health: "(if pc_reuse cfg then on_session ?s is_healthy else ret False) w = (Inr keep, w1)"
    using on_session_Inr [of is_healthy w ?s, OF is_healthy_Inr] by (cases "pc_reuse cfg") (auto simp: ret_def)
  have core: "lease_core w1 = lease_core w" and pooled: "pw_pooled w1 = pw_pooled w"
    using health by (auto simp: ret_def on_session_def lease_core_def split: if_splits prod.splits)
  have ok1: "pool_ok cfg pid K H w1" by (rule pool_ok_core [OF core [symmetric] assms(1)])
  show ?thesis
  proof (cases keep)
    case True
    then have run: "r = Inr () \<and> w' = w1\<lparr>pw_idle := pw_idle w1 @ [(?s, ?t)]\<rparr>"
      using assms(3) health by (auto simp: pool_release_def bnd_def gets_def modify_def)
    have ext: "extra_lease cfg pid K (remove1 h H) (?s, ?t) w1" using handle_out [OF ok1 assms(2)] pooled by simp
    have "mset ((?s, ?t) # lease_list w1 (remove1 h H)) = mset (lease_list w' (remove1 h H))"
      using run by (simp add: lease_list_def)
    from leases_ok_perm [OF this, of cfg pid K] ext run show ?thesis by (simp add: extra_lease_def pool_ok_def)
  next
    case False
    then have "pool_discard cfg True h w1 = (r, w')"
      using assms(3) health by (auto simp: pool_release_def bnd_def gets_def)
    from pool_discard_ok [OF ok1 assms(2) this] show ?thesis by (cases r) auto
  qed
qed

lemma keeps_ok_commands:
  "keeps (pool_ok cfg pid K H) (for_each commands (\<lambda>command.
      bnd (gets (\<lambda>w. po_session (pw_pooled w ! h))) (\<lambda>sid.
      bnd (on_session sid (ssh_run_command (pc_ssh cfg) command)) (\<lambda>(output, elapsed, confirmed).
      bnd (set_timing h (f command elapsed confirmed)) (\<lambda>_. ret (g command output))))))"
  by (intro keeps_intros keeps_ok_session keeps_ok_timing)

lemma pooled_run_ok:
  assumes "pool_ok cfg pid K H w" and "h \<in> set H" and "pooled_run_commands cfg h commands w = (r, w')"
  shows "case r of
      Inr results \<Rightarrow> pool_ok cfg pid K H w' \<and> map out_command results = commands
    | Inl e \<Rightarrow> pool_ok cfg pid K (if is_exception e then remove1 h H else H) w'"
proof -
  let ?loop = "for_each commands (\<lambda>command.
      bnd (gets (\<lambda>w. po_session (pw_pooled w ! h))) (\<lambda>sid.
      bnd (on_session sid (ssh_run_command (pc_ssh cfg) command)) (\<lambda>(output, elapsed, confirmed).
      bnd (set_timing h (\<lambda>t. t\<lparr>tm_commands := tm_commands t @ [(command, elapsed, confirmed)]\<rparr>)) (\<lambda>_.
      ret \<lparr>out_command = command, out_output = output\<rparr>))))"
  obtain r1 w1 where loop: "?loop w = (r1, w1)" by (cases "?loop w") simp
  have ok1: "pool_ok cfg pid K H w1" by (rule keepsD [OF keeps_ok_commands loop assms(1)])
  show ?thesis
  proof (cases r1)
    case (Inr results)
    have "map out_command results = map (\<lambda>c. c) commands"
      by (rule for_each_map [OF loop [unfolded Inr]]) (auto simp: bnd_eq_Inr ret_run)
    moreover have "r = Inr results \<and> w' = w1"
      using assms(3) loop Inr by (auto simp: pooled_run_commands_def catch_when_def)
    ultimately show ?thesis using ok1 by simp
  next
    case (Inl e)
    show ?thesis
    proof (cases "is_exception e")
      case False
      then have "r = Inl e \<and> w' = w1" using assms(3) loop Inl by (auto simp: pooled_run_commands_def catch_when_def)
      then show ?thesis using ok1 False by simp
    next
      case True
      obtain r2 w2 where timing: "set_timing h (\<lambda>t. t\<lparr>tm_error := Some (exn_type_name e @ '': '' @ exn_text e)\<rparr>) w1 = (r2, w2)"
        by (metis surj_pair)
      then have r2: "r2 = Inr ()" by (simp add: set_timing_def modify_def)
      have ok2: "pool_ok cfg pid K H w2" by (rule keepsD [OF keeps_ok_timing timing ok1])
      obtain r3 w3 where disc: "pool_discard cfg False h w2 = (r3, w3)" by (metis surj_pair)
      from pool_discard_ok [OF ok2 assms(2) disc] have ok3: "r3 = Inr ()" "pool_ok cfg pid K (remove1 h H) w3"
        by (cases r3; simp)+
      have handler: "bnd (set_timing h (\<lambda>t. t\<lparr>tm_error := Some (exn_type_name e @ '': '' @ exn_text e)\<rparr>)) (\<lambda>_.
          bnd (pool_discard cfg False h) (\<lambda>_. throw e)) w1 = (Inl e :: cli_command_output list result, w3)"
        by (simp only: bnd_def timing r2 disc ok3(1) prod.case sum.case throw_run)
      have "r = Inl e \<and> w' = w3"
        using assms(3) loop Inl True handler by (auto simp: pooled_run_commands_def catch_when_def)
      then show ?thesis using ok3 True by simp
    qed
  qed
qed

lemma leases_ok_leaks: "leases_ok cfg pid K (l @ L) n d \<Longrightarrow> leases_ok cfg pid (K \<union> snd ` set l) L n d"
proof -
  assume ok: "leases_ok cfg pid K (l @ L) n d"
  have "snd ` set (l @ L) \<union> K = snd ` set L \<union> (K \<union> snd ` set l)" by auto
  with ok show ?thesis by (auto simp: leases_ok_def)
qed

lemma close_loop_ok:
  assumes "pool_ok cfg pid K H (w\<lparr>pw_idle := l @ pw_idle w\<rparr>)"
    and "for_each l (close_idle cfg) w = (r, w')"
  shows "\<exists>K'. pool_ok cfg pid K' H w' \<and> (is_ok r \<longrightarrow> K' = K)"
  using assms
proof (induction l arbitrary: w r)
  case Nil
  then show ?case by (auto simp: ret_def)
next
  case (Cons x l)
  obtain s t where x: "x = (s, t)" by (cases x)
  obtain r1 w1 where close: "on_session s (ssh_close (pc_ssh cfg) True) w = (r1, w1)" by (metis surj_pair)
  have core: "lease_core w1 = lease_core w" using keepsD [OF keeps_core_session [where c = "lease_core w"] close] by simp
  have pending: "pool_ok cfg pid K H (w1\<lparr>pw_idle := (s, t) # l @ pw_idle w1\<rparr>)"
    by (rule pool_ok_core [OF _ Cons.prems(1)]) (use core in \<open>simp add: lease_core_def x\<close>)
  then have ok: "leases_ok cfg pid K (((s, t) # l) @ lease_list w1 H) (length (pw_sessions w1)) (pw_dir w1)"
    "\<forall>h \<in> set H. h < length (pw_pooled w1)"
    by (simp_all add: pool_ok_def lease_list_def)
  show ?case
  proof (cases r1)
    case (Inl e)
    then have "r = Inl e \<and> w' = w1" using Cons.prems(2) close by (auto simp: x close_idle_def bnd_def)
    then show ?thesis using leases_ok_leaks [OF ok(1)] ok(2) by (auto simp: pool_ok_def)
  next
    case (Inr secs)
    obtain d where rel: "token_release (Some t) (pw_dir w1) = (Inr (), d)" by (simp add: token_release_def modify_def)
    let ?w2 = "w1\<lparr>pw_dir := d\<rparr>"
    have "leases_ok cfg pid K (l @ lease_list w1 H) (length (pw_sessions w1)) d"
      using leases_ok_release [OF _ rel] ok(1) by simp
    then have next': "pool_ok cfg pid K H (?w2\<lparr>pw_idle := l @ pw_idle ?w2\<rparr>)"
      using ok(2) by (simp add: pool_ok_def lease_list_def)
    have one: "close_idle cfg x w = (Inr (), ?w2)"
      using close Inr rel by (simp add: x close_idle_def bnd_def on_dir_def)
    obtain r2 where rest: "for_each l (close_idle cfg) ?w2 = (r2, w')" and r2: "is_ok r \<longrightarrow> is_ok r2"
      using Cons.prems(2) one
      by (auto simp: bnd_def ret_def is_ok_def split: prod.splits sum.splits)
    from Cons.IH [OF next' rest] r2 show ?thesis by blast
  qed
qed

lemma pool_close_all_ok:
  assumes "pool_ok cfg pid K H w" and "pool_close_all cfg w = (r, w')"
  shows "\<exists>K'. pool_ok cfg pid K' H w' \<and> (is_ok r \<longrightarrow> K' = K)"
proof -
  let ?w0 = "w\<lparr>pw_idle := []\<rparr>"
  have "pool_ok cfg pid K H (?w0\<lparr>pw_idle := pw_idle w @ pw_idle ?w0\<rparr>)" using assms(1) by simp
  moreover obtain r1 where "for_each (pw_idle w) (close_idle cfg) ?w0 = (r1, w')"
    and "is_ok r \<longrightarrow> is_ok r1"
    using assms(2) by (auto simp: pool_close_all_def bnd_def gets_def modify_def ret_def is_ok_def split: prod.splits sum.splits)
  ultimately show ?thesis using close_loop_ok by blast
qed

section \<open>Lemmas: one use of the pool\<close>

abbreviation pool_error :: "nat \<Rightarrow> pool_world \<Rightarrow> string option" where
  "pool_error h w \<equiv> tm_error (po_timing (pw_pooled w ! h))"

lemma new_pooled_error: "tm_error tm = None \<Longrightarrow> triple P (new_pooled s t tm) (\<lambda>h w. pool_error h w = None) E"
  by (simp add: triple_def new_pooled_def)

lemma take_idle_error:
  "triple P (take_idle cfg owner l) (\<lambda>found w. case found of Some h \<Rightarrow> pool_error h w = None | None \<Rightarrow> True) (\<lambda>_ _. True)"
proof (induction l arbitrary: P)
  case (Cons x l)
  obtain s t where x: "x = (s, t)" by (cases x)
  show ?case
    unfolding x take_idle.simps
    apply (rule triple_bnd [OF triple_any], rule triple_bnd [OF triple_any], rule triple_if)
     apply (rule triple_bnd [OF new_pooled_error], simp add: new_timing_def, rule triple_ret, simp)
    apply (rule triple_bnd [OF triple_any], rule triple_bnd [OF triple_any], rule Cons.IH)
    done
qed (simp add: triple_ret)

lemma pool_acquire_error: "triple (\<lambda>_. True) (pool_acquire cfg owner) (\<lambda>h w. pool_error h w = None) (\<lambda>_ _. True)"
proof -
  have some: "triple (\<lambda>w. case found of Some h \<Rightarrow> pool_error h w = None | None \<Rightarrow> True)
      (case found of Some h \<Rightarrow> ret h | None \<Rightarrow> bnd (m :: (pool_world, 'x) act) f) (\<lambda>h w. pool_error h w = None) (\<lambda>_ _. True)"
    if "\<And>x. triple (\<lambda>_. True) (f x) (\<lambda>h w. pool_error h w = None) (\<lambda>_ _. True)" for found m f
    using that by (cases found) (auto intro: triple_ret triple_bnd [OF triple_any])
  show ?thesis
    unfolding pool_acquire_def
    apply (rule triple_bnd [OF triple_any], rule triple_bnd [OF take_idle_error], rule some)
    apply (clarify)
    apply (rule triple_bnd [OF triple_any])+
    apply (rule new_pooled_error)
    apply (simp add: new_timing_def)
    done
qed

lemma keeps_error_session: "keeps (\<lambda>w. pool_error h w = v) (on_session sid m)"
  by (auto simp: keeps_def on_session_def split: prod.split)

lemma keeps_error_commands:
  "keeps (\<lambda>w. h < length (pw_pooled w) \<and> pool_error h w = v) (for_each commands (\<lambda>command.
      bnd (gets (\<lambda>w. po_session (pw_pooled w ! h))) (\<lambda>sid.
      bnd (on_session sid (ssh_run_command (pc_ssh cfg) command)) (\<lambda>(output, elapsed, confirmed).
      bnd (set_timing h (\<lambda>t. t\<lparr>tm_commands := tm_commands t @ [(command, elapsed, confirmed)]\<rparr>)) (\<lambda>_. ret (g command output))))))"
proof -
  have "keeps (\<lambda>w. h < length (pw_pooled w) \<and> pool_error h w = v) (on_session sid m)" for sid and m :: "(ssh_session, 'x) act"
    by (auto simp: keeps_def on_session_def split: prod.split)
  moreover have "keeps (\<lambda>w. h < length (pw_pooled w) \<and> pool_error h w = v)
      (set_timing h (\<lambda>t. t\<lparr>tm_commands := tm_commands t @ [c]\<rparr>))" for c
    by (simp add: keeps_def set_timing_def modify_def)
  ultimately show ?thesis by (intro keeps_intros)
qed

text \<open>After a recorded error the handle has been given up; otherwise it is still held.\<close>

lemma pooled_run_error:
  assumes "pool_error h w = None" and "h < length (pw_pooled w)" and "pooled_run_commands cfg h commands w = (r, w')"
  shows "case r of Inl e \<Rightarrow> (pool_error h w' = None) = (\<not> is_exception e) \<and> pool_error h w' \<noteq> Some []
    | Inr _ \<Rightarrow> pool_error h w' = None"
proof -
  let ?loop = "for_each commands (\<lambda>command.
      bnd (gets (\<lambda>w. po_session (pw_pooled w ! h))) (\<lambda>sid.
      bnd (on_session sid (ssh_run_command (pc_ssh cfg) command)) (\<lambda>(output, elapsed, confirmed).
      bnd (set_timing h (\<lambda>t. t\<lparr>tm_commands := tm_commands t @ [(command, elapsed, confirmed)]\<rparr>)) (\<lambda>_.
      ret \<lparr>out_command = command, out_output = output\<rparr>))))"
  let ?handler = "\<lambda>e. bnd (set_timing h (\<lambda>t. t\<lparr>tm_error := Some (exn_type_name e @ '': '' @ exn_text e)\<rparr>)) (\<lambda>_.
      bnd (pool_discard cfg False h) (\<lambda>_. throw e)) :: (pool_world, cli_command_output list) act"
  let ?I = "\<lambda>w. h < length (pw_pooled w) \<and> pool_error h w = None"
  let ?set = "\<lambda>w. h < length (pw_pooled w) \<and> (\<exists>x. pool_error h w = Some x \<and> x \<noteq> [])"
  have keep_set: "keeps ?set (on_session sid m)" for sid and m :: "(ssh_session, 'x) act"
    by (auto simp: keeps_def on_session_def split: prod.split)
  have disc: "keeps ?set (pool_discard cfg False h)"
  proof -
    have "keeps ?set (set_timing h (\<lambda>t. t\<lparr>tm_logout := tm_logout t + x, tm_closed := True\<rparr>))" for x
      by (simp add: keeps_def set_timing_def modify_def)
    moreover have "keeps ?set (on_dir m)" for m :: "(token_dir, unit) act"
      by (auto simp: keeps_def on_dir_def split: prod.split)
    ultimately show ?thesis unfolding pool_discard_def by (intro keeps_intros keep_set)
  qed
  have handler: "triple ?I (?handler e) (\<lambda>_ _. False) (\<lambda>e' w. e' = e \<and> ?set w)" for e
  proof -
    have set_error: "triple ?I (set_timing h (\<lambda>t. t\<lparr>tm_error := Some (exn_type_name e @ '': '' @ exn_text e)\<rparr>)) (\<lambda>_. ?set) E" for E
      by (simp add: triple_def set_timing_def modify_def)
    have discard: "triple ?set (pool_discard cfg False h) (\<lambda>_. ?set) (\<lambda>_ _. False)"
    proof (rule tripleI)
      fix s x s' assume "?set s" "pool_discard cfg False h s = (Inr x, s')"
      then show "?set s'" using keepsD [OF disc] by blast
    next
      fix s e' s' assume "pool_discard cfg False h s = (Inl e', s')"
      moreover obtain secs s1 where "on_session (po_session (pw_pooled s ! h)) (ssh_close (pc_ssh cfg) False) s = (Inr secs, s1)"
        using on_session_Inr [of "ssh_close (pc_ssh cfg) False" s, OF quiet_close] by blast
      ultimately show False
        by (simp add: pool_discard_def bnd_def gets_def set_timing_def modify_def on_dir_def token_release_def)
    qed
    show ?thesis
      by (rule triple_bnd [OF set_error], rule triple_bnd [OF triple_conseq [OF discard, where Q = "\<lambda>_. ?set" and P = ?set]])
        (auto intro: triple_throw)
  qed
  have "triple ?I (pooled_run_commands cfg h commands) (\<lambda>_. ?I)
      (\<lambda>e w. if is_exception e then ?set w else ?I w)"
    unfolding pooled_run_commands_def
    by (rule triple_catch [OF keeps_error_commands [unfolded keeps_triple]], rule triple_conseq [OF handler]) auto
  from triple_run [OF this _ assms(3)] assms(1,2) show ?thesis
    by (auto split: sum.splits if_splits)
qed

text \<open>One use of the pool: on success nothing is leaked, every command was answered in order, and the handle is given up;
  on failure the handle is given up too.\<close>

lemma pool_run_ok:
  assumes "pool_ok cfg pid K H w" and "pool_run_commands cfg commands owner w = (r, w')"
  shows "case r of
      Inr (results, timing) \<Rightarrow> pool_ok cfg pid K H w' \<and> map out_command results = commands
    | Inl e \<Rightarrow> \<exists>K'. pool_ok cfg pid K' H w'"
proof -
  obtain r1 w1 where acq: "pool_acquire cfg owner w = (r1, w1)" by (metis surj_pair)
  note ok1 = pool_acquire_ok [OF assms(1) acq]
  show ?thesis
  proof (cases r1)
    case (Inl e)
    then have "r = Inl e \<and> w' = w1" using assms(2) acq by (auto simp: pool_run_commands_def with_pooled_def bnd_def)
    then show ?thesis using ok1 Inl by auto
  next
    case (Inr h)
    then have ok: "pool_ok cfg pid K (h # H) w1" using ok1 by simp
    have err: "pool_error h w1 = None" using triple_Inr [OF pool_acquire_error _ acq [unfolded Inr]] by simp
    have len: "h < length (pw_pooled w1)" using ok by (simp add: pool_ok_def)
    let ?final = "bnd (gets (\<lambda>w. pool_error h w)) (\<lambda>error. if error = None \<or> error = Some [] then pool_release cfg h else ret ())"
    obtain r2 w2 where run: "pooled_run_commands cfg h commands w1 = (r2, w2)" by (metis surj_pair)
    obtain r3 w3 where final: "?final w2 = (r3, w3)" by (cases "?final w2") simp
    note run_ok = pooled_run_ok [OF ok _ run, simplified] and run_err = pooled_run_error [OF err len run]
    have body: "bnd (pooled_run_commands cfg h commands) (\<lambda>results. ret (results, h)) w1 = (map_sum id (\<lambda>rs. (rs, h)) r2, w2)"
      using run by (cases r2) (simp_all add: bnd_def ret_def)
    have tried: "try_finally (bnd (pooled_run_commands cfg h commands) (\<lambda>results. ret (results, h))) ?final w1 =
        (case r3 of Inl e \<Rightarrow> Inl e | Inr y \<Rightarrow> (case map_sum id (\<lambda>rs. (rs, h)) r2 of Inl e \<Rightarrow> Inl e | Inr x \<Rightarrow> Inr (x, y)), w3)"
      by (cases r3) (simp_all only: try_finally_def body final prod.case sum.case)
    have used: "with_pooled cfg owner (\<lambda>h. bnd (pooled_run_commands cfg h commands) (\<lambda>results. ret (results, h))) w =
        (case r3 of Inl e \<Rightarrow> Inl e | Inr _ \<Rightarrow> map_sum id (\<lambda>rs. (rs, h)) r2, w3)"
      unfolding with_pooled_def bnd_def [of "pool_acquire cfg owner"] acq Inr prod.case sum.case
      unfolding bnd_def [of "try_finally _ _"] tried
      by (cases r2; cases r3) (simp_all add: ret_def)
    have outcome: "w' = w3 \<and> (case (r2, r3) of
        (_, Inl e) \<Rightarrow> r = Inl e | (Inl e, Inr _) \<Rightarrow> r = Inl e | (Inr rs, Inr _) \<Rightarrow> \<exists>tm. r = Inr (rs, tm))"
      using assms(2) unfolding pool_run_commands_def bnd_def [of "with_pooled _ _ _"] used
      by (cases r2; cases r3) (auto simp: bnd_def gets_def ret_def)
    show ?thesis
    proof (cases r2)
      case r2: (Inr rs)
      have rel: "pool_release cfg h w2 = (r3, w3)" using final run_err r2 by (simp add: bnd_def gets_def)
      from pool_release_ok [OF _ _ rel, of pid K "h # H"] run_ok r2 outcome show ?thesis
        by (cases r3) auto
    next
      case r2: (Inl e)
      show ?thesis
      proof (cases "is_exception e")
        case True
        then have "r3 = Inr () \<and> w3 = w2" using final run_err r2 by (auto simp: bnd_def gets_def ret_def)
        then show ?thesis using outcome r2 run_ok True by auto
      next
        case False
        then have rel: "pool_release cfg h w2 = (r3, w3)" using final run_err r2 by (simp add: bnd_def gets_def)
        from pool_release_ok [OF _ _ rel, of pid K "h # H"] run_ok r2 False outcome show ?thesis
          by (cases r3) auto
      qed
    qed
  qed
qed

section \<open>The transport\<close>

lemma pooled_order: "pooled_run_commands cfg h commands w = (Inr results, w') \<Longrightarrow> map out_command results = commands"
proof -
  assume run: "pooled_run_commands cfg h commands w = (Inr results, w')"
  let ?loop = "for_each commands (\<lambda>command.
      bnd (gets (\<lambda>w. po_session (pw_pooled w ! h))) (\<lambda>sid.
      bnd (on_session sid (ssh_run_command (pc_ssh cfg) command)) (\<lambda>(output, elapsed, confirmed).
      bnd (set_timing h (\<lambda>t. t\<lparr>tm_commands := tm_commands t @ [(command, elapsed, confirmed)]\<rparr>)) (\<lambda>_.
      ret \<lparr>out_command = command, out_output = output\<rparr>))))"
  have "catch_when is_exception ?loop (\<lambda>e. bnd (set_timing h (\<lambda>t. t\<lparr>tm_error := Some (exn_type_name e @ '': '' @ exn_text e)\<rparr>)) (\<lambda>_.
      bnd (pool_discard cfg False h) (\<lambda>_. throw e))) w = (Inr results, w')"
    using run by (simp only: pooled_run_commands_def)
  then have "?loop w = (Inr results, w')"
    by (simp only: bnd_assoc [symmetric] catch_rethrow_Inr)
  then have "map out_command results = map (\<lambda>c. c) commands"
    by (rule for_each_map) (auto simp: bnd_eq_Inr ret_run)
  then show ?thesis by simp
qed

lemma pool_run_order: "pool_run_commands cfg commands owner w = (Inr (results, tm), w') \<Longrightarrow> map out_command results = commands"
  by (auto simp: pool_run_commands_def with_pooled_def bnd_eq_Inr ret_run dest!: finally_Inr pooled_order)

definition ssh_transport :: "pool_request \<Rightarrow> pools_world transport" where
  "ssh_transport req rw commands owner = ssh_transport_run req commands owner rw"

lemma on_pool_run: "on_pool n m rw = (r, rw') \<Longrightarrow> \<exists>cfg w w'. m cfg w = (r, w')"
  unfolding on_pool_def case_prod_beta by (metis prod.collapse prod.inject)

lemma ssh_transport_order:
  assumes "ssh_transport req rw commands owner = (Inr outs, rw')"
  shows "map out_command outs = commands"
proof -
  obtain n rw1 tm where "on_pool n (\<lambda>cfg. pool_run_commands cfg commands (transport_owner (pq_node req) commands owner)) rw1 =
      (Inr (outs, tm), rw')"
    using assms by (auto simp: ssh_transport_def ssh_transport_run_def bnd_eq_Inr ret_run)
  from on_pool_run [OF this] pool_run_order show ?thesis by blast
qed

interpretation ssh: cli_transport "ssh_transport req" for req
  by unfold_locales (rule ssh_transport_order)

section \<open>Properties\<close>

text \<open>Clients of one pool: \<open>H\<close> are the pooled sessions handed out and not yet given back.\<close>

inductive pool_reachable :: "pool_config \<Rightarrow> nat list \<Rightarrow> pool_world \<Rightarrow> bool" for cfg where
  fresh: "pw_idle w = [] \<Longrightarrow> owns pid {} (pw_dir w) \<Longrightarrow> pool_reachable cfg [] w"
| acquired: "pool_reachable cfg H w \<Longrightarrow> pool_acquire cfg owner w = (Inr h, w') \<Longrightarrow> pool_reachable cfg (h # H) w'"
| refused: "pool_reachable cfg H w \<Longrightarrow> pool_acquire cfg owner w = (Inl e, w') \<Longrightarrow> pool_reachable cfg H w'"
| used: "pool_reachable cfg H w \<Longrightarrow> h \<in> set H \<Longrightarrow> pooled_run_commands cfg h commands w = (r, w') \<Longrightarrow>
    pool_reachable cfg (case r of Inl e \<Rightarrow> if is_exception e then remove1 h H else H | Inr _ \<Rightarrow> H) w'"
| released: "pool_reachable cfg H w \<Longrightarrow> h \<in> set H \<Longrightarrow> pool_release cfg h w = (r, w') \<Longrightarrow> pool_reachable cfg (remove1 h H) w'"
| ran: "pool_reachable cfg H w \<Longrightarrow> pool_run_commands cfg commands owner w = (r, w') \<Longrightarrow> pool_reachable cfg H w'"
| closed: "pool_reachable cfg H w \<Longrightarrow> pool_close_all cfg w = (r, w') \<Longrightarrow> pool_reachable cfg H w'"

lemma pool_reachable_ok: "pool_reachable cfg H w \<Longrightarrow> \<exists>pid K. pool_ok cfg pid K H w"
proof (induction rule: pool_reachable.induct)
  case (fresh w pid)
  then have "pool_ok cfg pid {} [] w" by (simp add: pool_ok_def leases_ok_def lease_list_def)
  then show ?case by blast
next
  case (acquired H w owner h w')
  then show ?case using pool_acquire_ok by fastforce
next
  case (refused H w owner e w')
  then show ?case using pool_acquire_ok by fastforce
next
  case (used H w h commands r w')
  then obtain pid K where "pool_ok cfg pid K H w" by blast
  from pooled_run_ok [OF this used(2,3)]
  have "pool_ok cfg pid K (case r of Inl e \<Rightarrow> if is_exception e then remove1 h H else H | Inr _ \<Rightarrow> H) w'"
    by (cases r) simp_all
  then show ?case by blast
next
  case (released H w h r w')
  then obtain pid K where "pool_ok cfg pid K H w" by blast
  from pool_release_ok [OF this released(2,3)] show ?case by (cases r) auto
next
  case (ran H w commands owner r w')
  then obtain pid K where "pool_ok cfg pid K H w" by blast
  from pool_run_ok [OF this ran(2)] show ?case by (cases r) auto
next
  case (closed H w r w')
  then show ?case using pool_close_all_ok by blast
qed

definition demo_pool :: "bool \<Rightarrow> pool_config" where
  "demo_pool reuse =
     \<lparr>pc_node = ''n'', pc_host = ''h'', pc_username = ''u'', pc_password = ''p'', pc_sem = demo_semaphore 1, pc_ssh = demo_ssh,
      pc_reuse = reuse, pc_fresh = (\<lambda>_. new_ssh_session demo_link []), pc_session_id = (\<lambda>_. ''s'')\<rparr>"

definition demo_pool_world :: pool_world where
  "demo_pool_world =
     \<lparr>pw_dir = demo_tokens\<lparr>td_others := []\<rparr>\<lparr>td_files := []\<rparr>, pw_sessions = [], pw_idle = [], pw_pooled = []\<rparr>"

lemma demo_pool_reachable: "pool_reachable cfg [] demo_pool_world"
  by (rule pool_reachable.fresh [where pid = 5])
    (simp_all add: demo_pool_world_def demo_tokens_def owns_def dict_ok_def polite_def dict_get_def)

definition own_files :: "token_dir \<Rightarrow> string set" where
  "own_files d = {f. \<exists>t. dict_get (td_files d) f = Some t \<and> names_pid (td_pid d) t}"

lemma own_files_leases: "pool_ok cfg pid K [] w \<Longrightarrow> own_files (pw_dir w) = snd ` set (pw_idle w) \<union> K \<and> K \<inter> snd ` set (pw_idle w) = {}"
  by (auto simp: pool_ok_def leases_ok_def lease_list_def owns_def own_files_def)

text \<open>C39. However clients acquire sessions, use them, give them back, fail and close the pool, and whatever the servers
  and the polite other processes do, the sessions that are idle or handed out are never more than \<open>max_sessions\<close>, no
  session is in two hands, and each has a token file of its own that names this process.\<close>

theorem pool_sessions_bounded:
  assumes "pool_reachable cfg H w"
  shows "int (length (lease_list w H)) \<le> max 0 (sem_max (pc_sem cfg)) \<and>
    distinct (map fst (lease_list w H)) \<and> distinct (map snd (lease_list w H)) \<and>
    (\<forall>f \<in> snd ` set (lease_list w H). \<exists>t. dict_get (td_files (pw_dir w)) f = Some t \<and> names_pid (td_pid (pw_dir w)) t)"
proof -
  obtain pid K where ok: "leases_ok cfg pid K (lease_list w H) (length (pw_sessions w)) (pw_dir w)"
    using pool_reachable_ok [OF assms] by (auto simp: pool_ok_def)
  have "length (lease_list w H) \<le> nat (sem_max (pc_sem cfg))" by (rule leases_bound [OF ok])
  then have "int (length (lease_list w H)) \<le> max 0 (sem_max (pc_sem cfg))" by linarith
  moreover have "\<exists>t. dict_get (td_files (pw_dir w)) f = Some t \<and> names_pid (td_pid (pw_dir w)) t"
    if "f \<in> snd ` set (lease_list w H)" for f
    using ok that by (auto simp: leases_ok_def owns_def)
  ultimately show ?thesis using ok by (simp add: leases_ok_def)
qed

lemma pool_sessions_bounded_witness:
  "pw_idle (snd (pool_run_commands (demo_pool True) [''v''] ''o'' demo_pool_world)) = [(0, ''n.0.token'')] \<and>
   distinct (map fst (lease_list (snd (pool_run_commands (demo_pool True) [''v''] ''o'' demo_pool_world)) []))"
proof
  show "pw_idle (snd (pool_run_commands (demo_pool True) [''v''] ''o'' demo_pool_world)) = [(0, ''n.0.token'')]" by code_simp
  have "pool_reachable (demo_pool True) [] (snd (pool_run_commands (demo_pool True) [''v''] ''o'' demo_pool_world))"
    by (rule pool_reachable.ran [OF demo_pool_reachable prod.collapse [symmetric]])
  from pool_sessions_bounded [OF this]
  show "distinct (map fst (lease_list (snd (pool_run_commands (demo_pool True) [''v''] ''o'' demo_pool_world)) []))" by simp
qed

text \<open>C40. A successful \<open>run_commands\<close> answers every command in order and leaks nothing: if before it the token files of
  this process were exactly those of the idle sessions, they are so again.\<close>

theorem pool_run_commands_returns:
  assumes "pool_reachable cfg [] w" and "own_files (pw_dir w) = snd ` set (pw_idle w)"
    and "pool_run_commands cfg commands owner w = (Inr (results, timing), w')"
  shows "map out_command results = commands \<and> own_files (pw_dir w') = snd ` set (pw_idle w')"
proof -
  obtain pid K where ok: "pool_ok cfg pid K [] w" using pool_reachable_ok [OF assms(1)] by blast
  have "K = {}" using own_files_leases [OF ok] assms(2) by blast
  with pool_run_ok [OF ok assms(3)] have after: "pool_ok cfg pid {} [] w'" and "map out_command results = commands" by simp_all
  with own_files_leases [OF after] show ?thesis by simp
qed

lemma pool_run_commands_returns_witness:
  "\<exists>results timing. fst (pool_run_commands (demo_pool False) [''v''] ''o'' demo_pool_world) = Inr (results, timing) \<and>
     map out_command results = [''v''] \<and>
     own_files (pw_dir (snd (pool_run_commands (demo_pool False) [''v''] ''o'' demo_pool_world))) = {}"
proof -
  let ?run = "pool_run_commands (demo_pool False) [''v''] ''o'' demo_pool_world"
  have ok: "is_ok (fst ?run)" and idle: "pw_idle (snd ?run) = []" by code_simp+
  then obtain results timing where run: "fst ?run = Inr (results, timing)" by (auto simp: is_ok_iff)
  then have "?run = (Inr (results, timing), snd ?run)" by (metis prod.collapse)
  moreover have "own_files (pw_dir demo_pool_world) = snd ` set (pw_idle demo_pool_world)"
    by (simp add: own_files_def demo_pool_world_def demo_tokens_def dict_get_def)
  ultimately show ?thesis using pool_run_commands_returns [OF demo_pool_reachable] run idle by fastforce
qed

text \<open>When the logout of a session that is given back fails, its token file stays although nobody holds it.\<close>

definition failing_logout :: pool_config where
  "failing_logout = (demo_pool False)\<lparr>pc_fresh := (\<lambda>_. new_ssh_session
     (demo_link\<lparr>lk_connects := [], lk_faults := [None, None, Some (OSError None ''Socket is closed'')]\<rparr>) [])\<rparr>"

lemma failing_logout_leaks:
  "fst (pool_run_commands failing_logout [''v''] ''o'' demo_pool_world) = Inl (OSError None ''Socket is closed'') \<and>
   map fst (td_files (pw_dir (snd (pool_run_commands failing_logout [''v''] ''o'' demo_pool_world)))) = [''n.0.token''] \<and>
   pw_idle (snd (pool_run_commands failing_logout [''v''] ''o'' demo_pool_world)) = []"
  by (intro conjI; code_simp)

text \<open>The key of a pool does not hold the password, so a request with another one gets the pool that has the first.\<close>

lemma pool_key_ignores_password: "pool_key (req\<lparr>pq_password := p\<rparr>) n reuse = pool_key req n reuse"
  by (simp add: pool_key_def)

end
