(* ===== verification/ToolSupport.thy ===== *)
theory ToolSupport
  imports FileTransfer Redaction
begin

text \<open>
  What the command line tools under \<open>tools/\<close> have in common: the environment variables, the clock's texts, the
  files they read and the JSON report they write, and the \<open>except Exception as caught\<close> around their operation.
  The decoding of a file's bytes as UTF-8 text with universal newlines is a parameter.
\<close>

section \<open>The process around a tool\<close>

record tool_env =
  te_getenv :: "string \<Rightarrow> string option"
  te_decode :: "string \<Rightarrow> string result"
  te_float_text :: "pyfloat \<Rightarrow> string"
  te_timestamp :: string               \<comment> \<open>\<open>datetime.now().isoformat(...)\<close>\<close>
  te_stamp :: string                   \<comment> \<open>the \<open>strftime\<close> part of the report's name\<close>

text \<open>\<open>str.upper()\<close> on ASCII text.\<close>

definition upper_ascii :: "string \<Rightarrow> string" where
  "upper_ascii s = map (\<lambda>c. if is_lower_ascii c then char_of (code_point c - 32) else c) s"

text \<open>\<open>os.environ.get(name)\<close>, where an empty value counts as missing.\<close>

definition required_variable :: "tool_env \<Rightarrow> string \<Rightarrow> string \<Rightarrow> string result" where
  "required_variable env message name =
     (if some_text (te_getenv env name) then Inr (text_of (te_getenv env name))
      else Inl (SystemExit (message @ name)))"

text \<open>\<open>Path(name).read_text(encoding="utf-8")\<close>\<close>

definition read_file :: "tool_env \<Rightarrow> string \<Rightarrow> (disk, string) act" where
  "read_file env name = (let path = path_str (parse_path name) in disk_op (
     bnd (gets (\<lambda>d. dk_files d path)) (\<lambda>content. case content of
         None \<Rightarrow> throw (file_missing path)
       | Some bytes \<Rightarrow> lift (te_decode env bytes))))"

definition read_optional :: "tool_env \<Rightarrow> string option \<Rightarrow> (disk, string option) act" where
  "read_optional env name =
     (if some_text name then bnd (read_file env (text_of name)) (\<lambda>t. ret (Some t)) else ret None)"

text \<open>\<open>try: ... except Exception as caught: error = caught\<close>\<close>

definition capture :: "('s, 'a) act \<Rightarrow> ('s, 'a result) act" where
  "capture m = catch_when is_exception (bnd m (\<lambda>x. ret (Inr x))) (\<lambda>e. ret (Inl e))"

section \<open>Reports\<close>

definition caught :: "'a result \<Rightarrow> exn option" where
  "caught r = (case r of Inl e \<Rightarrow> Some e | Inr _ \<Rightarrow> None)"

definition error_type :: "exn option \<Rightarrow> pyval" where
  "error_type error = opt_str (map_option exn_type_name error)"

definition safe_error_message :: "exn option \<Rightarrow> pyval" where
  "safe_error_message error =
     opt_str (map_option (\<lambda>_. ''operation failed; inspect error_type and trusted local diagnostics'') error)"

text \<open>\<open>report_dir / f"{tool}_{timestamp}.json"\<close>\<close>

definition report_path :: "tool_env \<Rightarrow> string \<Rightarrow> string \<Rightarrow> posix_path" where
  "report_path env report_dir tool = path_child (parse_path report_dir) (tool @ ''_'' @ te_stamp env @ ''.json'')"

definition write_json_report :: "tool_env \<Rightarrow> string \<Rightarrow> string \<Rightarrow> pyval \<Rightarrow> (disk, posix_path) act" where
  "write_json_report env report_dir tool payload =
     (let path = report_path env report_dir tool in
      bnd (mkdir_parents (path_str (parse_path report_dir))) (\<lambda>_.
      bnd (lift (json_dumps (te_float_text env) payload)) (\<lambda>content.
      bnd (write_text (path_str path) content) (\<lambda>_. ret path))))"

definition truncate_text :: "string \<Rightarrow> int \<Rightarrow> string" where
  "truncate_text value max_chars =
     (if int (length value) \<le> max_chars then value
      else take (nat max_chars) value @ ''...<truncated '' @ str_of_int (int (length value) - max_chars) @ '' chars>'')"

section \<open>Lemmas\<close>

lemma required_variable_iff:
  "required_variable env message name = Inr v \<longleftrightarrow> te_getenv env name = Some v \<and> v \<noteq> []"
  by (auto simp: required_variable_def some_text_def text_of_def split: option.splits)

lemma keeps_bnd_lift: "(\<And>x. r = Inr x \<Longrightarrow> keeps I (f x)) \<Longrightarrow> keeps I (bnd (lift r) f)"
  by (cases r) (auto intro: keeps_throw)

lemma keeps_Let [keeps_intros]: "(\<And>x. keeps I (f x)) \<Longrightarrow> keeps I (let x = v in f x)"
  by simp

lemma keeps_capture [keeps_intros]: "keeps I m \<Longrightarrow> keeps I (capture m)"
  unfolding capture_def by (intro keeps_intros)

lemma capture_eq:
  "capture m s = (Inr r, s') \<longleftrightarrow> m s = (r, s') \<and> (case r of Inl e \<Rightarrow> is_exception e | Inr _ \<Rightarrow> True)"
  by (cases "m s"; cases "fst (m s)") (auto simp: capture_def catch_when_def bnd_def ret_def)

text \<open>A tool reads files without touching any, and its report is one file.\<close>

lemma keeps_read_file [touch_rules]: "keeps (only_touches A files) (read_file env name)"
  unfolding read_file_def Let_def by (intro touch_rules keeps_intros)

lemma keeps_read_optional [touch_rules]: "keeps (only_touches A files) (read_optional env name)"
  unfolding read_optional_def by (intro touch_rules keeps_intros)

lemma keeps_write_json_report [touch_rules]:
  "path_str (report_path env report_dir tool) \<in> A \<Longrightarrow>
   keeps (only_touches A files) (write_json_report env report_dir tool payload)"
  unfolding write_json_report_def Let_def by (intro touch_rules keeps_intros)

text \<open>Reports are JSON: redaction keeps them so, and then only the disk can make writing fail.\<close>

lemma serializable_obj: "serializable (obj items) \<longleftrightarrow> list_all (serializable \<circ> snd) items"
  by (induction items) (auto simp: obj_def)

lemma serializable_texts [simp]:
  "serializable (str_list xs)" "serializable (opt_str v)" "serializable (error_type e)" "serializable (safe_error_message e)"
  by (simp_all add: str_list_def opt_str_def error_type_def safe_error_message_def list_all_iff split: option.split)

lemma serializable_set_item: "serializable v \<Longrightarrow> serializable x \<Longrightarrow> serializable (set_item v key x)"
proof (cases v)
  case (PDict d)
  assume "serializable v" "serializable x"
  then have "list_all (\<lambda>(k, v). json_key (\<lambda>_. []) k \<noteq> None \<and> serializable v) (AList.update (PStr key) x d)"
    unfolding PDict serializable.simps by (induction d) auto
  then show ?thesis by (simp add: PDict)
qed simp_all

lemma serializable_redact: "serializable v \<Longrightarrow> serializable (redact ft v)"
  by (induction ft v rule: redact.induct) (auto simp: list_all_iff)

text \<open>Reading an entry of a redacted report.\<close>

lemma get_redacted:
  "map_of (map (\<lambda>(k, v). (PStr k, v)) items) (PStr key) = Some v \<Longrightarrow> \<not> is_sensitive_key key \<Longrightarrow>
   get_item (redact ft (obj items)) key = Inr (redact ft v)"
  by (induction items) (auto simp: obj_def str_val_def split: if_splits)

lemma set_item_obj: "key \<notin> fst ` set items \<Longrightarrow> set_item (obj items) key v = obj (items @ [(key, v)])"
  by (induction items) (auto simp: obj_def)

lemma public_keys:
  "\<not> is_sensitive_key ''passed''" "\<not> is_sensitive_key ''error_message''" "\<not> is_sensitive_key ''error_type''"
  "\<not> is_sensitive_key ''outcome''" "\<not> is_sensitive_key ''security''"
  by code_simp+

lemma length_truncate_text:
  assumes "0 \<le> max_chars"
  shows "take (nat max_chars) (truncate_text value max_chars) = take (nat max_chars) value"
  using assms by (auto simp: truncate_text_def min_def)

end
