(* ===== verification/NetconfTool.thy ===== *)
theory NetconfTool
  imports Netconf Policy ToolSupport
begin

text \<open>
  The NETCONF command, \<open>tools/cli_tool_netconf_test.py\<close>, with the plan and the gates of
  \<open>cli_tool/workflows/netconf_edit.py\<close>. The parsed arguments are a record; the server is the environment of
  \<open>Netconf\<close> and the local files are those of \<open>LocalFs\<close>.
\<close>

section \<open>The plan and its gates (workflows/netconf\_edit.py)\<close>

definition live_execution_note :: string where
  "live_execution_note =
     ''Live execution requires --run-mutating together with exact --confirm-node/--confirm-host. '' @
     ''It always targets the candidate datastore behind lock/validate/confirmed-commit, never '' @
     ''running directly, and defaults to a non-finalized (auto-reverting) commit unless '' @
     ''--finalize-commit is explicit.''"

record netconf_edit_plan =
  ep_node_key :: string
  ep_host :: string
  ep_config_xml :: string
  ep_status :: string
  ep_note :: string

definition edit_plan_as_dict :: "netconf_edit_plan \<Rightarrow> pyval" where
  "edit_plan_as_dict plan = obj
     [(''schema_version'', PInt 1),
      (''workflow'', PStr ''netconf_edit_config_requested''),
      (''mode'', PStr ''DRY_RUN''),
      (''target'', obj
        [(''node_key'', PStr (ep_node_key plan)), (''host'', PStr (ep_host plan)),
         (''datastore'', PStr mutation_target)]),
      (''requested_config_xml'', PStr (ep_config_xml plan)),
      (''live_execution'', obj
        [(''status'', PStr (ep_status plan)),
         (''note'', PStr (ep_note plan)),
         (''requires_run_mutating'', PBool True),
         (''requires_exact_node_host_confirmation'', PBool True),
         (''always_targets_candidate'', PBool True),
         (''finalizes_only_if_explicit'', PBool True)])]"

definition build_netconf_edit_plan :: "string \<Rightarrow> string \<Rightarrow> string \<Rightarrow> netconf_edit_plan result" where
  "build_netconf_edit_plan node_key host config_xml =
     and_then (validate_node_key node_key) (\<lambda>_.
     and_then (validate_ip_literal host) (\<lambda>normalized_host.
     and_then (raise_when (blank config_xml) (ValueError ''config_xml is required'')) (\<lambda>_.
     Inr \<lparr>ep_node_key = node_key, ep_host = normalized_host, ep_config_xml = config_xml,
          ep_status = ''AVAILABLE_VIA_RUN_MUTATING'', ep_note = live_execution_note\<rparr>)))"

definition assert_edit_dry_run_confirmation :: "netconf_edit_plan \<Rightarrow> string \<Rightarrow> string \<Rightarrow> unit result" where
  "assert_edit_dry_run_confirmation plan node host =
     authorization_validate \<lparr>expected_node = ep_node_key plan, expected_host = ep_host plan, confirmed_node = node,
       confirmed_host = host, run_mutating = True\<rparr>"

definition assert_live_mutation_authorized ::
  "string \<Rightarrow> string \<Rightarrow> string \<Rightarrow> string \<Rightarrow> bool \<Rightarrow> unit result" where
  "assert_live_mutation_authorized node_key host node confirmed run =
     and_then (validate_node_key node_key) (\<lambda>_.
     and_then (validate_ip_literal host) (\<lambda>normalized_host.
     authorization_validate \<lparr>expected_node = node_key, expected_host = normalized_host, confirmed_node = node,
       confirmed_host = confirmed, run_mutating = run\<rparr>))"

section \<open>Arguments\<close>

record netconf_args =
  na_operation :: string
  na_host :: string
  na_port :: int
  na_username :: "string option"
  na_password_env :: string
  na_timeout :: pyfloat
  na_fingerprint :: "string option"
  na_allow_unknown :: bool
  na_datastore :: "string option"
  na_filter_file :: "string option"
  na_edit_config_file :: "string option"
  na_node_key :: "string option"
  na_confirm_node :: "string option"
  na_confirm_host :: "string option"
  na_run_mutating :: bool
  na_finalize :: bool
  na_confirm_timeout :: "pyfloat option"
  na_verify_filter_file :: "string option"
  na_include_output :: bool
  na_max_output :: int
  na_report_dir :: string
  na_no_report :: bool

definition default_confirm_timeout :: pyfloat where "default_confirm_timeout = Fin 30"

text \<open>\<open>5 <= value <= 600\<close> and \<open>value.is_integer()\<close>\<close>

definition confirm_window :: "pyfloat \<Rightarrow> bool" where
  "confirm_window x = (case x of Fin r \<Rightarrow> 5 \<le> r \<and> r \<le> 600 | _ \<Rightarrow> False)"

definition whole_float :: "pyfloat \<Rightarrow> bool" where
  "whole_float x = (case x of Fin r \<Rightarrow> r = of_int \<lfloor>r\<rfloor> | _ \<Rightarrow> False)"

definition refuse :: "string \<Rightarrow> exn" where "refuse message = SystemExit message"

definition validate_edit_args :: "netconf_args \<Rightarrow> unit result" where
  "validate_edit_args args =
     and_then (raise_when (\<not> (some_text (na_node_key args) \<and> some_text (na_confirm_node args) \<and>
         some_text (na_confirm_host args) \<and> some_text (na_edit_config_file args)))
       (refuse ''edit-config requires --node-key, --confirm-node, --confirm-host and --edit-config-file'')) (\<lambda>_.
     and_then (raise_when (\<not> na_run_mutating args \<and>
         (na_finalize args \<or> na_confirm_timeout args \<noteq> None \<or> some_text (na_verify_filter_file args)))
       (refuse ''--finalize-commit/--confirm-timeout-seconds/--verify-filter-file require --run-mutating'')) (\<lambda>_.
     and_then (raise_when (na_run_mutating args \<and> \<not> some_text (na_username args))
       (refuse ''--run-mutating requires --username to connect'')) (\<lambda>_.
     (case na_confirm_timeout args of
        None \<Rightarrow> Inr ()
      | Some x \<Rightarrow>
          and_then (raise_when (\<not> confirm_window x) (refuse ''--confirm-timeout-seconds must be between 5 and 600'')) (\<lambda>_.
          raise_when (\<not> whole_float x) (refuse ''--confirm-timeout-seconds must be a whole number of seconds''))))))"

definition validate_netconf_args :: "netconf_args \<Rightarrow> unit result" where
  "validate_netconf_args args =
     (let edit = (na_operation args = ''edit-config'') in
      and_then (raise_when (na_port args < 1 \<or> na_port args > 65535) (refuse ''--port must be between 1 and 65535'')) (\<lambda>_.
      and_then (raise_when (float_le_rat (na_timeout args) 0) (refuse ''--timeout must be greater than 0'')) (\<lambda>_.
      and_then (raise_when (na_max_output args < 1) (refuse ''--max-output-chars must be greater than 0'')) (\<lambda>_.
      and_then (raise_when (\<not> edit \<and>
          (some_text (na_confirm_node args) \<or> some_text (na_confirm_host args) \<or> na_run_mutating args \<or>
           some_text (na_edit_config_file args) \<or> na_finalize args \<or> na_confirm_timeout args \<noteq> None \<or>
           some_text (na_verify_filter_file args)))
        (refuse (''--confirm-node/--confirm-host/--run-mutating/--edit-config-file/--finalize-commit/'' @
           ''--confirm-timeout-seconds/--verify-filter-file are only valid for edit-config''))) (\<lambda>_.
      and_then (raise_when (edit \<and> na_datastore args \<noteq> None)
        (refuse ''--datastore is not valid for edit-config; live execution always targets candidate'')) (\<lambda>_.
      and_then (raise_when (na_operation args \<notin> {''get'', ''get-config''} \<and> some_text (na_filter_file args))
        (refuse ''--filter-file is only valid for get/get-config'')) (\<lambda>_.
      if edit then validate_edit_args args
      else raise_when (\<not> some_text (na_username args)) (refuse ''--username is required''))))))))"

section \<open>Payloads\<close>

definition mutation_step_payload :: "netconf_args \<Rightarrow> mutation_step \<Rightarrow> pyval" where
  "mutation_step_payload args step =
     (let payload = obj [(''step'', PStr (step_name step)), (''elapsed_seconds'', PFloat (Fin (round3 (step_elapsed step))))]
      in if na_include_output args
         then set_item payload ''xml'' (PStr (truncate_text (step_xml step) (na_max_output args))) else payload)"

definition operation_outcome :: "netconf_args \<Rightarrow> operation_result \<Rightarrow> pyval" where
  "operation_outcome args result =
     (let outcome = obj [(''elapsed_seconds'', PFloat (Fin (round3 (op_elapsed result))))]
      in if na_include_output args
         then set_item outcome ''xml_output'' (PStr (truncate_text (op_xml result) (na_max_output args))) else outcome)"

definition connect_outcome :: "connect_result \<Rightarrow> pyval" where
  "connect_outcome result = obj
     [(''session_id'', opt_str (con_session_id result)),
      (''server_capabilities'', str_list (con_capabilities result)),
      (''elapsed_seconds'', PFloat (Fin (round3 (con_elapsed result))))]"

definition host_key_verification_label :: "netconf_args \<Rightarrow> string" where
  "host_key_verification_label args =
     (if some_text (na_fingerprint args) then ''pinned_fingerprint''
      else if na_allow_unknown args then ''allow_unknown_with_warning'' else ''unspecified'')"

definition build_netconf_report ::
  "tool_env \<Rightarrow> netconf_args \<Rightarrow> pyval \<Rightarrow> exn option \<Rightarrow> rat \<Rightarrow> string option \<Rightarrow> pyval" where
  "build_netconf_report env args outcome error duration datastore = obj
     [(''schema_version'', PInt 1), (''tool'', PStr ''cli_tool_netconf_test''),
      (''timestamp'', PStr (te_timestamp env)), (''duration_seconds'', PFloat (Fin duration)),
      (''passed'', PBool (error = None)), (''operation'', PStr (na_operation args)),
      (''security'', PStr ''encrypted_ssh''), (''host'', PStr (na_host args)), (''port'', PInt (na_port args)),
      (''username'', opt_str (na_username args)),
      (''host_key_verification'', PStr (host_key_verification_label args)),
      (''datastore'', opt_str datastore), (''outcome'', outcome),
      (''error_type'', error_type error), (''error_message'', safe_error_message error)]"

definition missing_of :: "exn option \<Rightarrow> string list option" where
  "missing_of error = (case error of Some (NetconfCapabilityError missing) \<Rightarrow> Some missing | _ \<Rightarrow> None)"

definition live_result :: "netconf_args \<Rightarrow> exn option \<Rightarrow> string" where
  "live_result args error =
     (case error of
        None \<Rightarrow> if na_finalize args then ''EXECUTED_FINALIZED'' else ''EXECUTED_TRANSIENT''
      | Some e \<Rightarrow> if missing_of error \<notin> {None, Some []} then ''REFUSED_MISSING_CAPABILITY'' else ''FAILED'')"

definition build_live_report :: "tool_env \<Rightarrow> netconf_args \<Rightarrow> pyval \<Rightarrow> exn option \<Rightarrow> rat \<Rightarrow> pyval" where
  "build_live_report env args mutation error duration = obj
     [(''schema_version'', PInt 1), (''tool'', PStr ''cli_tool_netconf_test''),
      (''timestamp'', PStr (te_timestamp env)), (''duration_seconds'', PFloat (Fin duration)),
      (''passed'', PBool (error = None)), (''operation'', PStr ''edit-config''),
      (''requested_mode'', PStr ''LIVE''), (''result'', PStr (live_result args error)),
      (''security'', PStr ''encrypted_ssh''), (''host'', PStr (na_host args)), (''port'', PInt (na_port args)),
      (''username'', opt_str (na_username args)), (''node_key'', opt_str (na_node_key args)),
      (''host_key_verification'', PStr (host_key_verification_label args)), (''mutation'', mutation),
      (''error_type'', error_type error), (''error_message'', safe_error_message error),
      (''missing_capabilities'', case missing_of error of None \<Rightarrow> PNone | Some m \<Rightarrow> str_list m)]"

definition write_netconf_report :: "tool_env \<Rightarrow> netconf_args \<Rightarrow> pyval \<Rightarrow> (disk, posix_path option) act" where
  "write_netconf_report env args payload =
     (if na_no_report args then ret None
      else bnd (write_json_report env (na_report_dir args) ''cli_tool_netconf_test'' payload) (\<lambda>p. ret (Some p)))"

section \<open>Runs\<close>

definition client_of :: "netconf_args \<Rightarrow> string \<Rightarrow> netconf_client" where
  "client_of args password =
     \<lparr>nc_host = na_host args, nc_username = text_of (na_username args), nc_password = password, nc_port = na_port args,
      nc_timeout = na_timeout args, nc_allow_unknown = na_allow_unknown args, nc_expected = na_fingerprint args\<rparr>"

definition netconf_password :: "tool_env \<Rightarrow> netconf_args \<Rightarrow> string result" where
  "netconf_password env args = required_variable env ''missing NETCONF password env var: '' (na_password_env args)"

definition readonly_operation ::
  "'w netconf_env \<Rightarrow> netconf_args \<Rightarrow> netconf_client \<Rightarrow> string option \<Rightarrow> string \<Rightarrow> ('w net, pyval) act" where
  "readonly_operation server args client filter_xml datastore =
     (if na_operation args = ''connect'' then bnd (connect_test server client) (\<lambda>r. ret (connect_outcome r))
      else if na_operation args = ''get''
      then bnd (netconf_get server client filter_xml) (\<lambda>r. ret (operation_outcome args r))
      else bnd (netconf_get_config server client datastore filter_xml) (\<lambda>r. ret (operation_outcome args r)))"

definition run_readonly ::
  "tool_env \<Rightarrow> 'w netconf_env \<Rightarrow> netconf_args \<Rightarrow> ('w net transfer_world, int \<times> pyval) act" where
  "run_readonly env server args =
     bnd (lift (netconf_password env args)) (\<lambda>password.
     bnd (on_disk (read_optional env (na_filter_file args))) (\<lambda>filter_xml.
     let datastore = (if some_text (na_datastore args) then text_of (na_datastore args) else ''running'') in
     bnd (on_remote (now server)) (\<lambda>started.
     bnd (capture (on_remote (readonly_operation server args (client_of args password) filter_xml datastore))) (\<lambda>r.
     bnd (on_remote (now server)) (\<lambda>ended.
     let report = redact (te_float_text env) (build_netconf_report env args
           (case r of Inl _ \<Rightarrow> obj [] | Inr outcome \<Rightarrow> outcome) (caught r) (round3 (ended - started))
           (if na_operation args = ''get-config'' then Some datastore else None)) in
     bnd (on_disk (write_netconf_report env args report)) (\<lambda>_.
     ret (if caught r = None then 0 else 1, report)))))))"

definition mutation_payload :: "netconf_args \<Rightarrow> mutation_result \<Rightarrow> pyval" where
  "mutation_payload args result = obj
     [(''target'', PStr mutation_target), (''confirm_timeout_seconds'', mut_confirm_timeout result),
      (''finalized'', PBool (mut_finalized result)),
      (''steps'', PList (map (mutation_step_payload args) (mut_steps result)))]"

definition execute_live_edit_config ::
  "tool_env \<Rightarrow> 'w netconf_env \<Rightarrow> netconf_args \<Rightarrow> string \<Rightarrow> ('w net transfer_world, int \<times> pyval) act" where
  "execute_live_edit_config env server args config_xml =
     bnd (lift (netconf_password env args)) (\<lambda>password.
     bnd (on_disk (read_optional env (na_verify_filter_file args))) (\<lambda>verify_filter_xml.
     let confirm_timeout = (case na_confirm_timeout args of None \<Rightarrow> default_confirm_timeout | Some x \<Rightarrow> x) in
     bnd (on_remote (now server)) (\<lambda>started.
     bnd (capture (on_remote (execute_confirmed_commit server (client_of args password) config_xml verify_filter_xml
       (PFloat confirm_timeout) (na_finalize args) None))) (\<lambda>r.
     bnd (on_remote (now server)) (\<lambda>ended.
     let report = redact (te_float_text env) (build_live_report env args
           (case r of Inl _ \<Rightarrow> obj [] | Inr result \<Rightarrow> mutation_payload args result) (caught r) (round3 (ended - started))) in
     bnd (on_disk (write_netconf_report env args report)) (\<lambda>_.
     ret (if caught r = None then 0 else 1, report)))))))"

definition run_edit_config ::
  "tool_env \<Rightarrow> 'w netconf_env \<Rightarrow> netconf_args \<Rightarrow> ('w net transfer_world, int \<times> pyval) act" where
  "run_edit_config env server args =
     bnd (on_disk (read_file env (text_of (na_edit_config_file args)))) (\<lambda>config_xml.
     bnd (lift (build_netconf_edit_plan (text_of (na_node_key args)) (na_host args) config_xml)) (\<lambda>plan.
     if \<not> na_run_mutating args
     then bnd (lift (assert_edit_dry_run_confirmation plan (text_of (na_confirm_node args)) (text_of (na_confirm_host args)))) (\<lambda>_.
          let payload = redact (te_float_text env)
                (set_item (set_item (set_item (edit_plan_as_dict plan) ''generated_at'' (PStr (te_timestamp env)))
                  ''requested_mode'' (PStr ''DRY_RUN'')) ''result'' (PStr ''DRY_RUN_READY'')) in
          bnd (on_disk (write_netconf_report env args payload)) (\<lambda>_. ret (0, payload)))
     else bnd (lift (assert_live_mutation_authorized (text_of (na_node_key args)) (na_host args)
            (text_of (na_confirm_node args)) (text_of (na_confirm_host args)) (na_run_mutating args))) (\<lambda>_.
          execute_live_edit_config env server args config_xml)))"

definition netconf_run ::
  "tool_env \<Rightarrow> 'w netconf_env \<Rightarrow> netconf_args \<Rightarrow> ('w net transfer_world, int \<times> pyval) act" where
  "netconf_run env server args =
     bnd (lift (validate_netconf_args args)) (\<lambda>_.
     if na_operation args = ''edit-config'' then run_edit_config env server args else run_readonly env server args)"

text \<open>\<open>main\<close>: the exit code and what is printed.\<close>

definition netconf_main ::
  "tool_env \<Rightarrow> 'w netconf_env \<Rightarrow> netconf_args \<Rightarrow> ('w net transfer_world, int \<times> pyval) act" where
  "netconf_main env server args =
     catch_when (\<lambda>e. is_value_error e \<or> (case e of PermissionError _ \<Rightarrow> True | _ \<Rightarrow> False))
       (netconf_run env server args)
       (\<lambda>e. ret (2, obj [(''result'', PStr ''REFUSED''), (''error'', PStr (exn_text e))]))"

section \<open>Lemmas: exchanges\<close>

definition quiet_exchanges :: "exchange set" where
  "quiet_exchanges = {x. case x of Rpc (RpcGet f) \<Rightarrow> True | Rpc (RpcGetConfig d f) \<Rightarrow> True | Rpc q \<Rightarrow> False | _ \<Rightarrow> True}"

definition extends :: "exchange set \<Rightarrow> exchange list \<Rightarrow> 'w net \<Rightarrow> bool" where
  "extends A t0 s = (\<exists>t. trace s = t0 @ t \<and> set t \<subseteq> A)"

lemma keeps_extends: "x \<in> A \<Longrightarrow> keeps (extends A t0) (perform x m)"
  by (fastforce simp: keeps_def extends_def perform_def split: prod.split)

lemma keeps_now: "keeps I (now server)"
  unfolding now_def by (rule keeps_gets)

lemma quiet_members:
  "KeyExchange \<in> quiet_exchanges" "Authenticate u p \<in> quiet_exchanges" "CloseTransport \<in> quiet_exchanges"
  "CloseSession \<in> quiet_exchanges" "Rpc (RpcGet f) \<in> quiet_exchanges" "Rpc (RpcGetConfig d f) \<in> quiet_exchanges"
  by (simp_all add: quiet_exchanges_def)

lemma keeps_readonly_operation:
  "keeps (extends quiet_exchanges t0) (readonly_operation server args client f d)"
  unfolding readonly_operation_def connect_test_def netconf_get_def netconf_get_config_def run_operation_def connect_def
    open_ncclient_session_def close_session_def send_def
  by (intro keeps_intros keeps_now keeps_extends quiet_members)

lemma keeps_execute:
  "keeps (extends UNIV t0) (execute_confirmed_commit server client cfg vf ct fin per)"
  unfolding execute_confirmed_commit_def session_transaction_def locked_transaction_def stage_steps_def
    after_commit_steps_def optional_step_def time_step_def connect_def open_ncclient_session_def close_session_def send_def
  by (intro keeps_intros keeps_now keeps_extends UNIV_I)

text \<open>Live execution was asked for and the target confirmed.\<close>

definition edit_confirmed :: "netconf_args \<Rightarrow> bool" where
  "edit_confirmed args =
     (na_operation args = ''edit-config'' \<and> na_run_mutating args \<and> na_node_key args \<noteq> None \<and>
      na_confirm_node args = na_node_key args \<and> na_confirm_host args \<noteq> None \<and>
      na_confirm_host args = normal_ip (na_host args))"

lemma live_authorized_iff:
  "assert_live_mutation_authorized node host cn ch run = Inr () \<longleftrightarrow>
   validate_node_key node = Inr node \<and> run \<and> cn = node \<and> validate_ip_literal host = Inr ch"
  by (auto simp: assert_live_mutation_authorized_def authorization_validate_def result_simps validate_node_key_iff
      dest: validate_ip_literal_idem)

lemma edit_confirmedI:
  assumes "validate_netconf_args args = Inr ()" and "na_operation args = ''edit-config''"
    and "assert_live_mutation_authorized (text_of (na_node_key args)) (na_host args) (text_of (na_confirm_node args))
      (text_of (na_confirm_host args)) (na_run_mutating args) = Inr ()"
  shows "edit_confirmed args"
  using assms
  by (auto simp: live_authorized_iff edit_confirmed_def validate_netconf_args_def validate_edit_args_def result_simps
      some_text_iff validate_ip_literal_def split: option.splits)

definition allowed_exchanges :: "netconf_args \<Rightarrow> exchange set" where
  "allowed_exchanges args =
     (if edit_confirmed args then UNIV else if na_operation args = ''edit-config'' then {} else quiet_exchanges)"

lemmas tool_keeps = remote_keeps_on_remote remote_keeps_on_disk keeps_now

lemma keeps_netconf_run:
  "keeps (\<lambda>w. extends (allowed_exchanges args) t0 (tw_remote w)) (netconf_run env server args)"
proof -
  have live: "keeps (\<lambda>w. extends UNIV t0 (tw_remote w)) (execute_live_edit_config env server args cfg)" for cfg
    unfolding execute_live_edit_config_def by (intro keeps_intros tool_keeps keeps_execute)
  have readonly: "keeps (\<lambda>w. extends quiet_exchanges t0 (tw_remote w)) (run_readonly env server args)"
    unfolding run_readonly_def by (intro keeps_intros tool_keeps keeps_readonly_operation)
  have edit: "keeps (\<lambda>w. extends (allowed_exchanges args) t0 (tw_remote w)) (run_edit_config env server args)"
    if "validate_netconf_args args = Inr ()" "na_operation args = ''edit-config''"
    unfolding run_edit_config_def
  proof ((rule keeps_bnd_lift | rule keeps_if | rule keeps_bnd | rule remote_keeps_on_disk)+, goal_cases)
    case 1
    then show ?case unfolding Let_def by (intro keeps_intros tool_keeps)
  next
    case 2
    show ?case
      by (rule keeps_bnd_lift) (use edit_confirmedI that live in \<open>simp add: allowed_exchanges_def\<close>)
  qed
  have quiet: "allowed_exchanges args = quiet_exchanges" if "na_operation args \<noteq> ''edit-config''"
    using that by (simp add: allowed_exchanges_def edit_confirmed_def)
  show ?thesis
    unfolding netconf_run_def
    by (rule keeps_bnd_lift) (simp add: edit readonly quiet)
qed

section \<open>Lemmas: runs against a server by RFC 6241\<close>

lemma keeps_rfc_send:
  assumes "\<And>w. server_rpc merge q w = w"
  shows "keeps (\<lambda>s. settled config (world s)) (send (rfc_env merge hash) q)"
  unfolding send_def
  by (rule keeps_perform) (simp add: rfc_env_def keeps_with_fault faults_irrelevant assms)

lemma keeps_settled_readonly:
  "keeps (\<lambda>s. settled config (world s)) (readonly_operation (rfc_env merge hash) args client f d)"
  unfolding readonly_operation_def connect_test_def netconf_get_def netconf_get_config_def run_operation_def
    close_session_def
  by (intro keeps_intros keeps_now keeps_connect keeps_perform keeps_rfc_env keeps_rfc_send) simp_all

lemma keeps_settled_execute:
  "keeps (\<lambda>s. settled config (world s)) (execute_confirmed_commit (rfc_env merge hash) client cfg vf ct False None)"
  unfolding keeps_def using execute_unfinalized_settled [OF prod.collapse [symmetric]] by blast

lemma keeps_settled_main:
  assumes "\<not> na_finalize args"
  shows "keeps (\<lambda>w. settled config (world (tw_remote w))) (netconf_main env (rfc_env merge hash) args)"
proof -
  have fin: "na_finalize args = False" using assms by simp
  show ?thesis
    unfolding netconf_main_def netconf_run_def run_edit_config_def run_readonly_def execute_live_edit_config_def fin
    by (intro keeps_intros keeps_now keeps_settled_execute keeps_settled_readonly
        remote_keeps_on_disk remote_keeps_on_remote [where P = "\<lambda>n. settled config (world n)"])
qed

text \<open>What a live run that exits with 0 has done.\<close>

lemma on_disk_remote: "on_disk m w = (r, w') \<Longrightarrow> tw_remote w' = tw_remote w"
  by (auto simp: on_disk_eq)

lemma on_remote_eq: "on_remote m w = (r, w') \<longleftrightarrow> (\<exists>x. m (tw_remote w) = (r, x) \<and> w' = w\<lparr>tw_remote := x\<rparr>)"
  by (auto simp: on_remote_def split: prod.split)

lemma live_success:
  assumes "execute_live_edit_config env server args cfg w = (Inr (0, payload), w')"
  shows "\<exists>client vf ct res. execute_confirmed_commit server client cfg vf ct (na_finalize args) None (tw_remote w) =
    (Inr res, tw_remote w')"
  using assms
  by (auto simp: execute_live_edit_config_def Let_def bnd_eq_Inr capture_eq on_remote_eq now_def gets_def ret_def lift_def
      caught_def dest!: on_disk_remote split: sum.splits if_splits) metis

lemma read_file_Inr:
  "read_file env name d = (Inr t, d') \<Longrightarrow>
   \<exists>bytes. dk_files d (path_str (parse_path name)) = Some bytes \<and> te_decode env bytes = Inr t"
  by (auto simp: read_file_def Let_def disk_op_def next_fault_def bnd_eq_Inr gets_def lift_def throw_def
      split: list.splits disk_fault.splits option.splits)

lemma finalized_run:
  assumes "netconf_run env server args w = (Inr (0, payload), w')" and "na_finalize args"
  shows "\<exists>bytes cfg client vf ct res.
    dk_files (tw_disk w) (path_str (parse_path (text_of (na_edit_config_file args)))) = Some bytes \<and>
    te_decode env bytes = Inr cfg \<and>
    execute_confirmed_commit server client cfg vf ct True None (tw_remote w) = (Inr res, tw_remote w')"
proof -
  from assms(1) have valid: "validate_netconf_args args = Inr ()"
    by (auto simp: netconf_run_def bnd_eq_Inr lift_def)
  then have op: "na_operation args = ''edit-config''" "na_run_mutating args"
    using assms(2) by (auto simp: validate_netconf_args_def validate_edit_args_def Let_def result_simps split: if_splits)
  with assms(1) valid have "run_edit_config env server args w = (Inr (0, payload), w')"
    by (simp add: netconf_run_def)
  with op obtain cfg w1 where read: "on_disk (read_file env (text_of (na_edit_config_file args))) w = (Inr cfg, w1)"
    and live: "execute_live_edit_config env server args cfg w1 = (Inr (0, payload), w')"
    by (auto simp: run_edit_config_def bnd_eq_Inr lift_def)
  from read have "tw_remote w1 = tw_remote w" by (rule on_disk_remote)
  with live_success [OF live] read assms(2) show ?thesis
    by (auto simp: on_disk_eq dest!: read_file_Inr) blast
qed

lemma main_zero:
  "netconf_main env server args w = (Inr (0, payload), w') \<Longrightarrow> netconf_run env server args w = (Inr (0, payload), w')"
  by (auto simp: netconf_main_def catch_when_def ret_def split: prod.splits sum.splits if_splits)

section \<open>Lemmas: reports\<close>

lemma execute_result_timeout:
  "execute_confirmed_commit server client cfg vf ct fin per s = (Inr res, s') \<Longrightarrow> mut_confirm_timeout res = ct"
  by (auto simp: execute_confirmed_commit_def bnd_eq_Inr ret_def)

lemma serializable_parts [simp]:
  "serializable (mutation_step_payload args step)" "serializable (operation_outcome args result)"
  "serializable (connect_outcome r)"
  by (auto simp: mutation_step_payload_def operation_outcome_def connect_outcome_def Let_def serializable_obj
      intro!: serializable_set_item)

lemma serializable_mutation: "serializable (mutation_payload args res) \<longleftrightarrow> serializable (mut_confirm_timeout res)"
  by (simp add: mutation_payload_def serializable_obj list_all_iff)

lemma serializable_reports [simp]:
  "serializable outcome \<Longrightarrow> serializable (build_netconf_report env args outcome error duration datastore)"
  "serializable outcome \<Longrightarrow> serializable (build_live_report env args outcome error duration)"
  "serializable (edit_plan_as_dict plan)" "serializable (obj [])"
  by (simp_all add: build_netconf_report_def build_live_report_def edit_plan_as_dict_def serializable_obj
      split: option.split)

lemma readonly_outcome_serializable:
  "readonly_operation server args client f d s = (Inr outcome, s') \<Longrightarrow> serializable outcome"
  by (auto simp: readonly_operation_def bnd_eq_Inr ret_def split: if_splits)

text \<open>A redacted JSON value, and an exit code that says whether the report has passed.\<close>

definition good_report :: "tool_env \<Rightarrow> int \<times> pyval \<Rightarrow> bool" where
  "good_report env outcome =
     (case outcome of (code, payload) \<Rightarrow>
        code \<in> {0, 1} \<and> serializable payload \<and> masked (te_float_text env) payload \<and>
        (\<forall>passed. get_item payload ''passed'' = Inr (PBool passed) \<longrightarrow> passed = (code = 0)))"

lemma good_reportI:
  assumes "serializable report" and "code \<in> {0, 1}"
    and "\<And>passed. get_item (redact (te_float_text env) report) ''passed'' = Inr (PBool passed) \<Longrightarrow> passed = (code = 0)"
  shows "good_report env (code, redact (te_float_text env) report)"
  using assms by (simp add: good_report_def serializable_redact masked_redact)

lemma passed_reports:
  "get_item (redact ft (build_netconf_report env args outcome error duration datastore)) ''passed'' = Inr (PBool (error = None))"
  "get_item (redact ft (build_live_report env args outcome error duration)) ''passed'' = Inr (PBool (error = None))"
  unfolding build_netconf_report_def build_live_report_def by (simp_all add: get_redacted public_keys redact.simps)

lemma good_readonly:
  assumes "run_readonly env server args w = (Inr out, w')"
  shows "good_report env out"
proof -
  from assms obtain r f d datastore duration s s' where
    out: "out = (if caught r = None then 0 else 1, redact (te_float_text env) (build_netconf_report env args
           (case r of Inl _ \<Rightarrow> obj [] | Inr outcome \<Rightarrow> outcome) (caught r) duration datastore))"
    and r: "\<And>outcome. r = Inr outcome \<Longrightarrow> \<exists>client f d s s'. readonly_operation server args client f d s = (Inr outcome, s')"
    by (auto simp: run_readonly_def Let_def bnd_eq_Inr ret_def capture_eq on_remote_eq) blast
  have "serializable (case r of Inl _ \<Rightarrow> obj [] | Inr outcome \<Rightarrow> outcome)"
    using r readonly_outcome_serializable by (fastforce split: sum.split)
  then show ?thesis
    unfolding out by (intro good_reportI) (auto simp: passed_reports)
qed

lemma good_live:
  assumes "execute_live_edit_config env server args cfg w = (Inr out, w')"
  shows "good_report env out"
proof -
  from assms obtain r duration where
    out: "out = (if caught r = None then 0 else 1, redact (te_float_text env) (build_live_report env args
           (case r of Inl _ \<Rightarrow> obj [] | Inr result \<Rightarrow> mutation_payload args result) (caught r) duration))"
    and r: "\<And>result. r = Inr result \<Longrightarrow>
      \<exists>client vf ct s s'. execute_confirmed_commit server client cfg vf (PFloat ct) (na_finalize args) None s = (Inr result, s')"
    by (auto simp: execute_live_edit_config_def Let_def bnd_eq_Inr ret_def capture_eq on_remote_eq) blast
  have "serializable (case r of Inl _ \<Rightarrow> obj [] | Inr result \<Rightarrow> mutation_payload args result)"
    using r by (fastforce simp: serializable_mutation dest: execute_result_timeout split: sum.split)
  then show ?thesis
    unfolding out by (intro good_reportI) (auto simp: passed_reports)
qed

lemma good_dry_run: "good_report env (0, redact (te_float_text env)
    (set_item (set_item (set_item (edit_plan_as_dict plan) ''generated_at'' (PStr t)) ''requested_mode'' (PStr m)) ''result'' (PStr x)))"
proof (rule good_reportI)
  have "\<not> is_sensitive_key ''generated_at''" by code_simp
  show "passed = (0 = (0::int))"
    if "get_item (redact (te_float_text env) (set_item (set_item (set_item (edit_plan_as_dict plan) ''generated_at'' (PStr t))
      ''requested_mode'' (PStr m)) ''result'' (PStr x))) ''passed'' = Inr (PBool passed)" for passed
    using that by (simp add: edit_plan_as_dict_def obj_def)
qed (simp_all add: serializable_set_item)

lemma good_run:
  assumes "netconf_run env server args w = (Inr out, w')"
  shows "good_report env out"
  using assms
  by (auto simp: netconf_run_def run_edit_config_def Let_def bnd_eq_Inr lift_def ret_def split: if_splits
      intro: good_readonly good_live good_dry_run)

text \<open>The files of a run: at most the report.\<close>

definition netconf_files :: "tool_env \<Rightarrow> netconf_args \<Rightarrow> string set" where
  "netconf_files env args =
     (if na_no_report args then {} else {path_str (report_path env (na_report_dir args) ''cli_tool_netconf_test'')})"

lemma keeps_netconf_files: "keeps (\<lambda>w. only_touches (netconf_files env args) files (tw_disk w)) (netconf_run env server args)"
proof -
  have report: "keeps (only_touches (netconf_files env args) files) (write_netconf_report env args payload)" for payload
    unfolding write_netconf_report_def netconf_files_def
    by (cases "na_no_report args") (auto intro!: keeps_intros touch_rules)
  show ?thesis
    unfolding netconf_run_def run_edit_config_def run_readonly_def execute_live_edit_config_def
    by (intro keeps_intros keeps_on_disk keeps_on_remote touch_rules report)
qed

text \<open>
  The XML of a step is cut before the report is redacted, so a cut that removes the closing tag keeps the secret.
\<close>

lemma truncation_defeats_redaction:
  "redact_text (truncate_text ''<password>hunter2</password>'' 17) = ''<password>hunter2...<truncated 11 chars>''"
  "redact_text ''<password>hunter2</password>'' = ''<password>'' @ redacted_mark @ ''</password>''"
  by code_simp+

section \<open>Properties\<close>

definition demo_tool_env :: tool_env where
  "demo_tool_env = \<lparr>te_getenv = (\<lambda>_. Some ''p''), te_decode = Inr, te_float_text = (\<lambda>_. ''1.0''),
     te_timestamp = ''t'', te_stamp = ''s''\<rparr>"

definition demo_netconf_args :: "bool \<Rightarrow> netconf_args" where
  "demo_netconf_args finalize = \<lparr>na_operation = ''edit-config'', na_host = ''192.0.2.1'', na_port = 830,
     na_username = Some ''u'', na_password_env = ''P'', na_timeout = Fin 15, na_fingerprint = Some ''a2V5'',
     na_allow_unknown = False, na_datastore = None, na_filter_file = None, na_edit_config_file = Some ''c.xml'',
     na_node_key = Some ''n1'', na_confirm_node = Some ''n1'', na_confirm_host = Some ''192.0.2.1'',
     na_run_mutating = True, na_finalize = finalize, na_confirm_timeout = None, na_verify_filter_file = None,
     na_include_output = False, na_max_output = 10, na_report_dir = ''r'', na_no_report = True\<rparr>"

definition demo_netconf_world :: "server net transfer_world" where
  "demo_netconf_world = \<lparr>tw_remote = demo_net [],
     tw_disk = \<lparr>dk_files = (\<lambda>p. if p = ''c.xml'' then Some ''x'' else None), dk_faults = []\<rparr>\<rparr>"

lemma live_run:
  assumes "validate_netconf_args args = Inr ()" and "na_operation args = ''edit-config''" and "na_run_mutating args"
    and "na_no_report args" and "na_verify_filter_file args = None"
    and "read_file env (text_of (na_edit_config_file args)) d = (Inr cfg, d)"
    and "is_ok (build_netconf_edit_plan (text_of (na_node_key args)) (na_host args) cfg)"
    and "assert_live_mutation_authorized (text_of (na_node_key args)) (na_host args) (text_of (na_confirm_node args))
      (text_of (na_confirm_host args)) True = Inr ()"
    and "netconf_password env args = Inr password"
    and "execute_confirmed_commit server (client_of args password) cfg None
      (PFloat (case na_confirm_timeout args of None \<Rightarrow> default_confirm_timeout | Some x \<Rightarrow> x)) (na_finalize args) None s = (Inr res, s')"
  shows "\<exists>report. netconf_run env server args \<lparr>tw_remote = s, tw_disk = d\<rparr> = (Inr (0, report), \<lparr>tw_remote = s', tw_disk = d\<rparr>)"
  using assms
  by (auto simp: is_ok_iff netconf_run_def run_edit_config_def execute_live_edit_config_def read_optional_def some_text_def
      write_netconf_report_def bnd_def lift_def on_disk_def on_remote_def now_def gets_def capture_def catch_when_def ret_def
      caught_def Let_def)

definition demo_executed :: "bool \<Rightarrow> server net" where
  "demo_executed finalize = snd (execute_confirmed_commit demo_env (client_of (demo_netconf_args finalize) ''p'') ''x'' None
     (PFloat default_confirm_timeout) finalize None (demo_net []))"

lemma demo_run:
  "\<exists>report. netconf_run demo_tool_env demo_env (demo_netconf_args finalize) demo_netconf_world =
     (Inr (0, report), demo_netconf_world\<lparr>tw_remote := demo_executed finalize\<rparr>)"
proof -
  have "is_ok (fst (execute_confirmed_commit demo_env (client_of (demo_netconf_args finalize) ''p'') ''x'' None
     (PFloat default_confirm_timeout) finalize None (demo_net [])))" by (cases finalize; simp only:; code_simp)
  then obtain res where run: "execute_confirmed_commit demo_env (client_of (demo_netconf_args finalize) ''p'') ''x'' None
     (PFloat default_confirm_timeout) finalize None (demo_net []) = (Inr res, demo_executed finalize)"
    by (auto simp: is_ok_iff demo_executed_def prod_eq_iff)
  have "\<exists>report. netconf_run demo_tool_env demo_env (demo_netconf_args finalize)
      \<lparr>tw_remote = demo_net [], tw_disk = tw_disk demo_netconf_world\<rparr> =
      (Inr (0, report), \<lparr>tw_remote = demo_executed finalize, tw_disk = tw_disk demo_netconf_world\<rparr>)"
  proof (rule live_run [where cfg = "''x''" and password = "''p''"])
    show "validate_netconf_args (demo_netconf_args finalize) = Inr ()"
      by (cases finalize; simp only:; code_simp)
    show "is_ok (build_netconf_edit_plan (text_of (na_node_key (demo_netconf_args finalize))) (na_host (demo_netconf_args finalize)) ''x'')"
      by (cases finalize; simp only:; code_simp)
    show "assert_live_mutation_authorized (text_of (na_node_key (demo_netconf_args finalize)))
        (na_host (demo_netconf_args finalize)) (text_of (na_confirm_node (demo_netconf_args finalize)))
        (text_of (na_confirm_host (demo_netconf_args finalize))) True = Inr ()"
      by (cases finalize; simp only:; code_simp)
    have "path_str (parse_path ''c.xml'') = ''c.xml''" by code_simp
    then show "read_file demo_tool_env (text_of (na_edit_config_file (demo_netconf_args finalize))) (tw_disk demo_netconf_world) =
        (Inr ''x'', tw_disk demo_netconf_world)"
      by (simp add: read_file_def Let_def demo_netconf_args_def text_of_def demo_netconf_world_def disk_op_def next_fault_def
          bnd_def gets_def ret_def demo_tool_env_def)
  qed (use run in \<open>simp_all add: demo_netconf_args_def netconf_password_def required_variable_iff demo_tool_env_def\<close>)
  then show ?thesis by (simp add: demo_netconf_world_def)
qed

lemma main_run: "netconf_run env server args w = (Inr out, w') \<Longrightarrow> netconf_main env server args w = (Inr out, w')"
  by (simp add: netconf_main_def catch_when_def)

abbreviation demo_netconf_run :: "bool \<Rightarrow> (int \<times> pyval) result \<times> server net transfer_world" where
  "demo_netconf_run finalize \<equiv> netconf_main demo_tool_env demo_env (demo_netconf_args finalize) demo_netconf_world"

text \<open>Only a confirmed live run mutates: whatever the server answers, a run of the command makes an exchange
  other than connecting, reading and closing only for \<open>edit-config\<close> with \<open>--run-mutating\<close>, a confirmed
  node that equals the node key and a confirmed host that is the normal form of the host; an \<open>edit-config\<close>
  without \<open>--run-mutating\<close> exchanges nothing at all.\<close>

theorem netconf_tool_mutates_only_confirmed:
  assumes "netconf_main env server args w = (r, w')"
  shows "\<exists>t. trace (tw_remote w') = trace (tw_remote w) @ t \<and>
    (\<not> set t \<subseteq> quiet_exchanges \<longrightarrow>
       na_operation args = ''edit-config'' \<and> na_run_mutating args \<and> na_confirm_node args = na_node_key args \<and>
       (\<exists>h. na_confirm_host args = Some h \<and> normal_ip (na_host args) = Some h)) \<and>
    (na_operation args = ''edit-config'' \<and> \<not> na_run_mutating args \<longrightarrow> t = [])"
proof -
  have "keeps (\<lambda>w'. extends (allowed_exchanges args) (trace (tw_remote w)) (tw_remote w')) (netconf_main env server args)"
    unfolding netconf_main_def by (intro keeps_intros keeps_netconf_run)
  moreover have "extends (allowed_exchanges args) (trace (tw_remote w)) (tw_remote w)" by (simp add: extends_def)
  ultimately have "extends (allowed_exchanges args) (trace (tw_remote w)) (tw_remote w')" using keepsD assms by metis
  then obtain t where t: "trace (tw_remote w') = trace (tw_remote w) @ t" "set t \<subseteq> allowed_exchanges args"
    by (auto simp: extends_def)
  have "na_operation args = ''edit-config'' \<and> \<not> na_run_mutating args \<Longrightarrow> t = []"
    using t(2) by (simp add: allowed_exchanges_def edit_confirmed_def)
  moreover have "set t \<subseteq> quiet_exchanges \<or> edit_confirmed args"
    using t(2) by (auto simp: allowed_exchanges_def split: if_splits)
  moreover have "edit_confirmed args \<Longrightarrow> \<exists>h. na_confirm_host args = Some h \<and> normal_ip (na_host args) = Some h"
    by (cases "normal_ip (na_host args)") (auto simp: edit_confirmed_def)
  ultimately show ?thesis using t(1) by (auto simp: edit_confirmed_def)
qed

lemma netconf_tool_mutates_only_confirmed_witness:
  "\<exists>t. trace (tw_remote (snd (demo_netconf_run False))) = t \<and> \<not> set t \<subseteq> quiet_exchanges \<and>
    na_confirm_node (demo_netconf_args False) = na_node_key (demo_netconf_args False)"
proof -
  have "Rpc (RpcLock ''candidate'') \<in> set (trace (demo_executed False))" by code_simp
  then have "Rpc (RpcLock ''candidate'') \<in> set (trace (tw_remote (snd (demo_netconf_run False))))"
    using demo_run [of False] by (auto dest: main_run)
  then have changed: "\<not> set (trace (tw_remote (snd (demo_netconf_run False)))) \<subseteq> quiet_exchanges"
    by (auto simp: quiet_exchanges_def)
  have start: "trace (tw_remote demo_netconf_world) = []" by (simp add: demo_netconf_world_def demo_net_def)
  obtain t where "trace (tw_remote (snd (demo_netconf_run False))) = trace (tw_remote demo_netconf_world) @ t"
    and "\<not> set t \<subseteq> quiet_exchanges \<longrightarrow> na_operation (demo_netconf_args False) = ''edit-config'' \<and>
      na_run_mutating (demo_netconf_args False) \<and>
      na_confirm_node (demo_netconf_args False) = na_node_key (demo_netconf_args False) \<and>
      (\<exists>h. na_confirm_host (demo_netconf_args False) = Some h \<and> normal_ip (na_host (demo_netconf_args False)) = Some h)"
    using netconf_tool_mutates_only_confirmed [OF prod.collapse [symmetric]] by blast
  with changed start show ?thesis by simp
qed

text \<open>C11. What a run leaves on a server that follows RFC 6241 and has no commit pending: without
  \<open>--finalize-commit\<close> the running datastore is unchanged and nothing is pending, for every operation, every
  outcome and every schedule of faults; and when a run with \<open>--finalize-commit\<close> exits with 0, the running
  datastore is the candidate merged with the text of the configuration file.\<close>

theorem netconf_tool_datastore:
  assumes "netconf_main env (rfc_env merge hash) args w = (r, w')"
    and "srv_rollback (world (tw_remote w)) = None" and "srv_persist (world (tw_remote w)) = None"
  shows "(\<not> na_finalize args \<longrightarrow> srv_running (world (tw_remote w')) = srv_running (world (tw_remote w)) \<and>
      srv_rollback (world (tw_remote w')) = None) \<and>
    (na_finalize args \<and> r = Inr (0, payload) \<longrightarrow>
      (\<exists>bytes cfg. dk_files (tw_disk w) (path_str (parse_path (text_of (na_edit_config_file args)))) = Some bytes \<and>
         te_decode env bytes = Inr cfg \<and>
         srv_running (world (tw_remote w')) = merge (srv_candidate (world (tw_remote w))) cfg \<and>
         srv_rollback (world (tw_remote w')) = None))"
proof (intro conjI impI)
  assume "\<not> na_finalize args"
  then have "settled (srv_running (world (tw_remote w))) (world (tw_remote w'))"
    using keepsD [OF keeps_settled_main assms(1)] assms(2,3) by (simp add: settled_def)
  then show "srv_running (world (tw_remote w')) = srv_running (world (tw_remote w))"
    "srv_rollback (world (tw_remote w')) = None" by (simp_all add: settled_def)
next
  assume "na_finalize args \<and> r = Inr (0, payload)"
  then obtain bytes cfg client vf ct res where
    stored: "dk_files (tw_disk w) (path_str (parse_path (text_of (na_edit_config_file args)))) = Some bytes"
      "te_decode env bytes = Inr cfg"
    and run: "execute_confirmed_commit (rfc_env merge hash) client cfg vf ct True None (tw_remote w) = (Inr res, tw_remote w')"
    using finalized_run [OF main_zero] assms(1) by blast
  have "fresh (srv_running (world (tw_remote w))) (srv_candidate (world (tw_remote w))) (tw_remote w)"
    using assms(2,3) by (simp add: fresh_def stores_def)
  from triple_Inr [OF triple_execute_stores this run] stored
  show "\<exists>bytes cfg. dk_files (tw_disk w) (path_str (parse_path (text_of (na_edit_config_file args)))) = Some bytes \<and>
     te_decode env bytes = Inr cfg \<and>
     srv_running (world (tw_remote w')) = merge (srv_candidate (world (tw_remote w))) cfg \<and>
     srv_rollback (world (tw_remote w')) = None"
    by (auto simp: done_with_def stores_def)
qed

lemma netconf_tool_datastore_witness:
  "srv_running (world (tw_remote (snd (demo_netconf_run False)))) = ''r'' \<and>
   srv_running (world (tw_remote (snd (demo_netconf_run True)))) = ''rx''"
proof -
  have start: "srv_rollback (world (tw_remote demo_netconf_world)) = None"
    "srv_persist (world (tw_remote demo_netconf_world)) = None" "srv_running (world (tw_remote demo_netconf_world)) = ''r''"
    "srv_candidate (world (tw_remote demo_netconf_world)) = ''r''"
    "dk_files (tw_disk demo_netconf_world) ''c.xml'' = Some ''x''"
    by (simp_all add: demo_netconf_world_def demo_net_def demo_server_def)
  have args: "\<not> na_finalize (demo_netconf_args False)" "na_finalize (demo_netconf_args True)"
    "na_edit_config_file (demo_netconf_args True) = Some ''c.xml''" "te_decode demo_tool_env = Inr"
    by (simp_all add: demo_netconf_args_def demo_tool_env_def)
  have path: "path_str (parse_path ''c.xml'') = ''c.xml''" by code_simp
  obtain payload where "fst (demo_netconf_run True) = Inr (0, payload)"
    using demo_run [of True] by (auto dest: main_run)
  then have "demo_netconf_run True = (Inr (0, payload), snd (demo_netconf_run True))" by (simp add: prod_eq_iff)
  from netconf_tool_datastore [OF this start(1,2)] netconf_tool_datastore [OF prod.collapse [symmetric] start(1,2),
      where env = demo_tool_env and args = "demo_netconf_args False" and merge = "\<lambda>old new. old @ new" and hash = id] start args path
  show ?thesis by (auto simp: text_of_def)
qed

text \<open>C12. Reports are well typed: every payload that a run returns (to be printed and written) is made of JSON
  values only, so serializing it cannot fail, has every sensitive key masked and every text redacted, comes with
  an exit code of 0 or 1, 0 exactly when the report says that it passed; and a run changes no file but its report,
  none with \<open>--no-report\<close>.\<close>

theorem netconf_tool_report_typed:
  assumes "netconf_run env server args w = (r, w')"
  shows "(\<forall>code payload. r = Inr (code, payload) \<longrightarrow>
      code \<in> {0, 1} \<and> serializable payload \<and> masked (te_float_text env) payload \<and>
      (\<forall>passed. get_item payload ''passed'' = Inr (PBool passed) \<longrightarrow> passed = (code = 0))) \<and>
    (\<forall>p. p \<notin> netconf_files env args \<longrightarrow> dk_files (tw_disk w') p = dk_files (tw_disk w) p)"
proof (intro conjI allI)
  show "r = Inr (code, payload) \<longrightarrow> code \<in> {0, 1} \<and> serializable payload \<and> masked (te_float_text env) payload \<and>
      (\<forall>passed. get_item payload ''passed'' = Inr (PBool passed) \<longrightarrow> passed = (code = 0))" for code payload
    using good_run [of env server args w "(code, payload)" w'] assms by (simp add: good_report_def)
  show "p \<notin> netconf_files env args \<longrightarrow> dk_files (tw_disk w') p = dk_files (tw_disk w) p" for p
    using keepsD [OF keeps_netconf_files assms, of "dk_files (tw_disk w)"] by (simp add: only_touches_def)
qed

lemma netconf_tool_report_typed_witness:
  "\<exists>payload. fst (netconf_run demo_tool_env demo_env (demo_netconf_args False) demo_netconf_world) = Inr (0, payload) \<and>
     serializable payload \<and> masked (te_float_text demo_tool_env) payload"
proof -
  let ?run = "netconf_run demo_tool_env demo_env (demo_netconf_args False) demo_netconf_world"
  obtain payload where "fst ?run = Inr (0, payload)" using demo_run [of False] by auto
  then have "?run = (Inr (0, payload), snd ?run)" by (simp add: prod_eq_iff)
  from netconf_tool_report_typed [OF this] \<open>fst ?run = Inr (0, payload)\<close> show ?thesis by blast
qed

end
