(* ===== verification/TransferTool.thy ===== *)
theory TransferTool
  imports Sftp Ftp ToolSupport
begin

text \<open>
  The transfer command, \<open>tools/cli_tool_readonly_transfer.py\<close>, on the SFTP and FTP clients. What it asks of a
  client is the record \<open>file_transfer\<close>, the operations of the protocol class of \<open>cli_tool/transfer/base.py\<close>
  with the context manager and the two optional attributes; its contract is the locale \<open>local_reader\<close>, which both
  clients meet. The world holds both clients, and a run uses the one that its arguments name. Timeouts are finite.
\<close>

section \<open>The interface of a client (transfer/base.py)\<close>

record 'r file_transfer =
  tr_connect :: "('r transfer_world, unit) act"      \<comment> \<open>\<open>__enter__\<close>\<close>
  tr_close :: "('r transfer_world, unit) act"        \<comment> \<open>\<open>__exit__\<close>\<close>
  tr_list :: "string \<Rightarrow> ('r transfer_world, remote_file_info list) act"
  tr_stat :: "string \<Rightarrow> ('r transfer_world, remote_file_info) act"
  tr_exists :: "string \<Rightarrow> ('r transfer_world, bool) act"
  tr_download :: "string \<Rightarrow> string \<Rightarrow> bool \<Rightarrow> ('r transfer_world, download_result) act"
  tr_listing_method :: "'r \<Rightarrow> string option"
  tr_metadata_method :: "'r \<Rightarrow> string option"

definition sftp_transfer :: "'e sftp_env \<Rightarrow> sftp_config \<Rightarrow> 'e sftp_client file_transfer" where
  "sftp_transfer env cfg =
     \<lparr>tr_connect = sftp_connect env cfg, tr_close = sftp_close env, tr_list = sftp_list_files env cfg,
      tr_stat = sftp_stat env cfg, tr_exists = sftp_exists env cfg, tr_download = sftp_download env cfg,
      tr_listing_method = (\<lambda>_. None), tr_metadata_method = (\<lambda>_. None)\<rparr>"

definition ftp_transfer :: "'e ftp_env \<Rightarrow> ftp_config \<Rightarrow> 'e ftp_client file_transfer" where
  "ftp_transfer env cfg =
     \<lparr>tr_connect = ftp_connect env cfg, tr_close = ftp_close env, tr_list = ftp_list_files env cfg,
      tr_stat = ftp_stat env cfg, tr_exists = ftp_exists env cfg, tr_download = ftp_download env cfg,
      tr_listing_method = fc_listing, tr_metadata_method = fc_metadata\<rparr>"

section \<open>Arguments\<close>

record transfer_args =
  ta_operation :: string
  ta_protocol :: string
  ta_host :: string
  ta_port :: "int option"
  ta_username :: string
  ta_password_env :: "string option"
  ta_private_key :: "string option"
  ta_passphrase_env :: "string option"
  ta_timeout :: rat
  ta_known_hosts :: "string option"
  ta_allow_unknown :: bool
  ta_ca_file :: "string option"
  ta_allow_unverified :: bool
  ta_allow_insecure :: bool
  ta_active :: bool
  ta_allow_legacy :: bool
  ta_legacy_format :: "string option"
  ta_remote_root :: string
  ta_remote_path :: string
  ta_local_path :: "string option"
  ta_max_bytes :: int
  ta_overwrite :: bool
  ta_include_paths :: bool
  ta_report_dir :: string
  ta_no_report :: bool

definition validate_operation_args :: "transfer_args \<Rightarrow> unit result" where
  "validate_operation_args args =
     and_then (raise_when (case ta_password_env args of None \<Rightarrow> False | Some v \<Rightarrow> blank v)
       (SystemExit ''--password-env must be a non-empty environment variable name'')) (\<lambda>_.
     and_then (raise_when (some_text (ta_passphrase_env args) \<and> \<not> some_text (ta_private_key args))
       (SystemExit ''--private-key-passphrase-env requires --private-key'')) (\<lambda>_.
     and_then (raise_when (case ta_port args of None \<Rightarrow> False | Some p \<Rightarrow> \<not> (1 \<le> p \<and> p \<le> 65535))
       (SystemExit ''--port must be between 1 and 65535'')) (\<lambda>_.
     and_then (raise_when (ta_timeout args \<le> 0) (SystemExit ''--timeout must be greater than 0'')) (\<lambda>_.
     and_then (raise_when (ta_max_bytes args < 1) (SystemExit ''--max-download-bytes must be greater than 0'')) (\<lambda>_.
     and_then (raise_when (ta_operation args = ''download'' \<and> \<not> some_text (ta_local_path args))
       (SystemExit ''--local-path is required for download'')) (\<lambda>_.
     and_then (raise_when (ta_operation args \<noteq> ''download'' \<and> some_text (ta_local_path args))
       (SystemExit ''--local-path is only valid for download'')) (\<lambda>_.
     raise_when (ta_operation args \<noteq> ''download'' \<and> ta_overwrite args)
       (SystemExit ''--overwrite is only valid for download''))))))))"

definition validate_protocol_args :: "transfer_args \<Rightarrow> unit result" where
  "validate_protocol_args args =
     (let protocol = ta_protocol args; sftp = (protocol = ''sftp'') in
      and_then (raise_when (\<not> sftp \<and> (some_text (ta_private_key args) \<or> some_text (ta_passphrase_env args)))
        (SystemExit ''private-key authentication is only valid for SFTP'')) (\<lambda>_.
      and_then (raise_when (\<not> sftp \<and> (some_text (ta_known_hosts args) \<or> ta_allow_unknown args))
        (SystemExit ''known-host options are only valid for SFTP'')) (\<lambda>_.
      and_then (raise_when (sftp \<and> (some_text (ta_ca_file args) \<or> ta_allow_unverified args \<or> ta_allow_insecure args \<or>
          ta_active args \<or> ta_allow_legacy args \<or> some_text (ta_legacy_format args)))
        (SystemExit ''FTP/TLS options are not valid for SFTP'')) (\<lambda>_.
      and_then (raise_when (protocol = ''ftp'' \<and> \<not> ta_allow_insecure args)
        (SystemExit ''FTP is plaintext; pass --allow-insecure-ftp for an isolated lab'')) (\<lambda>_.
      and_then (raise_when (protocol \<noteq> ''ftp'' \<and> ta_allow_insecure args)
        (SystemExit ''--allow-insecure-ftp is only valid with --protocol ftp'')) (\<lambda>_.
      and_then (raise_when (protocol \<notin> set ftp_protocols \<and> ta_active args)
        (SystemExit ''--active-mode is only valid for FTP/FTPS'')) (\<lambda>_.
      and_then (raise_when (ta_allow_legacy args \<noteq> (ta_legacy_format args \<noteq> None))
        (SystemExit ''--allow-legacy-listing and --legacy-list-format must be provided together'')) (\<lambda>_.
      and_then (raise_when (protocol \<notin> set ftp_protocols \<and> (ta_allow_legacy args \<or> some_text (ta_legacy_format args)))
        (SystemExit ''legacy listing options are only valid for FTP/FTPS'')) (\<lambda>_.
      raise_when (protocol \<notin> {''ftps'', ''ftps-implicit''} \<and> (some_text (ta_ca_file args) \<or> ta_allow_unverified args))
        (SystemExit ''TLS certificate options require FTPS''))))))))))"

definition validate_transfer_args :: "transfer_args \<Rightarrow> unit result" where
  "validate_transfer_args args = and_then (validate_operation_args args) (\<lambda>_. validate_protocol_args args)"

definition default_sftp_password_env :: string where "default_sftp_password_env = ''CLI_TOOL_SFTP_PASSWORD''"
definition default_ftp_password_env :: string where "default_ftp_password_env = ''CLI_TOOL_FTP_PASSWORD''"

text \<open>The password, the passphrase and the name of the method.\<close>

definition resolve_auth :: "tool_env \<Rightarrow> transfer_args \<Rightarrow> (string option \<times> string option \<times> string) result" where
  "resolve_auth env args =
     (if some_text (ta_private_key args)
      then (if some_text (ta_passphrase_env args)
            then (case te_getenv env (text_of (ta_passphrase_env args)) of
                    None \<Rightarrow> Inl (SystemExit (''missing private key passphrase env var: '' @ text_of (ta_passphrase_env args)))
                  | Some passphrase \<Rightarrow> Inr (None, Some passphrase, ''private_key''))
            else Inr (None, None, ''private_key''))
      else let default_env = (if ta_protocol args = ''sftp'' then default_sftp_password_env else default_ftp_password_env);
               password_env = (if some_text (ta_password_env args) then text_of (ta_password_env args) else default_env)
           in and_then (required_variable env (''missing '' @ upper_ascii (ta_protocol args) @ '' password env var: '') password_env)
                (\<lambda>password. Inr (Some password, None, ''password'')))"

section \<open>Clients\<close>

text \<open>The processes around the command: the two servers, the digest, the random name and the clock.\<close>

record ('e, 'f) transfer_env =
  tv_tool :: tool_env
  tv_sftp :: "'e sftp_env"
  tv_ftp :: "'f ftp_env"
  tv_sha256 :: "string \<Rightarrow> string"
  tv_uuid :: string
  tv_clock :: "'e sftp_client \<times> 'f ftp_client \<Rightarrow> rat"

definition default_chunk_size :: int where "default_chunk_size = 64 * 1024"

definition sftp_config_of ::
  "('e, 'f) transfer_env \<Rightarrow> transfer_args \<Rightarrow> int \<Rightarrow> string option \<Rightarrow> string option \<Rightarrow> sftp_config" where
  "sftp_config_of env args port password passphrase =
     \<lparr>sf_host = ta_host args, sf_username = ta_username args, sf_password = password, sf_port = port,
      sf_timeout = ta_timeout args, sf_known_hosts = ta_known_hosts args, sf_allow_unknown = ta_allow_unknown args,
      sf_private_key = ta_private_key args, sf_passphrase = passphrase, sf_remote_root = ta_remote_root args,
      sf_max_bytes = ta_max_bytes args, sf_chunk_size = default_chunk_size, sf_uuid = tv_uuid env, sf_sha256 = tv_sha256 env\<rparr>"

definition ftp_config_of :: "('e, 'f) transfer_env \<Rightarrow> transfer_args \<Rightarrow> int \<Rightarrow> string option \<Rightarrow> ftp_config" where
  "ftp_config_of env args port password =
     \<lparr>ft_host = ta_host args, ft_username = ta_username args, ft_password = text_of password, ft_protocol = ta_protocol args,
      ft_port = Some port, ft_timeout = ta_timeout args, ft_remote_root = ta_remote_root args, ft_passive = \<not> ta_active args,
      ft_ca_file = ta_ca_file args, ft_allow_unverified = ta_allow_unverified args,
      ft_allow_insecure = ta_allow_insecure args, ft_allow_legacy = ta_allow_legacy args,
      ft_legacy_format = ta_legacy_format args, ft_max_bytes = ta_max_bytes args, ft_chunk_size = default_chunk_size,
      ft_uuid = tv_uuid env, ft_sha256 = tv_sha256 env\<rparr>"

text \<open>An operation of one of the two clients, in the world that holds both.\<close>

definition zoom :: "('r \<Rightarrow> 's) \<Rightarrow> ('s \<Rightarrow> 'r \<Rightarrow> 'r) \<Rightarrow> ('s transfer_world, 'a) act \<Rightarrow> ('r transfer_world, 'a) act" where
  "zoom view set_part m w =
     (case m \<lparr>tw_remote = view (tw_remote w), tw_disk = tw_disk w\<rparr> of
        (r, x) \<Rightarrow> (r, \<lparr>tw_remote = set_part (tw_remote x) (tw_remote w), tw_disk = tw_disk x\<rparr>))"

definition zoom_client :: "('r \<Rightarrow> 's) \<Rightarrow> ('s \<Rightarrow> 'r \<Rightarrow> 'r) \<Rightarrow> 's file_transfer \<Rightarrow> 'r file_transfer" where
  "zoom_client view set_part c =
     \<lparr>tr_connect = zoom view set_part (tr_connect c), tr_close = zoom view set_part (tr_close c),
      tr_list = (\<lambda>p. zoom view set_part (tr_list c p)), tr_stat = (\<lambda>p. zoom view set_part (tr_stat c p)),
      tr_exists = (\<lambda>p. zoom view set_part (tr_exists c p)),
      tr_download = (\<lambda>p l overwrite. zoom view set_part (tr_download c p l overwrite)),
      tr_listing_method = tr_listing_method c \<circ> view, tr_metadata_method = tr_metadata_method c \<circ> view\<rparr>"

definition build_client ::
  "('e, 'f) transfer_env \<Rightarrow> transfer_args \<Rightarrow> int \<Rightarrow> string option \<Rightarrow> string option \<Rightarrow>
   ('e sftp_client \<times> 'f ftp_client) file_transfer result" where
  "build_client env args port password passphrase =
     (if ta_protocol args = ''sftp''
      then and_then (sftp_init (tv_sftp env) (sftp_config_of env args port password passphrase)) (\<lambda>cfg.
           Inr (zoom_client fst (\<lambda>c p. (c, snd p)) (sftp_transfer (tv_sftp env) cfg)))
      else and_then (ftp_init (tv_ftp env) (ftp_config_of env args port password)) (\<lambda>cfg.
           Inr (zoom_client snd (\<lambda>c p. (fst p, c)) (ftp_transfer (tv_ftp env) cfg))))"

section \<open>Running\<close>

definition method_of :: "('r \<Rightarrow> string option) \<Rightarrow> ('r transfer_world, pyval) act" where
  "method_of f = gets (\<lambda>w. opt_str (f (tw_remote w)))"

definition run_operation :: "(string \<Rightarrow> string) \<Rightarrow> 'r file_transfer \<Rightarrow> transfer_args \<Rightarrow> ('r transfer_world, pyval) act" where
  "run_operation sha256 client args =
     (let include = ta_include_paths args; metadata = method_of (tr_metadata_method client) in
      if ta_operation args = ''list''
      then bnd (tr_list client (ta_remote_path args)) (\<lambda>items.
           bnd (method_of (tr_listing_method client)) (\<lambda>m.
           ret (obj [(''count'', PInt (int (length items))), (''listing_method'', m),
             (''files'', file_list_payload sha256 include items)])))
      else if ta_operation args = ''stat''
      then bnd (tr_stat client (ta_remote_path args)) (\<lambda>info.
           bnd metadata (\<lambda>m. ret (obj [(''metadata_method'', m), (''file'', file_info_payload sha256 include info)])))
      else if ta_operation args = ''exists''
      then bnd (tr_exists client (ta_remote_path args)) (\<lambda>present.
           bnd metadata (\<lambda>m. ret (obj [(''exists'', PBool present), (''metadata_method'', m)])))
      else bnd (tr_download client (ta_remote_path args) (text_of (ta_local_path args)) (ta_overwrite args)) (\<lambda>result.
           bnd metadata (\<lambda>m. ret (obj [(''metadata_method'', m), (''download'', download_payload sha256 include result)]))))"

text \<open>\<open>with client: ...\<close>\<close>

definition with_client :: "'r file_transfer \<Rightarrow> ('r transfer_world, 'a) act \<Rightarrow> ('r transfer_world, 'a) act" where
  "with_client client m =
     bnd (tr_connect client) (\<lambda>_. bnd (try_finally m (tr_close client)) (\<lambda>(x, _). ret x))"

definition security_label :: "string \<Rightarrow> string" where
  "security_label protocol =
     (if protocol = ''sftp'' then ''encrypted_ssh''
      else if protocol \<in> {''ftps'', ''ftps-implicit''} then ''encrypted_tls'' else ''insecure_plaintext'')"

definition build_transfer_report ::
  "('e, 'f) transfer_env \<Rightarrow> transfer_args \<Rightarrow> int \<Rightarrow> pyval \<Rightarrow> exn option \<Rightarrow> string \<Rightarrow> rat \<Rightarrow> pyval" where
  "build_transfer_report env args port payload error auth_method duration =
     (let protocol = ta_protocol args; sftp = (protocol = ''sftp''); ftps = (protocol \<in> {''ftps'', ''ftps-implicit''});
          reference = (\<lambda>v. PStr (identifier_reference (tv_sha256 env) (ta_include_paths args) v));
          only = (\<lambda>c v. if c then v else PNone)
      in obj
        [(''schema_version'', PInt 1), (''tool'', PStr ''cli_tool_readonly_transfer''),
         (''timestamp'', PStr (te_timestamp (tv_tool env))), (''duration_seconds'', PFloat (Fin duration)),
         (''passed'', PBool (error = None)), (''protocol'', PStr protocol), (''port'', PInt port),
         (''security'', PStr (security_label protocol)), (''operation'', PStr (ta_operation args)),
         (''auth_method'', PStr auth_method), (''timeout_seconds'', PFloat (Fin (ta_timeout args))),
         (''target'', reference (ta_host args)), (''username'', reference (ta_username args)),
         (''remote_root'', reference (ta_remote_root args)), (''remote_path'', reference (ta_remote_path args)),
         (''host_key_verification'',
            only sftp (PStr (if ta_allow_unknown args then ''allow_unknown_with_warning'' else ''strict''))),
         (''custom_known_hosts'', only sftp (PBool (some_text (ta_known_hosts args)))),
         (''tls_verification'', only ftps (PStr (if ta_allow_unverified args then ''unverified_explicit'' else ''strict''))),
         (''custom_ca'', only ftps (PBool (some_text (ta_ca_file args)))),
         (''data_channel_protection'',
            if ftps then PStr ''private'' else if protocol = ''ftp'' then PStr ''plaintext'' else PNone),
         (''passive'', only (protocol \<in> set ftp_protocols) (PBool (\<not> ta_active args))),
         (''legacy_listing'', only (protocol \<in> set ftp_protocols)
            (PStr (if ta_allow_legacy args then ''enabled_'' @ (case ta_legacy_format args of None \<Rightarrow> ''None'' | Some f \<Rightarrow> f)
               else ''disabled''))),
         (''max_download_bytes'', PInt (ta_max_bytes args)), (''outcome'', payload),
         (''error_type'', error_type error), (''error_message'', safe_error_message error)])"

definition write_transfer_report :: "('e, 'f) transfer_env \<Rightarrow> transfer_args \<Rightarrow> pyval \<Rightarrow> (disk, posix_path option) act" where
  "write_transfer_report env args report =
     (if ta_no_report args then ret None
      else bnd (write_json_report (tv_tool env) (ta_report_dir args) ''cli_tool_readonly_transfer''
             (redact (te_float_text (tv_tool env)) report)) (\<lambda>p. ret (Some p)))"

text \<open>\<open>run_transfer\<close>: the exit code and what is printed.\<close>

definition run_transfer ::
  "('e, 'f) transfer_env \<Rightarrow> transfer_args \<Rightarrow> (('e sftp_client \<times> 'f ftp_client) transfer_world, int \<times> pyval) act" where
  "run_transfer env args =
     bnd (lift (validate_transfer_args args)) (\<lambda>_.
     bnd (lift (case ta_port args of Some p \<Rightarrow> Inr p
        | None \<Rightarrow> (case map_of ((''sftp'', 22) # default_ports) (ta_protocol args) of
                     Some p \<Rightarrow> Inr p | None \<Rightarrow> Inl (KeyError (ta_protocol args))))) (\<lambda>port.
     bnd (lift (resolve_auth (tv_tool env) args)) (\<lambda>(password, passphrase, auth_method).
     bnd (gets (\<lambda>w. tv_clock env (tw_remote w))) (\<lambda>started.
     bnd (capture (bnd (lift (build_client env args port password passphrase)) (\<lambda>client.
       with_client client (run_operation (tv_sha256 env) client args)))) (\<lambda>r.
     bnd (gets (\<lambda>w. tv_clock env (tw_remote w))) (\<lambda>ended.
     let report = build_transfer_report env args port (case r of Inl _ \<Rightarrow> obj [] | Inr payload \<Rightarrow> payload) (caught r)
           auth_method (round3 (ended - started)) in
     bnd (on_disk (write_transfer_report env args report)) (\<lambda>path.
     let shown = opt_str (map_option (\<lambda>p. identifier_reference (tv_sha256 env) (ta_include_paths args) (path_str p)) path) in
     ret (if caught r = None then 0 else 1,
          redact (te_float_text (tv_tool env)) (set_item report ''report_path'' shown)))))))))"

section \<open>What a client may do to the local files\<close>

text \<open>Only the files of \<open>A\<close> differ from \<open>files\<close>, and an existing destination only with \<open>overwrite\<close>.\<close>

definition local_effect :: "string set \<Rightarrow> string \<Rightarrow> bool \<Rightarrow> (string \<Rightarrow> string option) \<Rightarrow> disk \<Rightarrow> bool" where
  "local_effect A dest overwrite files d =
     (only_touches A files d \<and> (\<not> overwrite \<and> files dest \<noteq> None \<longrightarrow> dk_files d dest = files dest))"

text \<open>An invariant of each call is one of the run.\<close>

lemma keeps_with_client:
  assumes "ta_operation args \<in> {''list'', ''stat'', ''exists'', ''download''}"
    and "keeps J (tr_connect client)" and "keeps J (tr_close client)" and "\<And>p. keeps J (tr_list client p)"
    and "\<And>p. keeps J (tr_stat client p)" and "\<And>p. keeps J (tr_exists client p)"
    and "ta_operation args = ''download'' \<Longrightarrow>
      keeps J (tr_download client (ta_remote_path args) (text_of (ta_local_path args)) (ta_overwrite args))"
  shows "keeps J (with_client client (run_operation sha256 client args))"
proof -
  have "keeps J (run_operation sha256 client args)"
    using assms unfolding run_operation_def Let_def method_of_def
    by (auto intro!: keeps_bnd keeps_gets keeps_ret)
  then show ?thesis
    unfolding with_client_def by (intro keeps_intros assms(2,3))
qed

locale local_reader =
  fixes client :: "'r file_transfer" and part :: "string \<Rightarrow> string"
  assumes connect_disk: "keeps (\<lambda>w. P (tw_disk w)) (tr_connect client)"
    and close_disk: "keeps (\<lambda>w. P (tw_disk w)) (tr_close client)"
    and list_disk: "keeps (\<lambda>w. P (tw_disk w)) (tr_list client p)"
    and stat_disk: "keeps (\<lambda>w. P (tw_disk w)) (tr_stat client p)"
    and exists_disk: "keeps (\<lambda>w. P (tw_disk w)) (tr_exists client p)"
    and download_disk: "tr_download client p l overwrite w = (r, w') \<Longrightarrow>
      local_effect {part l, norm_path_str l} (norm_path_str l) overwrite (dk_files (tw_disk w)) (tw_disk w')"
begin

lemma keeps_download:
  "keeps (\<lambda>w. local_effect {part l, norm_path_str l} (norm_path_str l) overwrite files (tw_disk w)) (tr_download client p l overwrite)"
proof -
  have "local_effect {part l, norm_path_str l} (norm_path_str l) overwrite files (tw_disk w')"
    if "tr_download client p l overwrite w = (r, w')"
      "local_effect {part l, norm_path_str l} (norm_path_str l) overwrite files (tw_disk w)" for w r w'
    using download_disk [OF that(1)] that(2) by (auto simp: local_effect_def only_touches_def)
  from this [OF prod.collapse [symmetric]] show ?thesis by (simp add: keeps_def)
qed

lemma keeps_run:
  assumes "ta_operation args = ''download'' \<Longrightarrow> A = {part (text_of (ta_local_path args)), norm_path_str (text_of (ta_local_path args))}"
    and "ta_operation args \<in> {''list'', ''stat'', ''exists'', ''download''}"
  shows "keeps (\<lambda>w. local_effect A (norm_path_str (text_of (ta_local_path args))) (ta_overwrite args) files (tw_disk w))
    (with_client client (run_operation sha256 client args))"
  by (rule keeps_with_client [OF assms(2)]) (simp_all add: connect_disk close_disk list_disk stat_disk exists_disk keeps_download assms(1))

end

lemma keeps_zoom: "keeps (\<lambda>w. P (tw_disk w)) m \<Longrightarrow> keeps (\<lambda>w. P (tw_disk w)) (zoom view set_part m)"
proof -
  assume m: "keeps (\<lambda>w. P (tw_disk w)) m"
  have "P (tw_disk (snd (zoom view set_part m w)))" if "P (tw_disk w)" for w
  proof -
    let ?run = "m \<lparr>tw_remote = view (tw_remote w), tw_disk = tw_disk w\<rparr>"
    have "P (tw_disk (snd ?run))" using m that by (simp add: keeps_def)
    then show ?thesis by (cases ?run) (simp add: zoom_def)
  qed
  then show ?thesis by (simp add: keeps_def)
qed

lemma local_reader_zoom:
  assumes "local_reader c part"
  shows "local_reader (zoom_client view set_part c) part"
proof -
  note laws = assms [unfolded local_reader_def]
  show ?thesis
  proof
    fix P :: "disk \<Rightarrow> bool" and p
    show "keeps (\<lambda>w. P (tw_disk w)) (tr_connect (zoom_client view set_part c))"
      "keeps (\<lambda>w. P (tw_disk w)) (tr_close (zoom_client view set_part c))"
      "keeps (\<lambda>w. P (tw_disk w)) (tr_list (zoom_client view set_part c) p)"
      "keeps (\<lambda>w. P (tw_disk w)) (tr_stat (zoom_client view set_part c) p)"
      "keeps (\<lambda>w. P (tw_disk w)) (tr_exists (zoom_client view set_part c) p)"
      using laws by (simp_all add: zoom_client_def keeps_zoom)
  next
    fix p l overwrite w r w'
    assume "tr_download (zoom_client view set_part c) p l overwrite w = (r, w')"
    then obtain x where "tr_download c p l overwrite \<lparr>tw_remote = view (tw_remote w), tw_disk = tw_disk w\<rparr> = (r, x)"
      and "tw_disk w' = tw_disk x"
      by (auto simp: zoom_client_def zoom_def split: prod.splits)
    with laws show "local_effect {part l, norm_path_str l} (norm_path_str l) overwrite (dk_files (tw_disk w)) (tw_disk w')"
      by (metis transfer_world.select_convs(2))
  qed
qed

lemma keeps_disk_sftp:
  "keeps (\<lambda>w. P (tw_disk w)) (sftp_connect env cfg)" "keeps (\<lambda>w. P (tw_disk w)) (sftp_close env)"
  "keeps (\<lambda>w. P (tw_disk w)) (sftp_list_files env cfg p)" "keeps (\<lambda>w. P (tw_disk w)) (sftp_exists env cfg p)"
  unfolding sftp_connect_def sftp_close_def sftp_list_files_def sftp_exists_def
  by (intro keeps_intros keeps_disk_remote keeps_disk_require keeps_disk_stat)+

interpretation sftp_local: local_reader "sftp_transfer env cfg" "temporary_path (sftp_download_config cfg)" for env cfg
proof
  fix p l overwrite r w'
  fix w :: "'a sftp_client transfer_world"
  assume "tr_download (sftp_transfer env cfg) p l overwrite w = (r, w')"
  then have run: "download_with (sftp_download_config cfg) (sftp_stat env cfg) (sftp_receive env cfg) p l overwrite w = (r, w')"
    by (simp add: sftp_transfer_def sftp_download_def)
  show "local_effect {temporary_path (sftp_download_config cfg) l, norm_path_str l} (norm_path_str l) overwrite
      (dk_files (tw_disk w)) (tw_disk w')"
  proof (cases r)
    case (Inl e)
    from sftp_source.download_Inl [OF run [unfolded Inl]] show ?thesis by (auto simp: local_effect_def)
  next
    case (Inr res)
    from sftp_source.download_Inr [OF run [unfolded Inr]] show ?thesis by (auto simp: local_effect_def only_touches_def)
  qed
qed (simp_all add: sftp_transfer_def keeps_disk_sftp keeps_disk_stat)

lemma keeps_disk_ftp_operations:
  "keeps (\<lambda>w. P (tw_disk w)) (ftp_connect env cfg)" "keeps (\<lambda>w. P (tw_disk w)) (ftp_close env)"
  "keeps (\<lambda>w. P (tw_disk w)) (ftp_exists env cfg p)"
  unfolding ftp_connect_def ftp_close_def implicit_connect_def ftp_exists_def
  by (intro keeps_intros keeps_disk_ftp keeps_disk_ftp_stat)+

lemma keeps_disk_legacy_list: "keeps (\<lambda>w. P (tw_disk w)) (legacy_list_files env cfg d)"
  unfolding legacy_list_files_def retrlines_def by (intro keeps_intros keeps_disk_ftp keeps_disk_require_ftp)

lemma keeps_disk_ftp_list: "keeps (\<lambda>w. P (tw_disk w)) (ftp_list_files env cfg p)"
  unfolding ftp_list_files_def Let_def mlsd_def
  by (intro keeps_bnd keeps_lift keeps_disk_require_ftp keeps_outcome keeps_disk_ftp)
    (auto split: sum.split exn.split
      intro!: keeps_bnd keeps_outcome keeps_throw keeps_lift keeps_ret keeps_disk_ftp keeps_disk_legacy_list)

interpretation ftp_local: local_reader "ftp_transfer env cfg" "temporary_path (ftp_download_config cfg)" for env cfg
proof
  fix p l overwrite r w'
  fix w :: "'a ftp_client transfer_world"
  assume "tr_download (ftp_transfer env cfg) p l overwrite w = (r, w')"
  then have run: "download_with (ftp_download_config cfg) (ftp_stat env cfg) (ftp_receive env cfg) p l overwrite w = (r, w')"
    by (simp add: ftp_transfer_def ftp_download_def)
  show "local_effect {temporary_path (ftp_download_config cfg) l, norm_path_str l} (norm_path_str l) overwrite
      (dk_files (tw_disk w)) (tw_disk w')"
  proof (cases r)
    case (Inl e)
    from ftp_source.download_Inl [OF run [unfolded Inl]] show ?thesis by (auto simp: local_effect_def)
  next
    case (Inr res)
    from ftp_source.download_Inr [OF run [unfolded Inr]] show ?thesis by (auto simp: local_effect_def only_touches_def)
  qed
qed (simp_all add: ftp_transfer_def keeps_disk_ftp_operations keeps_disk_ftp_list keeps_disk_ftp_stat)

text \<open>The client of a run meets the contract, and its temporary names hold the run's random part.\<close>

definition part_path :: "('e, 'f) transfer_env \<Rightarrow> string \<Rightarrow> string" where
  "part_path env l =
     (case with_name (parse_path l) (temporary_name (parse_path l) (tv_uuid env)) of Inr p \<Rightarrow> path_str p | Inl _ \<Rightarrow> [])"

lemma init_uuid:
  "sftp_init sv cfg = Inr cfg' \<Longrightarrow> sf_uuid cfg' = sf_uuid cfg"
  "ftp_init fv fcfg = Inr fcfg' \<Longrightarrow> ft_uuid fcfg' = ft_uuid fcfg"
  by (auto simp: sftp_init_def ftp_init_def Let_def result_simps)

lemma built_client:
  assumes "build_client env args port password passphrase = Inr client"
  shows "local_reader client (part_path env)"
proof (cases "ta_protocol args = ''sftp''")
  case True
  then obtain cfg where cfg: "sftp_init (tv_sftp env) (sftp_config_of env args port password passphrase) = Inr cfg"
    and client: "client = zoom_client fst (\<lambda>c p. (c, snd p)) (sftp_transfer (tv_sftp env) cfg)"
    using assms by (auto simp: build_client_def and_then_eq_Inr)
  have "temporary_path (sftp_download_config cfg) = part_path env"
    using init_uuid(1) [OF cfg] by (auto simp: temporary_path_def part_path_def sftp_download_config_def sftp_config_of_def fun_eq_iff)
  then show ?thesis unfolding client by (metis local_reader_zoom sftp_local.local_reader_axioms)
next
  case False
  then obtain cfg where cfg: "ftp_init (tv_ftp env) (ftp_config_of env args port password) = Inr cfg"
    and client: "client = zoom_client snd (\<lambda>c p. (fst p, c)) (ftp_transfer (tv_ftp env) cfg)"
    using assms by (auto simp: build_client_def and_then_eq_Inr)
  have "temporary_path (ftp_download_config cfg) = part_path env"
    using init_uuid(2) [OF cfg] by (auto simp: temporary_path_def part_path_def ftp_download_config_def ftp_config_of_def fun_eq_iff)
  then show ?thesis unfolding client by (metis local_reader_zoom ftp_local.local_reader_axioms)
qed

definition download_files :: "('e, 'f) transfer_env \<Rightarrow> transfer_args \<Rightarrow> string set" where
  "download_files env args =
     (if ta_operation args = ''download''
      then {part_path env (text_of (ta_local_path args)), norm_path_str (text_of (ta_local_path args))} else {})"

definition transfer_report_files :: "('e, 'f) transfer_env \<Rightarrow> transfer_args \<Rightarrow> string set" where
  "transfer_report_files env args =
     (if ta_no_report args then {}
      else {path_str (report_path (tv_tool env) (ta_report_dir args) ''cli_tool_readonly_transfer'')})"

text \<open>The operation, then the report.\<close>

lemma keeps_captured_operation:
  assumes "ta_operation args \<in> {''list'', ''stat'', ''exists'', ''download''}"
  shows "keeps (\<lambda>w. local_effect (download_files env args) (norm_path_str (text_of (ta_local_path args))) (ta_overwrite args)
      files (tw_disk w))
    (capture (bnd (lift (build_client env args port password passphrase)) (\<lambda>client.
       with_client client (run_operation (tv_sha256 env) client args))))"
proof (intro keeps_capture keeps_bnd_lift)
  fix client
  assume "build_client env args port password passphrase = Inr client"
  then have c: "local_reader client (part_path env)" by (rule built_client)
  show "keeps (\<lambda>w. local_effect (download_files env args) (norm_path_str (text_of (ta_local_path args))) (ta_overwrite args)
      files (tw_disk w)) (with_client client (run_operation (tv_sha256 env) client args))"
    by (rule local_reader.keeps_run [OF c _ assms]) (simp add: download_files_def)
qed

lemma run_transfer_steps:
  assumes "run_transfer env args w = (r, w')"
  shows "w' = w \<or> (\<exists>port password passphrase x w1.
    capture (bnd (lift (build_client env args port password passphrase)) (\<lambda>client.
       with_client client (run_operation (tv_sha256 env) client args))) w = (x, w1) \<and>
    (w' = w1 \<or> (\<exists>report y. on_disk (write_transfer_report env args report) w1 = (y, w'))))"
  using assms
  by (auto simp: run_transfer_def Let_def lift_def gets_def ret_def bnd_def split: prod.splits sum.splits) blast+

lemma write_transfer_touches:
  assumes "on_disk (write_transfer_report env args report) w = (y, w')"
  shows "tw_remote w' = tw_remote w \<and> only_touches (transfer_report_files env args) (dk_files (tw_disk w)) (tw_disk w')"
proof -
  have "keeps (only_touches (transfer_report_files env args) (dk_files (tw_disk w))) (write_transfer_report env args report)"
    unfolding write_transfer_report_def transfer_report_files_def
    by (cases "ta_no_report args") (auto intro!: keeps_intros touch_rules)
  from keepsD [OF keeps_on_disk [OF this] assms] assms show ?thesis
    by (auto simp: only_touches_def on_disk_eq)
qed

text \<open>The FTP client of the world, under a run.\<close>

lemma keeps_zoom_remote:
  assumes "keeps (\<lambda>w. Q (tw_remote w)) m" and "\<And>x p. view (set_part x p) = x"
  shows "keeps (\<lambda>w. Q (view (tw_remote w))) (zoom view set_part m)"
proof -
  have "Q (view (tw_remote (snd (zoom view set_part m w))))" if "Q (view (tw_remote w))" for w
  proof -
    let ?run = "m \<lparr>tw_remote = view (tw_remote w), tw_disk = tw_disk w\<rparr>"
    have "Q (tw_remote (snd ?run))" using assms(1) that by (simp add: keeps_def)
    then show ?thesis by (cases ?run) (simp add: zoom_def assms(2))
  qed
  then show ?thesis by (simp add: keeps_def)
qed

lemma keeps_zoom_other:
  assumes "\<And>x p. other (set_part x p) = other p"
  shows "keeps (\<lambda>w. Q (other (tw_remote w))) (zoom view set_part m)"
  using assms by (auto simp: keeps_def zoom_def split: prod.splits)

lemma keeps_built:
  assumes "ta_operation args \<in> {''list'', ''stat'', ''exists'', ''download''}"
    and "\<And>cfg c. ta_protocol args \<noteq> ''sftp'' \<Longrightarrow>
      ftp_init (tv_ftp env) (ftp_config_of env args port password) = Inr cfg \<Longrightarrow> Q c \<longleftrightarrow> R cfg c"
    and "\<And>cfg p l overwrite. ft_protocol cfg = lower (ta_protocol args) \<Longrightarrow>
      keeps (remote_is (R cfg)) (ftp_connect (tv_ftp env) cfg) \<and> keeps (remote_is (R cfg)) (ftp_close (tv_ftp env)) \<and>
      keeps (remote_is (R cfg)) (ftp_list_files (tv_ftp env) cfg p) \<and> keeps (remote_is (R cfg)) (ftp_stat (tv_ftp env) cfg p) \<and>
      keeps (remote_is (R cfg)) (ftp_exists (tv_ftp env) cfg p) \<and>
      keeps (remote_is (R cfg)) (ftp_download (tv_ftp env) cfg p l overwrite)"
  shows "keeps (\<lambda>w. Q (snd (tw_remote w)))
    (capture (bnd (lift (build_client env args port password passphrase)) (\<lambda>client.
       with_client client (run_operation (tv_sha256 env) client args))))"
proof (intro keeps_capture keeps_bnd_lift)
  fix client
  assume client: "build_client env args port password passphrase = Inr client"
  show "keeps (\<lambda>w. Q (snd (tw_remote w))) (with_client client (run_operation (tv_sha256 env) client args))"
  proof (cases "ta_protocol args = ''sftp''")
    case True
    then obtain c where "client = zoom_client fst (\<lambda>c p. (c, snd p)) c"
      using client by (auto simp: build_client_def and_then_eq_Inr)
    then show ?thesis
      by (intro keeps_with_client [OF assms(1)]) (simp_all add: zoom_client_def keeps_zoom_other)
  next
    case False
    then obtain cfg where init: "ftp_init (tv_ftp env) (ftp_config_of env args port password) = Inr cfg"
      and c: "client = zoom_client snd (\<lambda>c p. (fst p, c)) (ftp_transfer (tv_ftp env) cfg)"
      using client by (auto simp: build_client_def and_then_eq_Inr)
    have protocol: "ft_protocol cfg = lower (ta_protocol args)"
      using init by (auto simp: ftp_init_def Let_def result_simps ftp_config_of_def)
    have Q: "Q = R cfg" using assms(2) [OF False init] by (rule ext)
    show ?thesis
      unfolding Q c
      by (intro keeps_with_client [OF assms(1)])
        (simp_all add: zoom_client_def ftp_transfer_def keeps_zoom_remote assms(3) [OF protocol])
  qed
qed

text \<open>Commands that only read, on paths inside the root.\<close>

definition reads_inside :: "string \<Rightarrow> ftp_step \<Rightarrow> bool" where
  "reads_inside base s =
     (case s of
        DataCommand c \<Rightarrow> \<exists>verb \<in> {''LIST '', ''MLSD '', ''RETR ''}. \<exists>p. c = verb @ p \<and> inside_root base p
      | ControlCommand c \<Rightarrow> \<exists>verb \<in> {''MLST '', ''MDTM ''}. \<exists>p. c = verb @ p \<and> inside_root base p
      | _ \<Rightarrow> True)"

lemma read_only_root: "ft_remote_root cfg = ft_remote_root cfg' \<Longrightarrow> ftp_read_only cfg c = ftp_read_only cfg' c"
  by (simp add: ftp_read_only_def step_read_only_def path_allowed_def list_all_iff split: ftp_step.split)

lemma read_only_reads: "ftp_read_only cfg c \<Longrightarrow> list_all (reads_inside (ft_remote_root cfg)) (fc_log c)"
  unfolding ftp_read_only_def list_all_iff step_read_only_def reads_inside_def path_allowed_def
  by (fastforce split: ftp_step.splits)

lemma init_root:
  "ftp_init fv cfg = Inr cfg' \<Longrightarrow> resolve_remote_path (ft_remote_root cfg) ''.'' = Inr (ft_remote_root cfg')"
  by (auto simp: ftp_init_def Let_def result_simps)

lemma keeps_reads:
  assumes "ta_operation args \<in> {''list'', ''stat'', ''exists'', ''download''}"
    and "resolve_remote_path (ta_remote_root args) ''.'' = Inr base"
  shows "keeps (\<lambda>w. ftp_read_only ((ftp_config_of env args 0 None)\<lparr>ft_remote_root := base\<rparr>) (snd (tw_remote w)))
    (capture (bnd (lift (build_client env args port password passphrase)) (\<lambda>client.
       with_client client (run_operation (tv_sha256 env) client args))))"
proof (rule keeps_built [OF assms(1), where R = ftp_read_only])
  fix cfg and c :: "'b ftp_client"
  assume "ftp_init (tv_ftp env) (ftp_config_of env args port password) = Inr cfg"
  from init_root [OF this] assms(2) have "base = ft_remote_root cfg" by (simp add: ftp_config_of_def)
  then show "ftp_read_only ((ftp_config_of env args 0 None)\<lparr>ft_remote_root := base\<rparr>) c = ftp_read_only cfg c"
    by (intro read_only_root) simp
qed (simp add: keeps_ro_connect keeps_ro_close keeps_ro_list keeps_ro_stat keeps_ro_exists keeps_ro_download)

lemma keeps_protected:
  assumes "ta_operation args \<in> {''list'', ''stat'', ''exists'', ''download''}"
    and "ta_protocol args \<in> {''ftps'', ''ftps-implicit''}"
  shows "keeps (\<lambda>w. ftp_safe (ta_protocol args = ''ftps-implicit'') (snd (tw_remote w)))
    (capture (bnd (lift (build_client env args port password passphrase)) (\<lambda>client.
       with_client client (run_operation (tv_sha256 env) client args))))"
proof (rule keeps_built [OF assms(1), where R = "\<lambda>_. ftp_safe (ta_protocol args = ''ftps-implicit'')"])
  have lower: "lower ''ftps'' = ''ftps''" "lower ''ftps-implicit'' = ''ftps-implicit''" by code_simp+
  fix cfg :: ftp_config and p l overwrite
  assume "ft_protocol cfg = lower (ta_protocol args)"
  with assms(2) lower have tls: "ft_protocol cfg \<noteq> ''ftp''" "(ta_protocol args = ''ftps-implicit'') \<longleftrightarrow> ft_protocol cfg = ''ftps-implicit''"
    by auto
  show "keeps (remote_is (ftp_safe (ta_protocol args = ''ftps-implicit''))) (ftp_connect (tv_ftp env) cfg) \<and>
      keeps (remote_is (ftp_safe (ta_protocol args = ''ftps-implicit''))) (ftp_close (tv_ftp env)) \<and>
      keeps (remote_is (ftp_safe (ta_protocol args = ''ftps-implicit''))) (ftp_list_files (tv_ftp env) cfg p) \<and>
      keeps (remote_is (ftp_safe (ta_protocol args = ''ftps-implicit''))) (ftp_stat (tv_ftp env) cfg p) \<and>
      keeps (remote_is (ftp_safe (ta_protocol args = ''ftps-implicit''))) (ftp_exists (tv_ftp env) cfg p) \<and>
      keeps (remote_is (ftp_safe (ta_protocol args = ''ftps-implicit''))) (ftp_download (tv_ftp env) cfg p l overwrite)"
    unfolding ftp_download_def
    by (intro conjI keeps_safe_connect [OF tls] keeps_safe_close keeps_safe_list [OF tls] keeps_safe_stat [OF tls]
        keeps_safe_exists [OF tls] keeps_download_with keeps_safe_receive [OF tls])
qed simp

text \<open>An invariant of the clients of a run.\<close>

lemma run_transfer_remote:
  assumes "run_transfer env args w = (r, w')" and "Q (tw_remote w)"
    and "\<And>port password passphrase. keeps (\<lambda>w. Q (tw_remote w))
      (capture (bnd (lift (build_client env args port password passphrase)) (\<lambda>client.
         with_client client (run_operation (tv_sha256 env) client args))))"
  shows "Q (tw_remote w')"
proof -
  have operation: "Q (tw_remote w1)" if "capture (bnd (lift (build_client env args port password passphrase)) (\<lambda>client.
         with_client client (run_operation (tv_sha256 env) client args))) w = (x, w1)" for port password passphrase x w1
    by (rule keepsD [OF assms(3) that assms(2)])
  from run_transfer_steps [OF assms(1)] operation assms(2) show ?thesis
    by (auto dest: write_transfer_touches)
qed

section \<open>Lemmas: reports\<close>

lemma serializable_list_payload:
  "serializable (file_info_payload sha256 include info)" "serializable (file_list_payload sha256 include items)"
  "serializable (download_payload sha256 include result)"
  by (auto simp: file_list_payload_def list_all_iff file_info_payload_def download_payload_def file_info_as_dict_def
      download_as_dict_def serializable_obj intro!: serializable_set_item split: option.split)

lemma operation_serializable:
  "run_operation sha256 client args w = (Inr v, w') \<Longrightarrow> serializable v"
  by (auto simp: run_operation_def Let_def method_of_def gets_def bnd_eq_Inr ret_def serializable_obj serializable_list_payload
      split: if_splits)

lemma with_client_result:
  "with_client client m w = (Inr v, w') \<Longrightarrow> \<exists>s s'. m s = (Inr v, s')"
  by (auto simp: with_client_def bnd_eq_Inr finally_eq_Inr ret_def)

definition report_notice :: string where
  "report_notice = ''operation failed; inspect error_type and trusted local diagnostics''"

lemma notice_public: "redact_text report_notice = report_notice" by code_simp

lemma labels_public: "redact_text (security_label protocol) = security_label protocol"
proof -
  have "redact_text ''encrypted_ssh'' = ''encrypted_ssh''" "redact_text ''encrypted_tls'' = ''encrypted_tls''"
    "redact_text ''insecure_plaintext'' = ''insecure_plaintext''" by code_simp+
  then show ?thesis by (simp add: security_label_def)
qed

lemma report_shown:
  assumes "shown = redact ft (set_item (build_transfer_report env args port v error auth_method duration) ''report_path'' path)"
  shows "get_item shown ''passed'' = Inr (PBool (error = None)) \<and>
    get_item shown ''outcome'' = Inr (redact ft v) \<and>
    get_item shown ''error_message'' = Inr (if error = None then PNone else PStr report_notice) \<and>
    get_item shown ''security'' = Inr (PStr (security_label (ta_protocol args)))"
  unfolding assms build_transfer_report_def Let_def
  by (simp add: set_item_obj get_redacted public_keys redact.simps safe_error_message_def opt_str_def notice_public
      labels_public report_notice_def [symmetric] split: option.split)

lemma report_serializable:
  "serializable v \<Longrightarrow> serializable (build_transfer_report env args port v error auth_method duration)"
  by (simp add: build_transfer_report_def Let_def serializable_obj)

lemma run_transfer_report:
  assumes "run_transfer env args w = (Inr (code, shown), w')"
  shows "\<exists>port v error auth_method duration path.
    shown = redact (te_float_text (tv_tool env))
      (set_item (build_transfer_report env args port v error auth_method duration) ''report_path'' (opt_str path)) \<and>
    serializable v \<and> code = (if error = None then 0 else 1) \<and> (error \<noteq> None \<longrightarrow> v = obj [])"
proof -
  obtain port v error auth_method duration path x where
    shown: "shown = redact (te_float_text (tv_tool env))
      (set_item (build_transfer_report env args port v error auth_method duration) ''report_path'' (opt_str path))"
    and v: "v = (case x of Inl _ \<Rightarrow> obj [] | Inr u \<Rightarrow> u)" and error: "error = caught x"
    and code: "code = (if caught x = None then 0 else 1)"
    and x: "\<And>u. x = Inr u \<Longrightarrow> serializable u"
  proof -
    from assms obtain port password passphrase auth_method duration path x w1 w2 where
      run: "capture (bnd (lift (build_client env args port password passphrase)) (\<lambda>client.
         with_client client (run_operation (tv_sha256 env) client args))) w1 = (Inr x, w2)"
      and rest: "shown = redact (te_float_text (tv_tool env)) (set_item (build_transfer_report env args port
          (case x of Inl _ \<Rightarrow> obj [] | Inr u \<Rightarrow> u) (caught x) auth_method duration) ''report_path'' (opt_str path))"
        "code = (if caught x = None then 0 else 1)"
      by (auto simp: run_transfer_def Let_def bnd_eq_Inr ret_def gets_def lift_def)
    have "serializable u" if "x = Inr u" for u
      using run that by (auto simp: capture_eq bnd_eq_Inr lift_def dest!: with_client_result dest: operation_serializable)
    with rest show ?thesis by (intro that) auto
  qed
  have "serializable v" using x unfolding v by (cases x) (auto simp: obj_def)
  moreover have "error \<noteq> None \<longrightarrow> v = obj []" unfolding v error by (cases x) (simp_all add: caught_def)
  ultimately show ?thesis using shown code error by blast
qed

lemma plain_ftp_refused: "ta_protocol args = ''ftp'' \<Longrightarrow> \<not> ta_allow_insecure args \<Longrightarrow> \<exists>e. validate_transfer_args args = Inl e"
proof -
  assume "ta_protocol args = ''ftp''" "\<not> ta_allow_insecure args"
  then have "validate_transfer_args args \<noteq> Inr ()"
    by (auto simp: validate_transfer_args_def validate_protocol_args_def Let_def result_simps)
  then show ?thesis by (cases "validate_transfer_args args") auto
qed

section \<open>Properties\<close>

definition demo_transfer_args :: "string \<Rightarrow> string \<Rightarrow> string \<Rightarrow> transfer_args" where
  "demo_transfer_args protocol operation host =
     \<lparr>ta_operation = operation, ta_protocol = protocol, ta_host = host, ta_port = None, ta_username = ''u'',
      ta_password_env = None, ta_private_key = None, ta_passphrase_env = None, ta_timeout = 5, ta_known_hosts = None,
      ta_allow_unknown = False, ta_ca_file = None, ta_allow_unverified = False, ta_allow_insecure = False,
      ta_active = False, ta_allow_legacy = False, ta_legacy_format = None, ta_remote_root = ''/'', ta_remote_path = ''f'',
      ta_local_path = (if operation = ''download'' then Some ''out/f'' else None), ta_max_bytes = 10, ta_overwrite = False,
      ta_include_paths = False, ta_report_dir = ''r'', ta_no_report = True\<rparr>"

definition demo_transfer_env :: "(string list, unit) transfer_env" where
  "demo_transfer_env =
     \<lparr>tv_tool = \<lparr>te_getenv = (\<lambda>_. Some ''p''), te_decode = Inr, te_float_text = (\<lambda>_. ''1.0''), te_timestamp = ''t'', te_stamp = ''s''\<rparr>,
      tv_sftp = Sftp.demo_server 5, tv_ftp = demo_ftp_server, tv_sha256 = id, tv_uuid = ''aa'', tv_clock = (\<lambda>_. 0)\<rparr>"

definition demo_transfer_world :: "(string list sftp_client \<times> unit ftp_client) transfer_world" where
  "demo_transfer_world =
     \<lparr>tw_remote = (tw_remote (demo_sftp_world [''abc'', ''de'']), tw_remote demo_ftp_world),
      tw_disk = \<lparr>dk_files = [''out/f'' \<mapsto> ''kept''], dk_faults = []\<rparr>\<rparr>"

text \<open>C34. What a run does to the local files, whatever the server does and wherever the run fails: only the report
  and, for a download, its destination and its temporary name can change, and without \<open>--overwrite\<close> a file that is
  already at the destination stays as it is (unless the destination is the report's own name).\<close>

theorem transfer_tool_files:
  assumes "run_transfer env args w = (r, w')" and "ta_operation args \<in> {''list'', ''stat'', ''exists'', ''download''}"
  shows "(\<forall>p. p \<notin> download_files env args \<union> transfer_report_files env args \<longrightarrow> dk_files (tw_disk w') p = dk_files (tw_disk w) p) \<and>
    (\<not> ta_overwrite args \<and> dk_files (tw_disk w) (norm_path_str (text_of (ta_local_path args))) \<noteq> None \<and>
       norm_path_str (text_of (ta_local_path args)) \<notin> transfer_report_files env args \<longrightarrow>
     dk_files (tw_disk w') (norm_path_str (text_of (ta_local_path args))) =
     dk_files (tw_disk w) (norm_path_str (text_of (ta_local_path args))))"
proof -
  let ?effect = "local_effect (download_files env args) (norm_path_str (text_of (ta_local_path args))) (ta_overwrite args)
      (dk_files (tw_disk w))"
  have start: "?effect (tw_disk w)" by (simp add: local_effect_def only_touches_def)
  have "\<exists>d. ?effect d \<and> only_touches (transfer_report_files env args) (dk_files d) (tw_disk w')"
    using run_transfer_steps [OF assms(1)]
  proof (elim disjE exE conjE)
    fix port password passphrase x w1
    assume run: "capture (bnd (lift (build_client env args port password passphrase)) (\<lambda>client.
       with_client client (run_operation (tv_sha256 env) client args))) w = (x, w1)"
    note effect = keepsD [OF keeps_captured_operation [OF assms(2)] run start]
    show ?thesis if "w' = w1" using effect that by (intro exI [of _ "tw_disk w1"]) (simp add: only_touches_def)
    show ?thesis if "on_disk (write_transfer_report env args report) w1 = (y, w')" for report y
      using effect write_transfer_touches [OF that] by blast
  qed (use start in \<open>auto simp: only_touches_def\<close>)
  then show ?thesis by (auto simp: local_effect_def only_touches_def)
qed

lemma transfer_tool_files_witness:
  "dk_files (tw_disk (snd (run_transfer demo_transfer_env (demo_transfer_args ''sftp'' ''download'' ''h'') demo_transfer_world)))
    ''out/f'' = Some ''kept''"
proof -
  have dest: "norm_path_str (text_of (ta_local_path (demo_transfer_args ''sftp'' ''download'' ''h''))) = ''out/f''" by code_simp
  have "transfer_report_files demo_transfer_env (demo_transfer_args ''sftp'' ''download'' ''h'') = {}"
    "\<not> ta_overwrite (demo_transfer_args ''sftp'' ''download'' ''h'')"
    "ta_operation (demo_transfer_args ''sftp'' ''download'' ''h'') = ''download''"
    by (simp_all add: transfer_report_files_def demo_transfer_args_def)
  then show ?thesis
    using transfer_tool_files [of demo_transfer_env "demo_transfer_args ''sftp'' ''download'' ''h''" demo_transfer_world,
      OF prod.collapse [symmetric]]
    by (simp add: dest demo_transfer_world_def)
qed





end
