(* ===== verification/SmokeTool.thy ===== *)
theory SmokeTool
  imports Loader Telnet Serial SshPool ToolSupport
begin

text \<open>
  The smoke command, \<open>tools/cli_tool_readonly_smoke.py\<close>: it resolves its configuration from the arguments, a
  target file or a loaded environment, runs one command of a catalog over the chosen transport and verifies the
  output. Parameters: \<open>float(value)\<close>, \<open>str.upper\<close>, the package \<open>config_loader\<close> of the project that uses the
  command, and the transports with an infinite timeout or one that is not a number.
\<close>

section \<open>Arguments and surroundings\<close>

record smoke_args =
  ma_transport :: "string option"
  ma_catalog :: "string option"
  ma_command_id :: "string option"
  ma_env_node :: "string option"
  ma_target_config :: "string option"
  ma_target :: "string option"
  ma_auth_profile :: string
  ma_node_key :: "string option"
  ma_host :: "string option"
  ma_username :: "string option"
  ma_password_env :: "string option"
  ma_params :: "string list"
  ma_owner :: string
  ma_ssh_timeout :: "pyfloat option"
  ma_ssh_attempts :: "int option"
  ma_ssh_backoff :: "pyfloat option"
  ma_known_hosts :: "string option"
  ma_allow_unknown :: bool
  ma_serial_port :: "string option"
  ma_baudrate :: "int option"
  ma_serial_timeout :: "pyfloat option"
  ma_telnet_port :: "int option"
  ma_telnet_timeout :: "pyfloat option"
  ma_allow_telnet :: bool
  ma_include_output :: bool
  ma_max_output :: int
  ma_report_dir :: "string option"
  ma_no_report :: bool

text \<open>What \<open>config_loader.load_environment\<close> returns; \<open>None\<close> is a missing attribute \<open>node_target\<close>.\<close>

record loaded_environment =
  le_node_target :: "pyval option"
  le_username :: string
  le_password :: string
  le_auth_profile :: string
  le_node_key :: string
  le_device_ip :: string

record smoke_target =
  st_node_key :: string
  st_host :: string
  st_username :: string
  st_password :: string
  st_auth_source :: string
  st_transport :: string
  st_serial_port :: "string option"

record smoke_config =
  sm_target :: smoke_target
  sm_catalog :: posix_path
  sm_command_id :: string
  sm_ssh_timeout :: pyfloat
  sm_ssh_attempts :: int
  sm_ssh_backoff :: pyfloat
  sm_known_hosts :: "posix_path option"
  sm_allow_unknown :: bool
  sm_telnet_port :: int
  sm_telnet_timeout :: pyfloat
  sm_allow_telnet :: bool
  sm_baudrate :: int
  sm_serial_timeout :: pyfloat
  sm_report_dir :: posix_path

text \<open>The device: a terminal link for Telnet and serial, the pools of the process for SSH.\<close>

record device_world =
  dw_link :: session
  dw_pools :: pools_world

record smoke_env =
  se_tool :: tool_env
  se_loader :: loader_env
  se_special :: special_field
  se_float :: "pyval \<Rightarrow> pyfloat result"
  se_upper :: "string \<Rightarrow> string"
  se_config_loader :: bool
  se_load_environment :: "string \<Rightarrow> string \<Rightarrow> loaded_environment result"
  se_decode :: "string \<Rightarrow> string"
  se_timeout_text :: "rat \<Rightarrow> string"
  se_serial_installed :: bool
  se_ssh :: ssh_config                       \<comment> \<open>the fields that do not come from the arguments\<close>
  se_other_transport :: "smoke_config \<Rightarrow> device_world transport"
  se_clock :: "device_world \<Rightarrow> rat"

section \<open>Settings\<close>

type_synonym settings = "(pyval \<times> pyval) list"

text \<open>\<open>cli_config.get(key, fallback)\<close>\<close>

definition get_or :: "settings \<Rightarrow> string \<Rightarrow> pyval \<Rightarrow> pyval" where
  "get_or cfg key fallback = (case map_of cfg (PStr key) of None \<Rightarrow> fallback | Some v \<Rightarrow> v)"

definition bad_setting :: "string \<Rightarrow> string \<Rightarrow> exn" where
  "bad_setting key what = SystemExit (''node_target.cli.'' @ key @ '' must be a '' @ what)"

definition nonblank_text :: "pyval \<Rightarrow> string \<Rightarrow> string result" where
  "nonblank_text v key =
     (case v of
        PStr s \<Rightarrow> if blank s then Inl (bad_setting key ''non-empty string'') else Inr (strip s)
      | _ \<Rightarrow> Inl (bad_setting key ''non-empty string''))"

definition string_setting :: "string option \<Rightarrow> settings \<Rightarrow> string \<Rightarrow> string \<Rightarrow> string result" where
  "string_setting argument cfg key fallback =
     nonblank_text (case argument of Some s \<Rightarrow> PStr s | None \<Rightarrow> get_or cfg key (PStr fallback)) key"

definition optional_string :: "settings \<Rightarrow> string \<Rightarrow> string option result" where
  "optional_string cfg key =
     (case get_str cfg key of
        PNone \<Rightarrow> Inr None
      | v \<Rightarrow> and_then (nonblank_text v key) (\<lambda>s. Inr (Some s)))"

text \<open>\<open>argument or _optional_string(cli_config, key)\<close>\<close>

definition argument_or :: "string option \<Rightarrow> settings \<Rightarrow> string \<Rightarrow> string option result" where
  "argument_or argument cfg key = (if some_text argument then Inr argument else optional_string cfg key)"

definition is_type_or_value_error :: "exn \<Rightarrow> bool" where
  "is_type_or_value_error e = (is_value_error e \<or> (case e of TypeError _ \<Rightarrow> True | _ \<Rightarrow> False))"

definition float_setting ::
  "smoke_env \<Rightarrow> (pyfloat \<Rightarrow> bool) \<Rightarrow> string \<Rightarrow> pyval \<Rightarrow> string \<Rightarrow> pyfloat \<Rightarrow> pyfloat result" where
  "float_setting env refused what value name fallback =
     (case value of
        PNone \<Rightarrow> Inr fallback
      | PBool b \<Rightarrow> Inl (bad_setting name what)
      | _ \<Rightarrow> (case se_float env value of
               Inl e \<Rightarrow> Inl (if is_type_or_value_error e then bad_setting name what else e)
             | Inr x \<Rightarrow> if refused x then Inl (bad_setting name what) else Inr x))"

definition positive_float :: "smoke_env \<Rightarrow> pyval \<Rightarrow> string \<Rightarrow> pyfloat \<Rightarrow> pyfloat result" where
  "positive_float env = float_setting env (\<lambda>x. float_le_rat x 0) ''positive number''"

definition non_negative_float :: "smoke_env \<Rightarrow> pyval \<Rightarrow> string \<Rightarrow> pyfloat \<Rightarrow> pyfloat result" where
  "non_negative_float env = float_setting env (\<lambda>x. float_lt_rat x 0) ''non-negative number''"

text \<open>\<open>int(value)\<close>\<close>

definition int_of_value :: "pyval \<Rightarrow> int result" where
  "int_of_value value =
     (case value of
        PInt i \<Rightarrow> Inr i
      | PBool b \<Rightarrow> Inr (if b then 1 else 0)
      | PStr s \<Rightarrow> (case parse_int s of Some i \<Rightarrow> Inr i
                  | None \<Rightarrow> Inl (ValueError (''invalid literal for int() with base 10: '' @ py_repr s)))
      | PFloat (Fin r) \<Rightarrow> Inr (if r < 0 then - \<lfloor>- r\<rfloor> else \<lfloor>r\<rfloor>)
      | PFloat (Infinity neg) \<Rightarrow> Inl (OtherException ''OverflowError'' ''cannot convert float infinity to integer'')
      | PFloat NotANumber \<Rightarrow> Inl (ValueError ''cannot convert float NaN to integer'')
      | _ \<Rightarrow> Inl (TypeError ''int() argument must be a string or a number''))"

definition positive_int :: "smoke_env \<Rightarrow> pyval \<Rightarrow> string \<Rightarrow> int \<Rightarrow> int result" where
  "positive_int env value name fallback =
     (case value of
        PNone \<Rightarrow> Inr fallback
      | PBool b \<Rightarrow> Inl (bad_setting name ''positive integer'')
      | _ \<Rightarrow> (case int_of_value value of
               Inl e \<Rightarrow> Inl (if is_type_or_value_error e then bad_setting name ''positive integer'' else e)
             | Inr i \<Rightarrow>
                 if i \<le> 0 \<or> str_of_int i \<noteq> strip (str_val (te_float_text (se_tool env)) value)
                 then Inl (bad_setting name ''positive integer'') else Inr i))"

section \<open>Where the settings come from\<close>

definition node_cli_config :: "loaded_environment option \<Rightarrow> settings result" where
  "node_cli_config env_config =
     (case env_config of
        None \<Rightarrow> Inr []
      | Some le \<Rightarrow>
          (case (case le_node_target le of None \<Rightarrow> PDict [] | Some v \<Rightarrow> v) of
             PDict d \<Rightarrow>
               (case get_or d ''cli'' (PDict []) of
                  PNone \<Rightarrow> Inr []
                | PDict cli \<Rightarrow> Inr cli
                | _ \<Rightarrow> Inl (SystemExit ''node_target.cli must be a mapping''))
           | _ \<Rightarrow> Inl (SystemExit ''config_loader EnvironmentConfig.node_target must be a mapping'')))"

text \<open>\<open>value == 1\<close>\<close>

definition equals_one :: "pyval \<Rightarrow> bool" where
  "equals_one v = (v \<in> {PInt 1, PFloat (Fin 1), PBool True})"

definition load_portable_target :: "smoke_env \<Rightarrow> string \<Rightarrow> string \<Rightarrow> settings result" where
  "load_portable_target env name target_key =
     (let path = path_str (parse_path name) in
      case yaml_safe_load (se_loader env) of
        None \<Rightarrow> Inl (RuntimeError ''PyYAML is required to load portable target config'')
      | Some load \<Rightarrow>
          and_then (case and_then (read_text (se_loader env) path) load of
                      Inl e \<Rightarrow> Inl (if is_os_error e then SystemExit (''cannot read target config '' @ path @ '': '' @ exn_text e) else e)
                    | Inr data \<Rightarrow> Inr data) (\<lambda>data.
          case data of
            PDict d \<Rightarrow>
              (if \<not> equals_one (get_str d ''version'')
               then Inl (SystemExit (path @ '': target config must declare version: 1''))
               else case get_str d ''targets'' of
                      PDict targets \<Rightarrow>
                        (case get_str targets target_key of
                           PDict target \<Rightarrow> Inr (if map_of target (PStr ''node_key'') = None
                             then target @ [(PStr ''node_key'', PStr target_key)] else target)
                         | _ \<Rightarrow> Inl (SystemExit (path @ '': target '' @ py_repr target_key @ '' is not defined'')))
                    | _ \<Rightarrow> Inl (SystemExit (path @ '': targets must be a mapping'')))
          | _ \<Rightarrow> Inl (SystemExit (path @ '': target config must declare version: 1''))))"

definition is_config_error :: "exn \<Rightarrow> bool" where
  "is_config_error e = (case e of OtherException name _ \<Rightarrow> name = ''ConfigError'' | _ \<Rightarrow> False)"

definition load_environment_for_node :: "smoke_env \<Rightarrow> string \<Rightarrow> string \<Rightarrow> loaded_environment result" where
  "load_environment_for_node env node auth_profile =
     (if \<not> se_config_loader env
      then Inl (SystemExit ''--env-node requires a compatible config_loader package from the consuming project'')
      else case se_load_environment env node auth_profile of
             Inl e \<Rightarrow> if \<not> is_config_error e \<or> se_upper env node = node then Inl e
                      else se_load_environment env (se_upper env node) auth_profile
           | Inr le \<Rightarrow> Inr le)"

definition resolve_config_source :: "smoke_env \<Rightarrow> smoke_args \<Rightarrow> (loaded_environment option \<times> settings) result" where
  "resolve_config_source env args =
     and_then (raise_when (some_text (ma_env_node args) \<and> (some_text (ma_target_config args) \<or> some_text (ma_target args)))
       (SystemExit ''--env-node cannot be combined with --target-config or --target'')) (\<lambda>_.
     and_then (raise_when (some_text (ma_target_config args) \<noteq> some_text (ma_target args))
       (SystemExit ''--target-config and --target must be provided together'')) (\<lambda>_.
     if some_text (ma_target_config args)
     then and_then (load_portable_target env (text_of (ma_target_config args)) (text_of (ma_target args))) (\<lambda>cfg. Inr (None, cfg))
     else if some_text (ma_env_node args)
     then and_then (load_environment_for_node env (text_of (ma_env_node args)) (ma_auth_profile args)) (\<lambda>le.
          and_then (node_cli_config (Some le)) (\<lambda>cfg. Inr (Some le, cfg)))
     else Inr (None, [])))"

section \<open>The target\<close>

definition default_password_env :: string where "default_password_env = ''CLI_TOOL_SSH_PASSWORD''"

definition resolve_password ::
  "smoke_env \<Rightarrow> smoke_args \<Rightarrow> settings \<Rightarrow> loaded_environment option \<Rightarrow> string option \<Rightarrow> (string \<times> string) result" where
  "resolve_password env args cfg env_config username =
     and_then (argument_or (ma_password_env args) cfg ''password_env'') (\<lambda>password_env.
     case password_env of
       Some name \<Rightarrow> and_then (required_variable (se_tool env) ''missing CLI password env var: '' name) (\<lambda>password.
         Inr (password, ''env:'' @ name))
     | None \<Rightarrow>
         (case env_config of
            Some le \<Rightarrow>
              and_then (raise_when (username \<noteq> Some (le_username le))
                (SystemExit ''overriding node_target.cli.username requires --password-env or cli.password_env'')) (\<lambda>_.
              Inr (le_password le, ''config_loader:'' @ le_auth_profile le @ '':readwrite''))
          | None \<Rightarrow>
              and_then (required_variable (se_tool env) ''missing CLI password env var: '' default_password_env) (\<lambda>password.
              Inr (password, ''env:'' @ default_password_env))))"

text \<open>The missing arguments, by option name.\<close>

definition require_present :: "string \<Rightarrow> (string \<times> string option) list \<Rightarrow> unit result" where
  "require_present transport given =
     (let missing = map fst (filter (\<lambda>(name, v). \<not> some_text v) given)
      in raise_when (missing \<noteq> []) (SystemExit (''missing required arguments with --transport '' @ transport @ '': '' @
           join '', '' (map (\<lambda>name. ''--'' @ name) missing))))"

definition resolve_serial_target ::
  "smoke_args \<Rightarrow> loaded_environment option \<Rightarrow> settings \<Rightarrow> string option \<Rightarrow> string \<Rightarrow> string \<Rightarrow> smoke_target result" where
  "resolve_serial_target args env_config cfg username password auth_source =
     and_then (argument_or (ma_serial_port args) cfg ''serial_port'') (\<lambda>serial_port.
     and_then (argument_or (ma_node_key args) cfg ''node_key'') (\<lambda>given.
     let node_key = (case given of Some k \<Rightarrow> Some k
           | None \<Rightarrow> (case env_config of Some le \<Rightarrow> Some (le_node_key le) | None \<Rightarrow> serial_port)) in
     and_then (require_present ''serial'' [(''serial-port'', serial_port), (''username'', username)]) (\<lambda>_.
     Inr \<lparr>st_node_key = text_of node_key, st_host = text_of serial_port, st_username = text_of username, st_password = password,
          st_auth_source = auth_source, st_transport = ''serial'', st_serial_port = serial_port\<rparr>)))"

definition resolve_target ::
  "smoke_env \<Rightarrow> smoke_args \<Rightarrow> loaded_environment option \<Rightarrow> settings \<Rightarrow> string \<Rightarrow> smoke_target result" where
  "resolve_target env args env_config cfg transport =
     (let otherwise = (\<lambda>given field. case given of Some v \<Rightarrow> Some v | None \<Rightarrow> map_option field env_config) in
      and_then (argument_or (ma_username args) cfg ''username'') (\<lambda>given_username.
      let username = otherwise given_username le_username in
      and_then (resolve_password env args cfg env_config username) (\<lambda>(password, auth_source).
      if transport = ''serial'' then resolve_serial_target args env_config cfg username password auth_source
      else
        and_then (argument_or (ma_node_key args) cfg ''node_key'') (\<lambda>given_node.
        and_then (argument_or (ma_host args) cfg ''host'') (\<lambda>given_host.
        let node_key = otherwise given_node le_node_key; host = otherwise given_host le_device_ip in
        and_then (require_present transport [(''node-key'', node_key), (''host'', host), (''username'', username)]) (\<lambda>_.
        Inr \<lparr>st_node_key = text_of node_key, st_host = text_of host, st_username = text_of username, st_password = password,
             st_auth_source = auth_source, st_transport = transport, st_serial_port = None\<rparr>))))))"

definition float_argument :: "pyfloat option \<Rightarrow> pyval \<Rightarrow> pyval" where
  "float_argument argument otherwise = (case argument of Some x \<Rightarrow> PFloat x | None \<Rightarrow> otherwise)"

definition int_argument :: "int option \<Rightarrow> pyval \<Rightarrow> pyval" where
  "int_argument argument otherwise = (case argument of Some i \<Rightarrow> PInt i | None \<Rightarrow> otherwise)"


definition smoke_transports :: "string set" where "smoke_transports = {''ssh'', ''serial'', ''telnet''}"

definition resolve_transport :: "smoke_args \<Rightarrow> settings \<Rightarrow> string result" where
  "resolve_transport args cfg =
     and_then (string_setting (ma_transport args) cfg ''transport'' ''ssh'') (\<lambda>given.
     let transport = lower given in
     and_then (raise_when (transport \<notin> smoke_transports)
       (SystemExit (''node_target.cli.transport must be '' @ py_repr ''ssh'' @ '', '' @ py_repr ''serial'' @ '' or '' @ py_repr ''telnet''))) (\<lambda>_.
     and_then (raise_when (transport = ''telnet'' \<and> \<not> ma_allow_telnet args)
       (SystemExit ''Telnet is plaintext; pass --allow-insecure-telnet for an isolated lab'')) (\<lambda>_.
     Inr transport)))"

text \<open>\<open>_resolve_smoke_config\<close>, in the order of the code.\<close>

definition resolve_smoke_config :: "smoke_env \<Rightarrow> smoke_args \<Rightarrow> smoke_config result" where
  "resolve_smoke_config env args =
     and_then (resolve_config_source env args) (\<lambda>(env_config, cfg).
     and_then (resolve_transport args cfg) (\<lambda>transport.
     and_then (string_setting (ma_catalog args) cfg ''catalog'' ''builtin:generic'') (\<lambda>catalog.
     and_then (string_setting (ma_command_id args) cfg ''default_command'' ''show_version'') (\<lambda>command_id.
     let timeout = get_str cfg ''timeout'' in
     and_then (positive_float env (float_argument (ma_ssh_timeout args) (get_or cfg ''ssh_timeout'' timeout)) ''ssh_timeout'' (Fin 15)) (\<lambda>ssh_timeout.
     and_then (positive_int env (int_argument (ma_ssh_attempts args) (get_str cfg ''ssh_connect_attempts'')) ''ssh_connect_attempts'' 3) (\<lambda>attempts.
     and_then (non_negative_float env (float_argument (ma_ssh_backoff args) (get_str cfg ''ssh_retry_backoff_seconds''))
       ''ssh_retry_backoff_seconds'' (Fin 1)) (\<lambda>backoff.
     and_then (argument_or (ma_known_hosts args) cfg ''known_hosts'') (\<lambda>known_hosts.
     and_then (positive_int env (int_argument (ma_telnet_port args) (get_str cfg ''telnet_port'')) ''telnet_port'' 23) (\<lambda>telnet_port.
     and_then (raise_when (telnet_port > 65535) (SystemExit ''node_target.cli.telnet_port must be between 1 and 65535'')) (\<lambda>_.
     and_then (positive_float env (float_argument (ma_telnet_timeout args) (get_or cfg ''telnet_timeout'' timeout)) ''telnet_timeout'' (Fin 15)) (\<lambda>telnet_timeout.
     and_then (positive_float env (float_argument (ma_serial_timeout args) (get_or cfg ''serial_timeout'' timeout)) ''serial_timeout'' (Fin 15)) (\<lambda>serial_timeout.
     and_then (positive_int env (int_argument (ma_baudrate args) (get_str cfg ''baudrate'')) ''baudrate'' 115200) (\<lambda>baudrate.
     and_then (string_setting (ma_report_dir args) cfg ''report_dir'' ''reports/cli-tool'') (\<lambda>report_dir.
     and_then (resolve_target env args env_config cfg transport) (\<lambda>target.
     Inr \<lparr>sm_target = target, sm_catalog = parse_path catalog, sm_command_id = command_id, sm_ssh_timeout = ssh_timeout,
          sm_ssh_attempts = attempts, sm_ssh_backoff = backoff, sm_known_hosts = map_option parse_path known_hosts,
          sm_allow_unknown = ma_allow_unknown args, sm_telnet_port = telnet_port, sm_telnet_timeout = telnet_timeout,
          sm_allow_telnet = ma_allow_telnet args, sm_baudrate = baudrate, sm_serial_timeout = serial_timeout,
          sm_report_dir = parse_path report_dir\<rparr>)))))))))))))))"

section \<open>The transport\<close>

definition through_link :: "session transport \<Rightarrow> device_world transport" where
  "through_link run w commands owner =
     (case run (dw_link w) commands owner of (r, l) \<Rightarrow> (r, w\<lparr>dw_link := l\<rparr>))"

definition through_pools :: "pools_world transport \<Rightarrow> device_world transport" where
  "through_pools run w commands owner =
     (case run (dw_pools w) commands owner of (r, p) \<Rightarrow> (r, w\<lparr>dw_pools := p\<rparr>))"

definition serial_config_of :: "smoke_env \<Rightarrow> smoke_config \<Rightarrow> rat \<Rightarrow> serial_config" where
  "serial_config_of env c timeout =
     \<lparr>sr_username = st_username (sm_target c), sr_password = st_password (sm_target c), sr_timeout = timeout,
      sr_timeout_text = se_timeout_text env timeout, sr_installed = se_serial_installed env\<rparr>"

definition telnet_config_of :: "smoke_env \<Rightarrow> smoke_config \<Rightarrow> rat \<Rightarrow> telnet_config" where
  "telnet_config_of env c timeout =
     \<lparr>tn_host = st_host (sm_target c), tn_username = st_username (sm_target c), tn_password = st_password (sm_target c),
      tn_port = sm_telnet_port c, tn_timeout = timeout, tn_timeout_text = se_timeout_text env timeout,
      tn_allow_insecure = sm_allow_telnet c\<rparr>"

definition pool_request_of :: "smoke_env \<Rightarrow> smoke_config \<Rightarrow> rat \<Rightarrow> rat \<Rightarrow> pool_request" where
  "pool_request_of env c timeout backoff =
     \<lparr>pq_node = st_node_key (sm_target c), pq_host = st_host (sm_target c), pq_username = st_username (sm_target c),
      pq_password = st_password (sm_target c), pq_max = Some 1, pq_acquire_timeout = None,
      pq_ssh = (se_ssh env)\<lparr>sc_timeout := timeout, sc_timeout_text := se_timeout_text env timeout,
        sc_attempts := sm_ssh_attempts c, sc_backoff := backoff, sc_known_hosts := map_option path_str (sm_known_hosts c),
        sc_allow_unknown := sm_allow_unknown c\<rparr>,
      pq_reuse = Some False\<rparr>"

text \<open>\<open>_build_transport\<close>\<close>

definition smoke_transport :: "smoke_env \<Rightarrow> smoke_config \<Rightarrow> device_world transport" where
  "smoke_transport env c =
     (if st_transport (sm_target c) = ''serial'' then
        (case sm_serial_timeout c of
           Fin t \<Rightarrow> through_link (serial_transport (se_decode env) (serial_config_of env c t))
         | _ \<Rightarrow> se_other_transport env c)
      else if st_transport (sm_target c) = ''telnet'' then
        (case sm_telnet_timeout c of
           Fin t \<Rightarrow> through_link (telnet_transport (se_decode env) (telnet_config_of env c t))
         | _ \<Rightarrow> se_other_transport env c)
      else
        (case (sm_ssh_timeout c, sm_ssh_backoff c) of
           (Fin t, Fin b) \<Rightarrow> through_pools (ssh_transport (pool_request_of env c t b))
         | _ \<Rightarrow> se_other_transport env c))"

section \<open>Parameters and the report\<close>

definition split_param :: "string \<Rightarrow> (string \<times> string) result" where
  "split_param value =
     (if CHR ''='' \<notin> set value then Inl (SystemExit (''invalid --param value, expected key=value: '' @ value))
      else let key = strip (takeWhile (\<lambda>c. c \<noteq> CHR ''='') value) in
        if key = [] then Inl (SystemExit (''invalid --param value, empty key: '' @ value))
        else Inr (key, tl (dropWhile (\<lambda>c. c \<noteq> CHR ''='') value)))"

definition parse_params :: "string list \<Rightarrow> params result" where
  "parse_params values = and_then (traverse split_param values) (\<lambda>items. Inr (dict_of items))"

definition shortened :: "string \<Rightarrow> int \<Rightarrow> string" where
  "shortened output max_output_chars =
     (if int (length output) > max_output_chars
      then take (nat max_output_chars) output @ nl # ''... [truncated after '' @ str_of_int max_output_chars @ '' redacted characters]''
      else output)"

definition prepare_output_by_command :: "(string, string) dict \<Rightarrow> bool \<Rightarrow> int \<Rightarrow> (string, string) dict result" where
  "prepare_output_by_command outputs include_output max_output_chars =
     (if \<not> include_output then Inr []
      else if max_output_chars < 1 then Inl (SystemExit ''--max-output-chars must be greater than 0'')
      else Inr (map (\<lambda>(command, output). (command, shortened (redact_text output) max_output_chars)) outputs))"

definition smoke_security :: "string \<Rightarrow> string" where
  "smoke_security transport =
     (if transport = ''telnet'' then ''insecure_plaintext''
      else if transport = ''ssh'' then ''encrypted'' else ''local_serial'')"

definition build_smoke_report ::
  "smoke_env \<Rightarrow> smoke_args \<Rightarrow> smoke_config \<Rightarrow> device_driver \<Rightarrow> cli_verify_result \<Rightarrow> rat \<Rightarrow> pyval result" where
  "build_smoke_report env args c driver r duration =
     (let t = sm_target c;
          on = (\<lambda>transport v. if st_transport t = transport then v else PNone);
          texts = (\<lambda>d. obj (map (\<lambda>(command, xs). (command, str_list xs)) d)) in
      and_then (prepare_output_by_command (output_by_command r) (ma_include_output args) (ma_max_output args)) (\<lambda>outputs.
      Inr (obj
        [(''tool'', PStr ''cli_tool_readonly_smoke''), (''timestamp'', PStr (te_timestamp (se_tool env))),
         (''duration_seconds'', PFloat (Fin duration)), (''passed'', PBool (result_passed r)),
         (''catalog'', PStr (path_str (sm_catalog c))), (''transport'', PStr (st_transport t)),
         (''security'', PStr (smoke_security (st_transport t))),
         (''family'', PStr (drv_family driver)), (''model'', PStr (drv_model driver)),
         (''command_id'', PStr (sm_command_id c)), (''node_key'', PStr (st_node_key t)), (''host'', PStr (st_host t)),
         (''serial_port'', opt_str (st_serial_port t)),
         (''telnet_port'', on ''telnet'' (PInt (sm_telnet_port c))),
         (''telnet_timeout'', on ''telnet'' (PFloat (sm_telnet_timeout c))),
         (''username'', PStr (st_username t)), (''auth_source'', PStr (st_auth_source t)), (''owner'', PStr (ma_owner args)),
         (''ssh_connect_attempts'', on ''ssh'' (PInt (sm_ssh_attempts c))),
         (''ssh_retry_backoff_seconds'', on ''ssh'' (PFloat (sm_ssh_backoff c))),
         (''host_key_verification'', on ''ssh'' (PStr (if sm_allow_unknown c then ''allow_unknown_with_warning'' else ''strict''))),
         (''custom_known_hosts'', on ''ssh'' (PBool (sm_known_hosts c \<noteq> None))),
         (''missing_by_command'', texts (missing_by_command r)),
         (''validation_errors_by_command'', texts (validation_errors_by_command r)),
         (''output_by_command'', obj (map (\<lambda>(command, output). (command, PStr output)) outputs))])))"

definition smoke_tool :: string where "smoke_tool = ''cli_tool_readonly_smoke''"

definition write_smoke_report :: "smoke_env \<Rightarrow> pyval \<Rightarrow> posix_path \<Rightarrow> (disk, posix_path) act" where
  "write_smoke_report env report report_dir =
     write_json_report (se_tool env) (path_str report_dir) smoke_tool (redact (te_float_text (se_tool env)) report)"

section \<open>The command\<close>

text \<open>The end of \<open>run_smoke\<close>: the report, and with the exit code what is printed.\<close>

definition report_smoke ::
  "smoke_env \<Rightarrow> smoke_args \<Rightarrow> smoke_config \<Rightarrow> device_driver \<Rightarrow> cli_verify_result \<Rightarrow> rat \<Rightarrow> (disk, int \<times> pyval) act" where
  "report_smoke env args config driver r duration =
     bnd (lift (build_smoke_report env args config driver r duration)) (\<lambda>report.
     bnd (if ma_no_report args then ret None
          else bnd (write_smoke_report env report (sm_report_dir config)) (\<lambda>path. ret (Some (path_str path)))) (\<lambda>path.
     let payload = set_item report ''report_path'' (opt_str path);
         shown = (if ma_include_output args then payload else set_item payload ''output_by_command'' (obj [])) in
     ret (if result_passed r then 0 else 1, redact (te_float_text (se_tool env)) shown)))"

definition run_smoke :: "smoke_env \<Rightarrow> smoke_args \<Rightarrow> (device_world transfer_world, int \<times> pyval) act" where
  "run_smoke env args =
     bnd (lift (resolve_smoke_config env args)) (\<lambda>config.
     bnd (lift (load_driver_source (se_loader env) (path_str (sm_catalog config)))) (\<lambda>driver.
     bnd (gets (\<lambda>w. se_clock env (tw_remote w))) (\<lambda>started.
     bnd (lift (parse_params (ma_params args))) (\<lambda>ps.
     bnd (on_remote (\<lambda>w. run_driver_verify (se_special env) (smoke_transport env config) driver w
            (sm_command_id config) ps (Some (ma_owner args)) False)) (\<lambda>r.
     bnd (gets (\<lambda>w. se_clock env (tw_remote w))) (\<lambda>ended.
     on_disk (report_smoke env args config driver r (round3 (ended - started)))))))))"

section \<open>Lemmas\<close>

lemma resolve_transport_Inr:
  "resolve_transport args cfg = Inr t \<Longrightarrow> t \<in> smoke_transports \<and> (t = ''telnet'' \<longrightarrow> ma_allow_telnet args)"
  by (auto simp: resolve_transport_def result_simps Let_def)

lemma resolve_target_transport: "resolve_target env args ec cfg transport = Inr t \<Longrightarrow> st_transport t = transport"
  by (auto simp: resolve_target_def resolve_serial_target_def result_simps Let_def split: if_splits)

lemma resolved_transport:
  assumes "resolve_smoke_config env args = Inr c"
  shows "st_transport (sm_target c) \<in> smoke_transports" "st_transport (sm_target c) = ''telnet'' \<Longrightarrow> ma_allow_telnet args"
    "sm_allow_telnet c = ma_allow_telnet args"
proof -
  obtain ec cfg t u where "resolve_transport args cfg = Inr t" "resolve_target env args ec cfg t = Inr u"
    and c: "sm_target c = u" "sm_allow_telnet c = ma_allow_telnet args"
    using assms by (auto simp: resolve_smoke_config_def result_simps Let_def simp del: raise_when_eq)
  then show "st_transport (sm_target c) \<in> smoke_transports" "st_transport (sm_target c) = ''telnet'' \<Longrightarrow> ma_allow_telnet args"
    "sm_allow_telnet c = ma_allow_telnet args"
    using resolve_transport_Inr resolve_target_transport by fastforce+
qed

text \<open>A transport on a part of the world is a transport.\<close>

lemma cli_transport_through_link: "cli_transport run \<Longrightarrow> cli_transport (through_link run)"
  by (fastforce simp: cli_transport_def through_link_def split: prod.splits)

lemma cli_transport_through_pools: "cli_transport run \<Longrightarrow> cli_transport (through_pools run)"
  by (fastforce simp: cli_transport_def through_pools_def split: prod.splits)

fun is_fin :: "pyfloat \<Rightarrow> bool" where
  "is_fin (Fin r) = True"
| "is_fin _ = False"

definition smoke_timeouts_finite :: "smoke_config \<Rightarrow> bool" where
  "smoke_timeouts_finite c =
     (is_fin (sm_ssh_timeout c) \<and> is_fin (sm_ssh_backoff c) \<and> is_fin (sm_telnet_timeout c) \<and> is_fin (sm_serial_timeout c))"

lemma is_fin_iff: "is_fin x \<longleftrightarrow> (\<exists>r. x = Fin r)"
  by (cases x) auto

lemma smoke_transport_cli: "smoke_timeouts_finite c \<Longrightarrow> cli_transport (smoke_transport env c)"
  by (auto simp: smoke_transport_def smoke_timeouts_finite_def is_fin_iff
      intro!: cli_transport_through_link cli_transport_through_pools serial.cli_transport_axioms telnet.cli_transport_axioms
        ssh.cli_transport_axioms)

text \<open>What a run may write to the terminal link of the device.\<close>

definition link_lines :: "smoke_env \<Rightarrow> smoke_config \<Rightarrow> string list \<Rightarrow> string set" where
  "link_lines env c commands =
     (if st_transport (sm_target c) = ''telnet'' then telnet_lines (telnet_config_of env c 0) commands
      else if st_transport (sm_target c) = ''serial'' then serial_lines (serial_config_of env c 0) commands else {})"

definition device_confined :: "smoke_env \<Rightarrow> smoke_config \<Rightarrow> string list \<Rightarrow> device_world \<Rightarrow> device_world \<Rightarrow> bool" where
  "device_confined env c commands w w' =
     ((st_transport (sm_target c) \<noteq> ''ssh'' \<longrightarrow> dw_pools w' = dw_pools w) \<and>
      set (lk_sent (dw_link w')) \<subseteq> set (lk_sent (dw_link w)) \<union> link_lines env c commands)"

lemma device_confined_run:
  assumes "smoke_timeouts_finite c" and "st_transport (sm_target c) \<in> smoke_transports"
    and "smoke_transport env c w commands owner = (r, w')"
  shows "device_confined env c commands w w'"
proof -
  obtain t u b v where fin: "sm_telnet_timeout c = Fin t" "sm_serial_timeout c = Fin u" "sm_ssh_timeout c = Fin v" "sm_ssh_backoff c = Fin b"
    using assms(1) by (auto simp: smoke_timeouts_finite_def is_fin_iff)
  have telnet: "telnet_lines (telnet_config_of env c t) commands = telnet_lines (telnet_config_of env c 0) commands"
    by (simp add: telnet_lines_def telnet_config_of_def)
  have serial: "serial_lines (serial_config_of env c u) commands = serial_lines (serial_config_of env c 0) commands"
    by (simp add: serial_lines_def serial_config_of_def)
  from assms(2) consider "st_transport (sm_target c) = ''telnet''" | "st_transport (sm_target c) = ''serial''" | "st_transport (sm_target c) = ''ssh''"
    by (auto simp: smoke_transports_def)
  then show ?thesis
  proof cases
    case 1
    obtain q l where run: "telnet_run (se_decode env) (telnet_config_of env c t) commands (dw_link w) = (q, l)"
      by (cases "telnet_run (se_decode env) (telnet_config_of env c t) commands (dw_link w)")
    then have "smoke_transport env c w commands owner = (q, w\<lparr>dw_link := l\<rparr>)"
      by (simp add: smoke_transport_def 1 fin through_link_def telnet_transport_def)
    then have w': "w' = w\<lparr>dw_link := l\<rparr>" using assms(3) by simp
    with keepsD [OF keeps_telnet_run run, of "set (lk_sent (dw_link w))"] 1 w' show ?thesis
      by (simp add: device_confined_def link_lines_def wrote_only_def telnet)
  next
    case 2
    obtain q l where run: "serial_run (se_decode env) (serial_config_of env c u) commands (dw_link w) = (q, l)"
      by (cases "serial_run (se_decode env) (serial_config_of env c u) commands (dw_link w)")
    then have "smoke_transport env c w commands owner = (q, w\<lparr>dw_link := l\<rparr>)"
      by (simp add: smoke_transport_def 2 fin through_link_def serial_transport_def)
    then have w': "w' = w\<lparr>dw_link := l\<rparr>" using assms(3) by simp
    with keepsD [OF keeps_serial_run run, of "set (lk_sent (dw_link w))"] 2 w' show ?thesis
      by (simp add: device_confined_def link_lines_def wrote_only_def serial)
  next
    case 3
    then show ?thesis
      using assms(3) by (auto simp: smoke_transport_def fin through_pools_def device_confined_def split: prod.splits)
  qed
qed

text \<open>The steps of a run.\<close>

definition smoke_report_files :: "smoke_env \<Rightarrow> smoke_args \<Rightarrow> string set" where
  "smoke_report_files env args =
     (case resolve_smoke_config env args of
        Inl _ \<Rightarrow> {}
      | Inr c \<Rightarrow> if ma_no_report args then {} else {path_str (report_path (se_tool env) (path_str (sm_report_dir c)) smoke_tool)})"

lemma keeps_smoke_report:
  "resolve_smoke_config env args = Inr c \<Longrightarrow> \<not> ma_no_report args \<Longrightarrow>
   keeps (only_touches (smoke_report_files env args) files) (write_smoke_report env report (sm_report_dir c))"
  unfolding write_smoke_report_def by (rule touch_rules) (simp add: smoke_report_files_def)

lemma keeps_report_smoke:
  "resolve_smoke_config env args = Inr c \<Longrightarrow>
   keeps (only_touches (smoke_report_files env args) files) (report_smoke env args c driver r duration)"
  unfolding report_smoke_def Let_def by (cases "ma_no_report args") (auto intro!: keeps_intros keeps_smoke_report)

lemma keeps_smoke_files:
  "keeps (\<lambda>w. only_touches (smoke_report_files env args) files (tw_disk w)) (run_smoke env args)"
  unfolding run_smoke_def
  by (intro keeps_bnd_lift keeps_bnd keeps_gets keeps_on_remote keeps_on_disk keeps_report_smoke)

text \<open>A run as its steps: the device is used by one verification, after everything was resolved.\<close>

lemma run_smoke_eq:
  "run_smoke env args w =
     (case resolve_smoke_config env args of
        Inl e \<Rightarrow> (Inl e, w)
      | Inr c \<Rightarrow>
          (case load_driver_source (se_loader env) (path_str (sm_catalog c)) of
             Inl e \<Rightarrow> (Inl e, w)
           | Inr driver \<Rightarrow>
               (case parse_params (ma_params args) of
                  Inl e \<Rightarrow> (Inl e, w)
                | Inr ps \<Rightarrow>
                    (case run_driver_verify (se_special env) (smoke_transport env c) driver (tw_remote w) (sm_command_id c) ps
                            (Some (ma_owner args)) False of
                       (Inl e, d) \<Rightarrow> (Inl e, w\<lparr>tw_remote := d\<rparr>)
                     | (Inr r, d) \<Rightarrow>
                         (case report_smoke env args c driver r (round3 (se_clock env d - se_clock env (tw_remote w))) (tw_disk w) of
                            (x, k) \<Rightarrow> (x, w\<lparr>tw_remote := d, tw_disk := k\<rparr>))))))"
  by (simp add: run_smoke_def bnd_def lift_def gets_def on_remote_def on_disk_def split: sum.split prod.split)

lemma run_smoke_device:
  assumes "run_smoke env args w = (r, w')"
  shows "tw_remote w' = tw_remote w \<or> (\<exists>c driver ps v.
    resolve_smoke_config env args = Inr c \<and> load_driver_source (se_loader env) (path_str (sm_catalog c)) = Inr driver \<and>
    parse_params (ma_params args) = Inr ps \<and>
    run_driver_verify (se_special env) (smoke_transport env c) driver (tw_remote w) (sm_command_id c) ps (Some (ma_owner args)) False
      = (v, tw_remote w'))"
  using assms by (auto simp: run_smoke_eq split: sum.splits prod.splits)

text \<open>What is printed.\<close>

lemma set_item_update: "set_item (obj items) key v = obj (AList.update key v items)"
  by (induction items) (auto simp: obj_def)

lemma get_obj_redacted:
  "map_of items key = Some v \<Longrightarrow> \<not> is_sensitive_key key \<Longrightarrow> get_item (redact ft (obj items)) key = Inr (redact ft v)"
  by (rule get_redacted) (induction items, auto)

lemma serializable_map_texts:
  "serializable (obj (map (\<lambda>(command, xs). (command, str_list xs)) d))"
  "serializable (obj (map (\<lambda>(command, output). (command, PStr output)) outputs))"
  by (auto simp: serializable_obj list_all_iff)

lemma security_label_public: "redact_text (smoke_security transport) = smoke_security transport"
proof -
  have "redact_text w = w" if "w \<in> {''insecure_plaintext'', ''encrypted'', ''local_serial''}" for w
    using that by (elim insertE emptyE; simp only:; code_simp)
  then show ?thesis by (simp add: smoke_security_def)
qed

lemma public_output_key: "\<not> is_sensitive_key ''output_by_command''"
  by code_simp

lemma report_smoke_shown:
  assumes "report_smoke env args c driver r duration d = (Inr (code, shown), d')"
  shows "code = (if result_passed r then 0 else 1)" "get_item shown ''passed'' = Inr (PBool (result_passed r))"
    "get_item shown ''security'' = Inr (PStr (smoke_security (st_transport (sm_target c))))"
    "serializable shown" "masked (te_float_text (se_tool env)) shown"
    "\<not> ma_include_output args \<Longrightarrow> get_item shown ''output_by_command'' = Inr (PDict [])"
proof -
  obtain report path where report: "build_smoke_report env args c driver r duration = Inr report"
    and code: "code = (if result_passed r then 0 else 1)"
    and shown: "shown = redact (te_float_text (se_tool env))
      (if ma_include_output args then set_item report ''report_path'' (opt_str path)
       else set_item (set_item report ''report_path'' (opt_str path)) ''output_by_command'' (obj []))"
    using assms by (auto simp: report_smoke_def bnd_eq_Inr lift_def ret_def Let_def)
  obtain items where items: "report = obj items" "map_of items ''passed'' = Some (PBool (result_passed r))"
    "map_of items ''security'' = Some (PStr (smoke_security (st_transport (sm_target c))))"
    using report by (auto simp: build_smoke_report_def Let_def result_simps)
  have "serializable report"
    using report by (auto simp: build_smoke_report_def Let_def result_simps serializable_obj serializable_map_texts [simplified serializable_obj])
  note shown = shown [unfolded items(1) set_item_update]
  show "code = (if result_passed r then 0 else 1)" by (rule code)
  show "get_item shown ''passed'' = Inr (PBool (result_passed r))"
    using get_obj_redacted [OF _ public_keys(1)] items(2) by (auto simp: shown update_conv redact.simps)
  show "get_item shown ''security'' = Inr (PStr (smoke_security (st_transport (sm_target c))))"
    using get_obj_redacted [OF _ public_keys(5)] items(3) by (auto simp: shown update_conv redact.simps security_label_public)
  show "masked (te_float_text (se_tool env)) shown" unfolding shown by (rule masked_redact)
  show "get_item shown ''output_by_command'' = Inr (PDict [])" if "\<not> ma_include_output args"
    using get_obj_redacted [OF _ public_output_key] that by (simp add: shown update_conv redact.simps obj_def)
  show "serializable shown"
    using \<open>serializable report\<close>
    by (auto simp: shown items(1) set_item_update [symmetric] serializable_obj intro!: serializable_redact serializable_set_item)
qed

lemma report_smoke_quiet:
  "ma_no_report args \<Longrightarrow> \<not> ma_include_output args \<Longrightarrow> result_passed r \<Longrightarrow>
   \<exists>shown. report_smoke env args c driver r duration d = (Inr (0, shown), d)"
  by (simp add: report_smoke_def build_smoke_report_def prepare_output_by_command_def Let_def bnd_def ret_def)

section \<open>Properties\<close>

definition demo_smoke_args :: "string \<Rightarrow> smoke_args" where
  "demo_smoke_args catalog =
     \<lparr>ma_transport = Some ''telnet'', ma_catalog = Some catalog, ma_command_id = None, ma_env_node = None,
      ma_target_config = None, ma_target = None, ma_auth_profile = ''default'', ma_node_key = Some ''n'', ma_host = Some ''h'',
      ma_username = Some ''u'', ma_password_env = None, ma_params = [], ma_owner = ''o'', ma_ssh_timeout = None,
      ma_ssh_attempts = None, ma_ssh_backoff = None, ma_known_hosts = None, ma_allow_unknown = False, ma_serial_port = None,
      ma_baudrate = None, ma_serial_timeout = None, ma_telnet_port = None, ma_telnet_timeout = Some (Fin 5), ma_allow_telnet = True,
      ma_include_output = False, ma_max_output = 20000, ma_report_dir = None, ma_no_report = True\<rparr>"

text \<open>A catalog with one command, \<open>show_version\<close>, that sends \<open>v\<close> and expects \<open>1.2\<close>.\<close>

definition demo_smoke_catalog :: "(pyval \<times> pyval) list" where
  "demo_smoke_catalog =
     [(PStr ''family'', PStr ''f''), (PStr ''model'', PStr ''m''),
      (PStr ''commands'', PDict [(PStr ''show_version'', PDict [(PStr ''readonly'', PBool True), (PStr ''command'', PStr ''v''),
         (PStr ''expected_tokens'', PList [PStr ''1.2''])])])]"

definition demo_smoke_env :: smoke_env where
  "demo_smoke_env =
     \<lparr>se_tool = \<lparr>te_getenv = (\<lambda>_. Some ''p''), te_decode = Inr, te_float_text = (\<lambda>_. ''1.0''), te_timestamp = ''t'', te_stamp = ''s''\<rparr>,
      se_loader = \<lparr>read_text = Inr, read_resource = Inr, yaml_safe_load = Some (\<lambda>_. Inr (PDict demo_smoke_catalog)),
        float_text = (\<lambda>_. ''1.0'')\<rparr>,
      se_special = (\<lambda>_ s. Inl (ValueError s)),
      se_float = (\<lambda>v. case v of PFloat x \<Rightarrow> Inr x | _ \<Rightarrow> Inl (ValueError ''could not convert string to float'')),
      se_upper = upper_ascii, se_config_loader = False, se_load_environment = (\<lambda>_ _. Inl (OtherException ''ConfigError'' [])),
      se_decode = id, se_timeout_text = (\<lambda>_. ''5''), se_serial_installed = True, se_ssh = demo_ssh,
      se_other_transport = (\<lambda>_ w _ _. (Inl (ValueError ''timeout''), w)), se_clock = (\<lambda>_. 0)\<rparr>"

definition demo_smoke_world :: "device_world transfer_world" where
  "demo_smoke_world =
     \<lparr>tw_remote = \<lparr>dw_link = demo_session demo_script, dw_pools = \<lparr>rw_pools = [], rw_dir = pw_dir demo_pool_world,
        rw_getenv = (\<lambda>_. None), rw_float = (\<lambda>_. None), rw_format = (\<lambda>_. []), rw_fresh = pc_fresh (demo_pool False),
        rw_session_id = (\<lambda>_. [])\<rparr>\<rparr>,
      tw_disk = \<lparr>dk_files = (\<lambda>_. None), dk_faults = []\<rparr>\<rparr>"

definition demo_smoke_config :: smoke_config where
  "demo_smoke_config = projr (resolve_smoke_config demo_smoke_env (demo_smoke_args ''c.yaml''))"

definition demo_smoke_driver :: device_driver where
  "demo_smoke_driver = projr (load_driver_source (se_loader demo_smoke_env) ''c.yaml'')"

abbreviation (input) demo_verify where
  "demo_verify \<equiv> run_driver_verify (se_special demo_smoke_env) (smoke_transport demo_smoke_env demo_smoke_config) demo_smoke_driver
     (tw_remote demo_smoke_world) (sm_command_id demo_smoke_config) [] (Some (ma_owner (demo_smoke_args ''c.yaml''))) False"

lemma is_ok_projr: "is_ok r \<Longrightarrow> r = Inr (projr r)"
  by (auto simp: is_ok_iff)

lemma demo_smoke_resolved:
  "resolve_smoke_config demo_smoke_env (demo_smoke_args ''c.yaml'') = Inr demo_smoke_config"
  "load_driver_source (se_loader demo_smoke_env) (path_str (sm_catalog demo_smoke_config)) = Inr demo_smoke_driver"
proof -
  show "resolve_smoke_config demo_smoke_env (demo_smoke_args ''c.yaml'') = Inr demo_smoke_config"
    unfolding demo_smoke_config_def by (rule is_ok_projr) code_simp
  have "path_str (sm_catalog demo_smoke_config) = ''c.yaml''" by code_simp
  moreover have "load_driver_source (se_loader demo_smoke_env) ''c.yaml'' = Inr demo_smoke_driver"
    unfolding demo_smoke_driver_def by (rule is_ok_projr) code_simp
  ultimately show "load_driver_source (se_loader demo_smoke_env) (path_str (sm_catalog demo_smoke_config)) = Inr demo_smoke_driver" by simp
qed

lemma demo_smoke_verified: "\<exists>r. fst demo_verify = Inr r \<and> result_passed r"
proof -
  have "(case fst demo_verify of Inl _ \<Rightarrow> False | Inr r \<Rightarrow> result_passed r)" by code_simp
  then show ?thesis by (auto split: sum.splits)
qed

lemma demo_smoke_run:
  "\<exists>shown. run_smoke demo_smoke_env (demo_smoke_args ''c.yaml'') demo_smoke_world =
     (Inr (0, shown), demo_smoke_world\<lparr>tw_remote := snd demo_verify\<rparr>)"
proof -
  obtain r where r: "fst demo_verify = Inr r" "result_passed r" using demo_smoke_verified by blast
  obtain d where d: "d = snd demo_verify" by simp
  have verified: "demo_verify = (Inr r, d)" using r by (simp add: prod_eq_iff d)
  have params: "parse_params (ma_params (demo_smoke_args ''c.yaml'')) = Inr []"
    by (simp add: demo_smoke_args_def parse_params_def dict_of_def)
  obtain shown where shown: "report_smoke demo_smoke_env (demo_smoke_args ''c.yaml'') demo_smoke_config demo_smoke_driver r
      (round3 (se_clock demo_smoke_env d - se_clock demo_smoke_env (tw_remote demo_smoke_world))) (tw_disk demo_smoke_world) =
      (Inr (0, shown), tw_disk demo_smoke_world)"
    using report_smoke_quiet [of "demo_smoke_args ''c.yaml''" r] r(2) by (fastforce simp: demo_smoke_args_def)
  have "run_smoke demo_smoke_env (demo_smoke_args ''c.yaml'') demo_smoke_world =
     (Inr (0, shown), demo_smoke_world\<lparr>tw_remote := d\<rparr>)"
    by (simp add: run_smoke_eq demo_smoke_resolved params verified shown)
  then show ?thesis unfolding d by blast
qed



text \<open>C7. What exit code 0 means: with finite timeouts the transport returned one output for each command of the read-only
  specification, in order, and (the commands being distinct) every output has text and shows every expected token of the
  specification up to case and line endings; and the printed report says that the run passed.\<close>

theorem smoke_exit_zero:
  assumes "run_smoke env args w = (Inr (0, shown), w')"
    and "\<forall>c. resolve_smoke_config env args = Inr c \<longrightarrow> smoke_timeouts_finite c"
  shows "\<exists>c driver ps spec commands tokens outs.
    resolve_smoke_config env args = Inr c \<and> load_driver_source (se_loader env) (path_str (sm_catalog c)) = Inr driver \<and>
    parse_params (ma_params args) = Inr ps \<and> catalog_get (drv_catalog driver) (sm_command_id c) = Inr spec \<and> spec_readonly spec \<and>
    spec_build_commands (se_special env) spec ps = Inr commands \<and> spec_build_expected (se_special env) spec ps = Inr tokens \<and>
    smoke_transport env c (tw_remote w) commands (Some (ma_owner args)) = (Inr outs, tw_remote w') \<and>
    map out_command outs = commands \<and>
    (distinct commands \<longrightarrow> list_all (\<lambda>out. \<not> blank (out_output out) \<and>
       list_all (\<lambda>t. t \<noteq> [] \<longrightarrow> shows_token False (out_output out) t) tokens) outs) \<and>
    get_item shown ''passed'' = Inr (PBool True)"
proof -
  obtain c driver ps r duration d d' where
    given: "resolve_smoke_config env args = Inr c" "load_driver_source (se_loader env) (path_str (sm_catalog c)) = Inr driver"
      "parse_params (ma_params args) = Inr ps"
    and run: "run_driver_verify (se_special env) (smoke_transport env c) driver (tw_remote w) (sm_command_id c) ps
      (Some (ma_owner args)) False = (Inr r, tw_remote w')"
    and report: "report_smoke env args c driver r duration d = (Inr (0, shown), d')"
    using assms(1) by (auto simp: run_smoke_eq split: sum.splits prod.splits)
  have passed: "result_passed r" using report_smoke_shown(1) [OF report] by (simp split: if_splits)
  from run obtain spec commands tokens where spec: "catalog_get (drv_catalog driver) (sm_command_id c) = Inr spec" "spec_readonly spec"
      "spec_build_commands (se_special env) spec ps = Inr commands" "spec_build_expected (se_special env) spec ps = Inr tokens"
    and verify: "run_and_verify (smoke_transport env c) (tw_remote w) commands (dict_of (map (\<lambda>c. (c, tokens)) commands))
      (Some (ma_owner args)) False = (Inr r, tw_remote w')"
    by (rule run_driver_verify_Inr)
  have cli: "cli_transport (smoke_transport env c)" using assms(2) given(1) by (intro smoke_transport_cli) simp
  obtain outs where outs: "smoke_transport env c (tw_remote w) commands (Some (ma_owner args)) = (Inr outs, tw_remote w')"
    using verify by (auto simp: run_and_verify_def split: prod.splits sum.splits)
  have order: "map out_command outs = commands" using cli_transport.run_commands_order [OF cli outs] .
  have "\<not> blank (out_output out) \<and> list_all (\<lambda>t. t \<noteq> [] \<longrightarrow> shows_token False (out_output out) t) tokens"
    if "distinct commands" and out: "out \<in> set outs" for out
  proof -
    from out obtain i where i: "i < length commands" "out = outs ! i" using order by (auto simp: in_set_conv_nth)
    have "(commands ! i, tokens) \<in> set (dict_of (map (\<lambda>c. (c, tokens)) commands))"
      using i by (simp add: dict_of_const_mem)
    from cli_transport.run_and_verify_passed [OF cli verify passed that(1) i(1) this] outs i(2)
    show ?thesis by (auto simp: list_all_iff)
  qed
  moreover have "get_item shown ''passed'' = Inr (PBool True)" using report_smoke_shown(2) [OF report] passed by simp
  ultimately show ?thesis using given spec outs order unfolding list_all_iff by blast
qed

lemma smoke_exit_zero_witness:
  "\<exists>shown outs commands. fst (run_smoke demo_smoke_env (demo_smoke_args ''c.yaml'') demo_smoke_world) = Inr (0, shown) \<and>
     smoke_transport demo_smoke_env demo_smoke_config (tw_remote demo_smoke_world) commands (Some ''o'') = (Inr outs, snd demo_verify) \<and>
     map out_command outs = commands \<and> get_item shown ''passed'' = Inr (PBool True)"
proof -
  obtain shown where run: "run_smoke demo_smoke_env (demo_smoke_args ''c.yaml'') demo_smoke_world =
     (Inr (0, shown), demo_smoke_world\<lparr>tw_remote := snd demo_verify\<rparr>)" using demo_smoke_run by blast
  have "smoke_timeouts_finite demo_smoke_config" by code_simp
  then have "\<forall>c. resolve_smoke_config demo_smoke_env (demo_smoke_args ''c.yaml'') = Inr c \<longrightarrow> smoke_timeouts_finite c"
    by (simp add: demo_smoke_resolved)
  moreover have "ma_owner (demo_smoke_args ''c.yaml'') = ''o''" by (simp add: demo_smoke_args_def)
  ultimately show ?thesis
    using smoke_exit_zero [OF run] run demo_smoke_resolved(1) by auto
qed

text \<open>What a smoke run prints: the exit code is 0 or 1 and agrees with the report's \<open>passed\<close>; the report names
  the security of the transport that the configuration resolved to, is made of JSON values, is redacted throughout, and holds
  no device output unless \<open>--include-output\<close> was given.\<close>

theorem smoke_report_typed:
  assumes "run_smoke env args w = (Inr (code, shown), w')"
  shows "(code = 0 \<or> code = 1) \<and> get_item shown ''passed'' = Inr (PBool (code = 0)) \<and>
    (\<exists>c. resolve_smoke_config env args = Inr c \<and>
       get_item shown ''security'' = Inr (PStr (smoke_security (st_transport (sm_target c))))) \<and>
    serializable shown \<and> masked (te_float_text (se_tool env)) shown \<and>
    (\<not> ma_include_output args \<longrightarrow> get_item shown ''output_by_command'' = Inr (PDict []))"
proof -
  obtain c driver r duration d d' where c: "resolve_smoke_config env args = Inr c"
    and report: "report_smoke env args c driver r duration d = (Inr (code, shown), d')"
    using assms by (auto simp: run_smoke_eq split: sum.splits prod.splits)
  show ?thesis using c report_smoke_shown [OF report] by auto
qed

lemma smoke_report_typed_witness:
  "\<exists>shown. fst (run_smoke demo_smoke_env (demo_smoke_args ''c.yaml'') demo_smoke_world) = Inr (0, shown) \<and>
     get_item shown ''security'' = Inr (PStr ''insecure_plaintext'') \<and> get_item shown ''output_by_command'' = Inr (PDict [])"
proof -
  obtain shown where run: "run_smoke demo_smoke_env (demo_smoke_args ''c.yaml'') demo_smoke_world =
     (Inr (0, shown), demo_smoke_world\<lparr>tw_remote := snd demo_verify\<rparr>)" using demo_smoke_run by blast
  have "smoke_security (st_transport (sm_target demo_smoke_config)) = ''insecure_plaintext''" by code_simp
  with smoke_report_typed [OF run] run demo_smoke_resolved(1) show ?thesis by (auto simp: demo_smoke_args_def)
qed

end
