(* ===== verification/TokenProgress.thy ===== *)
theory TokenProgress
  imports Tokens
begin

text \<open>
  Progress of \<open>FileTokenSemaphore.acquire\<close> (\<open>cli_tool/transport/ssh.py\<close>): a slot that becomes free while the
  process waits is taken at the next round. The refusal by timeout and the bound on the wait are in \<open>Tokens\<close>.
\<close>

section \<open>Waiting\<close>

text \<open>The directory after \<open>k\<close> rounds that found no free index: the stale tokens go, then the process sleeps.\<close>

primrec waited_state :: "semaphore \<Rightarrow> nat \<Rightarrow> token_dir \<Rightarrow> token_dir" where
  "waited_state sem 0 d = d"
| "waited_state sem (Suc k) d = waited_state sem k (snd (sleep_tick (1 / 5) (snd (remove_stale_tokens sem d))))"

text \<open>Every token file is unreadable or holds an object, now and in what the others will create.\<close>

definition object_token :: "token \<Rightarrow> bool" where
  "object_token t = (case t of None \<Rightarrow> True | Some (PDict d) \<Rightarrow> True | Some _ \<Rightarrow> False)"

fun object_event :: "token_event \<Rightarrow> bool" where
  "object_event (Creates f t) = object_token t"
| "object_event e = True"

definition object_tokens :: "token_dir \<Rightarrow> bool" where
  "object_tokens d =
     (dict_ok (td_files d) \<and> list_all (\<lambda>(f, t). object_token t) (td_files d) \<and> list_all (list_all object_event) (td_others d))"

text \<open>The slot \<open>i\<close> has no token file, or one of a process that is gone (or that cannot be read).\<close>

definition slot_free :: "semaphore \<Rightarrow> token_dir \<Rightarrow> nat \<Rightarrow> bool" where
  "slot_free sem d i =
     (case dict_get (td_files d) (token_file (sem_name sem) i) of
        None \<Rightarrow> True
      | Some t \<Rightarrow> is_stale (td_pid d) (td_alive d) t = Inr True)"

section \<open>Lemmas\<close>

lemma starts_with_append: "starts_with p (p @ s)"
  by (simp add: starts_with_def)

lemma glob_token_file: "glob_token name (token_file name i)"
proof -
  have "rev (token_file name i) = rev ''.token'' @ rev (name @ ''.'' @ str_of_nat i)"
    by (simp add: token_file_def)
  then have "starts_with (rev ''.token'') (rev (token_file name i))" by (simp only: starts_with_append)
  moreover have "token_file name i = (name @ ''.'') @ str_of_nat i @ ''.token''" by (simp add: token_file_def)
  then have "starts_with (name @ ''.'') (token_file name i)" by (simp only: starts_with_append)
  ultimately show ?thesis by (simp add: glob_token_def token_file_def)
qed

lemma object_not_error: "object_token t \<Longrightarrow> \<exists>b. is_stale pid alive t = Inr b"
  by (auto simp: object_token_def is_stale_def split: option.splits pyval.splits)

definition sweep_step :: "string \<times> token \<Rightarrow> (token_dir, unit) act" where
  "sweep_step entry =
     bnd (gets (\<lambda>d. is_stale (td_pid d) (td_alive d) (snd entry))) (\<lambda>r.
     bnd (lift r) (\<lambda>stale. if stale then token_release (Some (fst entry)) else ret ()))"

lemma remove_stale_steps:
  "remove_stale_tokens sem d =
     bnd (for_each (filter (\<lambda>(f, _). glob_token (sem_name sem) f) (td_files d)) sweep_step) (\<lambda>_. ret ()) d"
proof -
  have "sweep_step = (\<lambda>(f, t). bnd (gets (\<lambda>d. is_stale (td_pid d) (td_alive d) t)) (\<lambda>r.
            bnd (lift r) (\<lambda>stale. if stale then token_release (Some f) else ret ())))"
    by (rule ext) (simp add: sweep_step_def case_prod_beta)
  then show ?thesis by (simp add: remove_stale_tokens_def bnd_def [of "gets _"] gets_def)
qed

lemma sweep_step_run:
  "is_stale (td_pid d) (td_alive d) (snd entry) = Inr b \<Longrightarrow>
   sweep_step entry d = (Inr (), if b then d\<lparr>td_files := AList.delete (fst entry) (td_files d)\<rparr> else d)"
  by (simp add: sweep_step_def bnd_def gets_def lift_def token_release_def modify_def ret_def)

lemma delete_mem: "e \<in> set (AList.delete k d) \<Longrightarrow> e \<in> set d"
  by (induction d) (auto split: if_splits)

lemma sweep_removes:
  assumes "\<And>e. e \<in> set found \<Longrightarrow> object_token (snd e)"
  shows "\<exists>us d'. for_each found sweep_step d = (Inr us, d') \<and>
    d' = d\<lparr>td_files := td_files d'\<rparr> \<and>
    set (td_files d') \<subseteq> set (td_files d) \<and>
    (\<forall>e \<in> set found. is_stale (td_pid d) (td_alive d) (snd e) = Inr True \<longrightarrow> dict_get (td_files d') (fst e) = None) \<and>
    (\<forall>f. dict_get (td_files d) f = None \<longrightarrow> dict_get (td_files d') f = None) \<and> (dict_ok (td_files d) \<longrightarrow> dict_ok (td_files d'))"
  using assms
proof (induction found arbitrary: d)
  case (Cons e found)
  obtain b where b: "is_stale (td_pid d) (td_alive d) (snd e) = Inr b" using object_not_error [of "snd e"] Cons.prems by fastforce
  obtain d1 where d1: "sweep_step e d = (Inr (), d1)" "d1 = (if b then d\<lparr>td_files := AList.delete (fst e) (td_files d)\<rparr> else d)"
    using sweep_step_run [OF b] by simp
  obtain us d' where "for_each found sweep_step d1 = (Inr us, d')" and d': "d' = d1\<lparr>td_files := td_files d'\<rparr>"
      "set (td_files d') \<subseteq> set (td_files d1)"
      "\<forall>e \<in> set found. is_stale (td_pid d1) (td_alive d1) (snd e) = Inr True \<longrightarrow> dict_get (td_files d') (fst e) = None"
      "\<forall>f. dict_get (td_files d1) f = None \<longrightarrow> dict_get (td_files d') f = None" "dict_ok (td_files d1) \<longrightarrow> dict_ok (td_files d')"
    using Cons.IH [of d1] Cons.prems by auto
  then have "for_each (e # found) sweep_step d = (Inr (() # us), d')" using d1(1) by (simp add: bnd_def ret_def)
  moreover have same: "td_pid d1 = td_pid d" "td_alive d1 = td_alive d" "d1 = d\<lparr>td_files := td_files d1\<rparr>"
    "set (td_files d1) \<subseteq> set (td_files d)"
    by (auto simp: d1(2) dest: delete_mem)
  moreover have "dict_get (td_files d1) f = (if b \<and> f = fst e then None else dict_get (td_files d) f)" for f
    by (simp add: d1(2) dict_get_delete)
  moreover have "dict_ok (td_files d) \<Longrightarrow> dict_ok (td_files d1)" by (simp add: d1(2) dict_ok_delete)
  moreover have "d' = d\<lparr>td_files := td_files d'\<rparr>" using d'(1) same(3) by (metis token_dir.update_convs(1) token_dir.surjective)
  ultimately show ?case using d' b by auto
qed (simp add: ret_def)

text \<open>A sweep with objects only: it removes the stale tokens and does not fail.\<close>

lemma sweep_objects:
  assumes "object_tokens d"
  shows "\<exists>d'. remove_stale_tokens sem d = (Inr (), d') \<and> object_tokens d' \<and> td_time d' = td_time d \<and>
    (\<forall>i. slot_free sem d i \<longrightarrow> dict_get (td_files d') (token_file (sem_name sem) i) = None)"
proof -
  let ?found = "filter (\<lambda>(f, _). glob_token (sem_name sem) f) (td_files d)"
  have "object_token (snd e)" if "e \<in> set ?found" for e
    using that assms by (auto simp: object_tokens_def list_all_iff)
  from sweep_removes [OF this, of ?found d] obtain us d' where run: "for_each ?found sweep_step d = (Inr us, d')"
    and d': "d' = d\<lparr>td_files := td_files d'\<rparr>" "set (td_files d') \<subseteq> set (td_files d)" "dict_ok (td_files d) \<longrightarrow> dict_ok (td_files d')"
    and gone: "\<forall>e \<in> set ?found. is_stale (td_pid d) (td_alive d) (snd e) = Inr True \<longrightarrow> dict_get (td_files d') (fst e) = None"
    and absent: "\<forall>f. dict_get (td_files d) f = None \<longrightarrow> dict_get (td_files d') f = None" by auto
  have "td_others d' = td_others d" "td_time d' = td_time d" by (subst d'(1), simp)+
  moreover have "object_tokens d'"
    using assms d'(2,3) \<open>td_others d' = td_others d\<close> by (auto simp: object_tokens_def list_all_iff)
  moreover have "dict_get (td_files d') (token_file (sem_name sem) i) = None" if "slot_free sem d i" for i
  proof (cases "dict_get (td_files d) (token_file (sem_name sem) i)")
    case (Some t)
    then have "(token_file (sem_name sem) i, t) \<in> set ?found"
      by (auto simp: glob_token_file dict_get_def dest: map_of_SomeD)
    with gone that Some show ?thesis by (force simp: slot_free_def)
  qed (use absent in simp)
  moreover have "remove_stale_tokens sem d = (Inr (), d')"
    by (simp add: remove_stale_steps bnd_def run ret_def)
  ultimately show ?thesis by blast
qed

lemma object_event_keeps:
  "object_tokens d \<Longrightarrow> object_event e \<Longrightarrow> object_tokens (apply_event e d)"
proof (cases e)
  case (Creates f t)
  have "set (AList.update f t ds) \<subseteq> insert (f, t) (set ds)" for ds :: "(string, token) dict"
    by (induction ds) auto
  moreover assume "object_tokens d" "object_event e"
  ultimately show ?thesis by (fastforce simp: Creates object_tokens_def list_all_iff dict_ok_update)
next
  case (Removes f t)
  assume "object_tokens d"
  then show ?thesis by (auto simp: Removes object_tokens_def list_all_iff dict_ok_delete dest!: delete_mem)
qed (simp_all add: object_tokens_def)

lemma object_events_keep:
  "object_tokens d \<Longrightarrow> list_all object_event events \<Longrightarrow> object_tokens (fold apply_event events d)"
  by (induction events arbitrary: d) (auto intro: object_event_keeps)

lemma object_tick: "object_tokens d \<Longrightarrow> object_tokens (snd (sleep_tick s d))"
proof (cases "td_others d")
  case (Cons events later)
  assume "object_tokens d"
  then have "object_tokens (fold apply_event events d)" and "list_all (list_all object_event) later"
    using Cons object_events_keep [of d events] by (simp_all add: object_tokens_def)
  then show ?thesis using Cons by (simp add: sleep_tick_def object_tokens_def)
qed (simp add: sleep_tick_def object_tokens_def)

text \<open>A round with a free slot takes one.\<close>

lemma round_takes_free:
  assumes "object_tokens d" and "slot_free sem d i" and "i < nat (sem_max sem)"
  shows "\<exists>f d'. acquire_round sem owner d = (Inr (Some f), d') \<and> td_time d' = td_time d"
proof -
  obtain d1 where sweep: "remove_stale_tokens sem d = (Inr (), d1)"
    and free: "dict_get (td_files d1) (token_file (sem_name sem) i) = None" and time: "td_time d1 = td_time d"
    using sweep_objects [OF assms(1), of sem] assms(2) by blast
  obtain x d2 where create: "try_create sem owner [0..<nat (sem_max sem)] d1 = (Inr x, d2)" using try_create_total by blast
  obtain f where "x = Some f"
    using try_create_None [of sem owner "[0..<nat (sem_max sem)]" d1 d2] create free assms(3) by (cases x) force+
  with sweep create have "acquire_round sem owner d = (Inr (Some f), d2)" by (simp add: acquire_round_def bnd_def)
  with acquire_round_time show ?thesis by blast
qed

lemma loop_takes_free:
  "object_tokens d \<Longrightarrow> slot_free sem (waited_state sem k d) i \<Longrightarrow> i < nat (sem_max sem) \<Longrightarrow>
   td_time d + rat_of_nat k / 5 \<le> deadline \<or> k = 0 \<Longrightarrow>
   \<exists>f d'. acquire_loop sem owner deadline d = (Inr f, d') \<and> td_time d' \<le> td_time d + rat_of_nat k / 5"
proof (induction k arbitrary: d)
  case 0
  then show ?case
    using round_takes_free [of d sem i owner] by (fastforce simp: acquire_loop.simps [of sem owner deadline d])
next
  case (Suc k)
  obtain d1 where sweep: "remove_stale_tokens sem d = (Inr (), d1)" and d1: "object_tokens d1" "td_time d1 = td_time d"
    using sweep_objects [OF Suc.prems(1), of sem] by blast
  obtain x d2 where create: "try_create sem owner [0..<nat (sem_max sem)] d1 = (Inr x, d2)" using try_create_total by blast
  then have round: "acquire_round sem owner d = (Inr x, d2)" using sweep by (simp add: acquire_round_def bnd_def)
  note time = acquire_round_time [OF round]
  show ?case
  proof (cases x)
    case (Some f)
    then show ?thesis using round time by (auto simp: acquire_loop.simps [of sem owner deadline d])
  next
    case None
    let ?d = "snd (sleep_tick (1 / 5) d1)"
    have same: "d2 = d1" using create None try_create_None by blast
    have early: "\<not> deadline \<le> td_time d1" using Suc.prems(4) d1(2) by (simp add: field_simps)
    have "slot_free sem (waited_state sem k ?d) i" using Suc.prems(2) by (simp add: sweep)
    moreover have "td_time ?d + rat_of_nat k / 5 = td_time d + rat_of_nat (Suc k) / 5"
      by (simp add: sleep_tick_time d1(2) field_simps)
    ultimately obtain f d' where "acquire_loop sem owner deadline ?d = (Inr f, d')"
        "td_time d' \<le> td_time d + rat_of_nat (Suc k) / 5"
      using Suc.IH [OF object_tick [OF d1(1)] _ Suc.prems(3), of "1 / 5"] Suc.prems(4) by fastforce
    then show ?thesis using round None same early by (simp add: acquire_loop.simps [of sem owner deadline d])
  qed
qed

section \<open>Property\<close>

text \<open>C37. Progress: if after \<open>k\<close> waits, within the timeout, one of the slots has no token file or the file of a process
  that is gone, then \<open>acquire\<close> returns with a token after at most those \<open>k\<close> waits of 0.2 seconds, whatever the other
  processes do (all token files being unreadable or JSON objects); with \<open>k = 0\<close> it does not wait, whatever the timeout.\<close>

theorem token_acquire_progress:
  assumes "object_tokens d" and "slot_free sem (waited_state sem k d) i" and "i < nat (sem_max sem)"
    and "rat_of_nat k / 5 \<le> sem_timeout sem \<or> k = 0"
  shows "\<exists>f waited d'. token_acquire sem owner d = (Inr (f, waited), d') \<and> waited \<le> rat_of_nat k / 5 \<and>
    dict_get (td_files d') f = Some (Some (token_value (sem_name sem) owner (td_pid d') (td_wall d' (td_time d'))))"
proof -
  obtain f d' where run: "acquire_loop sem owner (td_time d + sem_timeout sem) d = (Inr f, d')"
    and time: "td_time d' \<le> td_time d + rat_of_nat k / 5"
    using loop_takes_free [OF assms(1-3), of "td_time d + sem_timeout sem" owner] assms(4) by auto
  have "token_acquire sem owner d = (Inr (f, td_time d' - td_time d), d')"
    by (simp add: token_acquire_def bnd_def gets_def run ret_def)
  moreover have "td_time d' - td_time d \<le> rat_of_nat k / 5" using time by simp
  ultimately show ?thesis using acquire_loop_outcome [OF run] by auto
qed

text \<open>The other process ends during the first wait; its slot is taken after it.\<close>

lemma token_acquire_progress_witness:
  "\<exists>f waited d'. token_acquire (demo_semaphore 1) ''me'' demo_tokens = (Inr (f, waited), d') \<and> waited \<le> 1 / 5 \<and>
    dict_get (td_files d') f = Some (Some (token_value ''n'' ''me'' (td_pid d') (td_wall d' (td_time d'))))"
proof -
  have name: "sem_name (demo_semaphore 1) = ''n''" by (simp add: demo_semaphore_def)
  have "object_tokens demo_tokens" by code_simp
  moreover have "slot_free (demo_semaphore 1) (waited_state (demo_semaphore 1) 1 demo_tokens) 0" by code_simp
  ultimately show ?thesis
    using token_acquire_progress [of demo_tokens "demo_semaphore 1" 1 0 "''me''"] by (simp add: name) (simp add: demo_semaphore_def)
qed

end
