(* ===== verification/Argparse.thy ===== *)
theory Argparse
  imports PyRegex PyValue
begin

text \<open>
  What the command line tools use of \<open>argparse\<close>: options with one value, flags, repeated options, \<open>--help\<close> and
  \<open>--version\<close>, operands with choices, abbreviated option names, \<open>--name=value\<close> and \<open>--\<close>, as
  \<open>ArgumentParser.parse_args\<close> of Python 3.11 treats them. No default of the tools is a text that has a type.
  \<open>float(text)\<close> is a parameter.
\<close>

section \<open>Parsers\<close>

text \<open>How a call of \<open>parse_args\<close> ends the process: with a message and status 2, or with what it prints and status 0.\<close>

datatype arg_exit = UsageError string | ShowsHelp | ShowsVersion string

datatype value_type = Text | Whole | Real

text \<open>A stored value has a type and its choices; no choices is any value.\<close>

datatype arg_action = Store value_type "string list" | StoreTrue | Append | Help | Version string

text \<open>An operand has no names; a default of \<open>None\<close> is \<open>SUPPRESS\<close>.\<close>

record arg_spec =
  ao_names :: "string list"
  ao_dest :: string
  ao_action :: arg_action
  ao_required :: bool
  ao_default :: "pyval option"

type_synonym arg_parser = "arg_spec list"
type_synonym namespace = "(string, pyval) dict"

text \<open>\<open>add_argument\<close>: the name of the attribute comes from the name of the option.\<close>

definition dest_of :: "string \<Rightarrow> string" where
  "dest_of name = map (\<lambda>c. if c = CHR ''-'' then CHR ''_'' else c) (dropWhile (\<lambda>c. c = CHR ''-'') name)"

definition value_option :: "string \<Rightarrow> value_type \<Rightarrow> string list \<Rightarrow> bool \<Rightarrow> pyval \<Rightarrow> arg_spec" where
  "value_option name t choices required fallback =
     \<lparr>ao_names = [name], ao_dest = dest_of name, ao_action = Store t choices, ao_required = required, ao_default = Some fallback\<rparr>"

definition text_option :: "string \<Rightarrow> arg_spec" where
  "text_option name = value_option name Text [] False PNone"

definition required_text :: "string \<Rightarrow> arg_spec" where
  "required_text name = value_option name Text [] True PNone"

definition flag_option :: "string \<Rightarrow> arg_spec" where
  "flag_option name =
     \<lparr>ao_names = [name], ao_dest = dest_of name, ao_action = StoreTrue, ao_required = False, ao_default = Some (PBool False)\<rparr>"

definition append_option :: "string \<Rightarrow> arg_spec" where
  "append_option name =
     \<lparr>ao_names = [name], ao_dest = dest_of name, ao_action = Append, ao_required = False, ao_default = Some (PList [])\<rparr>"

definition operand :: "string \<Rightarrow> string list \<Rightarrow> arg_spec" where
  "operand name choices =
     \<lparr>ao_names = [], ao_dest = name, ao_action = Store Text choices, ao_required = True, ao_default = Some PNone\<rparr>"

definition help_option :: arg_spec where
  "help_option =
     \<lparr>ao_names = [''-h'', ''--help''], ao_dest = ''help'', ao_action = Help, ao_required = False, ao_default = None\<rparr>"

definition version_option :: "string \<Rightarrow> arg_spec" where
  "version_option shown =
     \<lparr>ao_names = [''--version''], ao_dest = ''version'', ao_action = Version shown, ao_required = False, ao_default = None\<rparr>"

section \<open>Which arguments are options\<close>

text \<open>An argument is a value, the separator \<open>--\<close>, or an option with the name that was recognised (if any), the
  separator \<open>=\<close> and the explicit value.\<close>

datatype arg_word = Value | Dashes | Option "arg_spec option" string string "string option"

definition option_strings :: "arg_parser \<Rightarrow> (arg_spec \<times> string) list" where
  "option_strings p = concat (map (\<lambda>o'. map (\<lambda>n. (o', n)) (ao_names o')) p)"

definition named :: "arg_parser \<Rightarrow> string \<Rightarrow> arg_spec option" where
  "named p s = find (\<lambda>o'. s \<in> set (ao_names o')) p"

definition before_eq :: "string \<Rightarrow> string" where
  "before_eq s = takeWhile (\<lambda>c. c \<noteq> CHR ''='') s"

definition after_eq :: "string \<Rightarrow> string option" where
  "after_eq s = (case dropWhile (\<lambda>c. c \<noteq> CHR ''='') s of [] \<Rightarrow> None | _ # v \<Rightarrow> Some v)"

definition eq_sign :: "string option \<Rightarrow> string" where
  "eq_sign v = (if v = None then [] else ''='')"

text \<open>\<open>_get_option_tuples\<close>: the options that the argument may abbreviate.\<close>

definition option_tuples :: "arg_parser \<Rightarrow> string \<Rightarrow> (string \<times> arg_word) list" where
  "option_tuples p s =
     (if starts_with ''--'' s
      then map (\<lambda>(o', n). (n, Option (Some o') n (eq_sign (after_eq s)) (after_eq s)))
             (filter (\<lambda>(o', n). starts_with (before_eq s) n) (option_strings p))
      else map (\<lambda>(o', n). (n, if n = take 2 s then Option (Some o') n [] (Some (drop 2 s)) else Option (Some o') n [] None))
             (filter (\<lambda>(o', n). n = take 2 s \<or> starts_with s n) (option_strings p)))"

definition negative_number :: rx where
  "negative_number = alts
     [seqs [TextStart, lit ''-'', rx_plus (One is_digit), TextEndNl],
      seqs [TextStart, lit ''-'', rx_star (One is_digit), lit ''.'', rx_plus (One is_digit), TextEndNl]]"

text \<open>\<open>_parse_optional\<close>\<close>

definition parse_optional :: "arg_parser \<Rightarrow> string \<Rightarrow> arg_exit + arg_word" where
  "parse_optional p s =
     (if s = [] \<or> hd s \<noteq> CHR ''-'' then Inr Value
      else case named p s of
        Some o' \<Rightarrow> Inr (Option (Some o') s [] None)
      | None \<Rightarrow>
          if length s = 1 then Inr Value
          else case (if after_eq s = None then None else named p (before_eq s)) of
            Some o' \<Rightarrow> Inr (Option (Some o') (before_eq s) ''='' (after_eq s))
          | None \<Rightarrow>
              (case option_tuples p s of
                 [(n, w)] \<Rightarrow> Inr w
               | m # m' # ms \<Rightarrow> Inl (UsageError (''ambiguous option: '' @ s @ '' could match '' @ join '', '' (map fst (m # m' # ms))))
               | [] \<Rightarrow> if rx_found negative_number s \<or> CHR '' '' \<in> set s then Inr Value else Inr (Option None s [] None)))"

fun classify :: "arg_parser \<Rightarrow> string list \<Rightarrow> arg_exit + (string \<times> arg_word) list" where
  "classify p [] = Inr []"
| "classify p (s # argv) =
     (if s = ''--'' then Inr ((s, Dashes) # map (\<lambda>x. (x, Value)) argv)
      else and_then (parse_optional p s) (\<lambda>w. and_then (classify p argv) (\<lambda>items. Inr ((s, w) # items))))"

section \<open>Actions\<close>

record parse_state =
  as_values :: namespace
  as_seen :: "string list"
  as_extras :: "string list"
  as_pending :: arg_parser            \<comment> \<open>the operands to come\<close>

definition action_name :: "arg_spec \<Rightarrow> string" where
  "action_name o' = (if ao_names o' = [] then ao_dest o' else join ''/'' (ao_names o'))"

definition argument_error :: "arg_spec \<Rightarrow> string \<Rightarrow> arg_exit" where
  "argument_error o' message = UsageError (''argument '' @ action_name o' @ '': '' @ message)"

text \<open>\<open>_get_value\<close> and \<open>_check_value\<close>\<close>

definition convert_value :: "(string \<Rightarrow> pyfloat option) \<Rightarrow> arg_spec \<Rightarrow> value_type \<Rightarrow> string \<Rightarrow> arg_exit + pyval" where
  "convert_value to_float o' t s =
     (case t of
        Text \<Rightarrow> Inr (PStr s)
      | Whole \<Rightarrow> (case parse_int s of Some i \<Rightarrow> Inr (PInt i) | None \<Rightarrow> Inl (argument_error o' (''invalid int value: '' @ py_repr s)))
      | Real \<Rightarrow> (case to_float s of Some x \<Rightarrow> Inr (PFloat x) | None \<Rightarrow> Inl (argument_error o' (''invalid float value: '' @ py_repr s))))"

definition check_choice :: "arg_spec \<Rightarrow> string list \<Rightarrow> string \<Rightarrow> arg_exit + unit" where
  "check_choice o' choices s =
     (if choices = [] \<or> s \<in> set choices then Inr ()
      else Inl (argument_error o' (''invalid choice: '' @ py_repr s @ '' (choose from '' @ join '', '' (map py_repr choices) @ '')'')))"

definition takes_argument :: "arg_spec \<Rightarrow> bool" where
  "takes_argument o' = (case ao_action o' of Store t choices \<Rightarrow> True | Append \<Rightarrow> True | _ \<Rightarrow> False)"

definition set_value :: "arg_spec \<Rightarrow> pyval \<Rightarrow> parse_state \<Rightarrow> parse_state" where
  "set_value o' v ps = ps\<lparr>as_values := AList.update (ao_dest o') v (as_values ps), as_seen := ao_dest o' # as_seen ps\<rparr>"

definition take_action ::
  "(string \<Rightarrow> pyfloat option) \<Rightarrow> arg_spec \<Rightarrow> string \<Rightarrow> parse_state \<Rightarrow> arg_exit + parse_state" where
  "take_action to_float o' s ps =
     (case ao_action o' of
        Store t choices \<Rightarrow> and_then (convert_value to_float o' t s) (\<lambda>v. and_then (check_choice o' choices s) (\<lambda>_.
          Inr (set_value o' v ps)))
      | StoreTrue \<Rightarrow> Inr (set_value o' (PBool True) ps)
      | Append \<Rightarrow> Inr (set_value o' (PList ((case dict_get (as_values ps) (ao_dest o') of Some (PList vs) \<Rightarrow> vs | _ \<Rightarrow> []) @ [PStr s])) ps)
      | Help \<Rightarrow> Inl ShowsHelp
      | Version shown \<Rightarrow> Inl (ShowsVersion shown))"

text \<open>What follows \<open>-h\<close> in the same argument; it is the only option with one dash.\<close>

fun help_cluster :: "string \<Rightarrow> string \<Rightarrow> arg_exit" where
  "help_cluster sep [] = argument_error help_option (''ignored explicit argument '' @ py_repr [])"
| "help_cluster sep (c # s) =
     (if sep \<noteq> [] \<or> c = CHR ''-'' then argument_error help_option (''ignored explicit argument '' @ py_repr (c # s))
      else if c \<noteq> CHR ''h'' then ShowsHelp
      else case s of
             [] \<Rightarrow> ShowsHelp
           | d # t \<Rightarrow> if d = CHR ''='' then help_cluster ''='' t else help_cluster [] s)"

text \<open>\<open>consume_optional\<close>: the remaining arguments and the state.\<close>

definition consume_option ::
  "(string \<Rightarrow> pyfloat option) \<Rightarrow> string \<Rightarrow> arg_spec option \<Rightarrow> string \<Rightarrow> string \<Rightarrow> string option \<Rightarrow> (string \<times> arg_word) list \<Rightarrow>
     parse_state \<Rightarrow> arg_exit + (string \<times> arg_word) list \<times> parse_state" where
  "consume_option to_float s found n sep explicit rest ps =
     (case found of
        None \<Rightarrow> Inr (rest, ps\<lparr>as_extras := as_extras ps @ [s]\<rparr>)
      | Some o' \<Rightarrow>
          (case explicit of
             Some v \<Rightarrow>
               if takes_argument o' then and_then (take_action to_float o' v ps) (\<lambda>ps'. Inr (rest, ps'))
               else if \<not> starts_with ''--'' n then Inl (help_cluster sep v)
               else Inl (argument_error o' (''ignored explicit argument '' @ py_repr v))
           | None \<Rightarrow>
               if \<not> takes_argument o' then and_then (take_action to_float o' [] ps) (\<lambda>ps'. Inr (rest, ps'))
               else case rest of
                      (v, Value) # rest' \<Rightarrow> and_then (take_action to_float o' v ps) (\<lambda>ps'. Inr (rest', ps'))
                    | _ \<Rightarrow> Inl (argument_error o' ''expected one argument'')))"

text \<open>\<open>consume_positionals\<close>: the value of the next operand, with a separator before or after it.\<close>

fun next_operand :: "arg_parser \<Rightarrow> (string \<times> arg_word) list \<Rightarrow> (arg_spec \<times> arg_parser \<times> string \<times> (string \<times> arg_word) list) option" where
  "next_operand (o' # later) ((s, Value) # (d, Dashes) # rest) = Some (o', later, s, rest)"
| "next_operand (o' # later) ((s, Value) # rest) = Some (o', later, s, rest)"
| "next_operand (o' # later) ((d, Dashes) # (s, Value) # rest) = Some (o', later, s, rest)"
| "next_operand pending items = None"

definition is_option :: "string \<times> arg_word \<Rightarrow> bool" where
  "is_option item = (case snd item of Option _ _ _ _ \<Rightarrow> True | _ \<Rightarrow> False)"

lemma consume_option_shorter: "consume_option to_float s found n sep explicit rest ps = Inr (rest', ps') \<Longrightarrow> length rest' \<le> length rest"
  by (auto simp: consume_option_def result_simps split: option.splits if_splits list.splits prod.splits arg_word.splits)

lemma next_operand_shorter: "next_operand pending items = Some (o', later, s, rest) \<Longrightarrow> length rest < length items"
  by (induction pending items rule: next_operand.induct) auto

text \<open>\<open>_parse_known_args\<close>\<close>

function parse_items :: "(string \<Rightarrow> pyfloat option) \<Rightarrow> (string \<times> arg_word) list \<Rightarrow> parse_state \<Rightarrow> arg_exit + parse_state" where
  "parse_items to_float items ps =
     (case items of
        [] \<Rightarrow> Inr ps
      | (s, Option found n sep explicit) # rest \<Rightarrow>
          and_then (consume_option to_float s found n sep explicit rest ps) (\<lambda>(rest', ps'). parse_items to_float rest' ps')
      | item # rest \<Rightarrow>
          (case next_operand (as_pending ps) items of
             Some (o', later, s, rest') \<Rightarrow>
               and_then (take_action to_float o' s (ps\<lparr>as_pending := later\<rparr>)) (\<lambda>ps'. parse_items to_float rest' ps')
           | None \<Rightarrow>
               parse_items to_float (dropWhile (\<lambda>i. \<not> is_option i) rest)
                 (ps\<lparr>as_extras := as_extras ps @ map fst (item # takeWhile (\<lambda>i. \<not> is_option i) rest)\<rparr>)))"
  by pat_completeness auto

termination
  by (relation "measure (\<lambda>(to_float, items, ps). length items)")
    (auto dest: consume_option_shorter next_operand_shorter simp: less_Suc_eq_le length_dropWhile_le)

declare parse_items.simps [simp del]

definition initial_state :: "arg_parser \<Rightarrow> parse_state" where
  "initial_state p =
     \<lparr>as_values = dict_of (List.map_filter (\<lambda>o'. map_option (\<lambda>v. (ao_dest o', v)) (ao_default o')) p), as_seen = [], as_extras = [],
      as_pending = filter (\<lambda>o'. ao_names o' = []) p\<rparr>"

definition finish :: "arg_parser \<Rightarrow> parse_state \<Rightarrow> arg_exit + namespace" where
  "finish p ps =
     (let missing = filter (\<lambda>o'. ao_required o' \<and> ao_dest o' \<notin> set (as_seen ps)) p in
      if missing \<noteq> [] then Inl (UsageError (''the following arguments are required: '' @ join '', '' (map action_name missing)))
      else if as_extras ps \<noteq> [] then Inl (UsageError (''unrecognized arguments: '' @ join '' '' (as_extras ps)))
      else Inr (as_values ps))"

definition parse_args :: "arg_parser \<Rightarrow> (string \<Rightarrow> pyfloat option) \<Rightarrow> string list \<Rightarrow> arg_exit + namespace" where
  "parse_args p to_float argv =
     and_then (classify p argv) (\<lambda>items. and_then (parse_items to_float items (initial_state p)) (finish p))"

section \<open>Lemmas: abbreviations\<close>

text \<open>The argument is the name of the option, or a prefix of it and of no other name.\<close>

definition abbreviates :: "arg_parser \<Rightarrow> string \<Rightarrow> string \<Rightarrow> bool" where
  "abbreviates p s n =
     (n \<in> set (map snd (option_strings p)) \<and>
      (s = n \<or> filter (\<lambda>m. starts_with s m) (map snd (option_strings p)) = [n]))"

lemma starts_with_self: "starts_with s s"
  by (simp add: starts_with_def)

lemma abbreviates_prefix: "abbreviates p s n \<Longrightarrow> starts_with s n"
  by (auto simp: abbreviates_def starts_with_self filter_eq_Cons_iff)

lemma filter_singleton_stronger: "filter P xs = [x] \<Longrightarrow> Q x \<Longrightarrow> (\<And>y. Q y \<Longrightarrow> P y) \<Longrightarrow> filter Q xs = [x]"
proof -
  assume P: "filter P xs = [x]" and Q: "Q x" and QP: "\<And>y. Q y \<Longrightarrow> P y"
  have "filter Q xs = filter Q (filter P xs)" using QP by (auto intro: filter_cong)
  then show ?thesis by (simp add: P Q)
qed

lemma named_mem: "named p s = Some o' \<Longrightarrow> o' \<in> set p \<and> s \<in> set (ao_names o')"
  by (auto simp: named_def find_Some_iff)

lemma option_strings_mem: "(o', n) \<in> set (option_strings p) \<longleftrightarrow> o' \<in> set p \<and> n \<in> set (ao_names o')"
  by (auto simp: option_strings_def)

lemma option_strings_names: "set (map snd (option_strings p)) = (\<Union>o' \<in> set p. set (ao_names o'))"
  by (auto simp: option_strings_def image_Un image_UN image_image)

lemma named_string: "named p s = Some o' \<Longrightarrow> s \<in> set (map snd (option_strings p))"
  using named_mem unfolding option_strings_names by fast

lemma snd_filter: "filter (\<lambda>(o', n). P n) xs = [(o', n)] \<Longrightarrow> filter P (map snd xs) = [n]"
  by (simp add: filter_map comp_def case_prod_unfold)

lemma option_tuples_flag:
  assumes "option_tuples p s = [(m, Option (Some o') n sep None)]"
  shows "o' \<in> set p \<and> n \<in> set (ao_names o') \<and> abbreviates p s n"
proof (cases "starts_with ''--'' s")
  case True
  then obtain x where x: "filter (\<lambda>(o', n). starts_with (before_eq s) n) (option_strings p) = [x]"
    and word: "(case x of (o', n) \<Rightarrow> (n, Option (Some o') n (eq_sign (after_eq s)) (after_eq s))) = (m, Option (Some o') n sep None)"
    using assms by (auto simp: option_tuples_def)
  then have "x = (o', n)" and none: "after_eq s = None" by (auto split: prod.splits)
  have "dropWhile (\<lambda>c. c \<noteq> CHR ''='') s = []" using none by (auto simp: after_eq_def split: list.splits)
  then have "before_eq s = s" by (metis append_Nil2 before_eq_def takeWhile_dropWhile_id)
  then have one: "filter (\<lambda>(o', n). starts_with s n) (option_strings p) = [(o', n)]" using x \<open>x = (o', n)\<close> by simp
  then have "(o', n) \<in> set (option_strings p)" by (metis (no_types, lifting) filter_eq_ConsD in_set_conv_decomp)
  with snd_filter [OF one] show ?thesis unfolding abbreviates_def option_strings_names option_strings_mem by auto
next
  case False
  then obtain x where x: "filter (\<lambda>(o', n). n = take 2 s \<or> starts_with s n) (option_strings p) = [x]"
    and word: "(case x of (o', n) \<Rightarrow> (n, if n = take 2 s then Option (Some o') n [] (Some (drop 2 s)) else Option (Some o') n [] None)) =
      (m, Option (Some o') n sep None)"
    using assms by (auto simp: option_tuples_def)
  then have x_eq: "x = (o', n)" and "n \<noteq> take 2 s" by (auto split: prod.splits if_splits)
  have mem: "x \<in> set (filter (\<lambda>(o', n). n = take 2 s \<or> starts_with s n) (option_strings p))" by (simp add: x)
  then have "starts_with s n" and "(o', n) \<in> set (option_strings p)" using x_eq \<open>n \<noteq> take 2 s\<close> by auto
  then have "filter (\<lambda>(o', n). starts_with s n) (option_strings p) = [(o', n)]"
    using filter_singleton_stronger [OF x, of "\<lambda>(o', n). starts_with s n"] x_eq by auto
  from snd_filter [OF this] \<open>(o', n) \<in> set (option_strings p)\<close> show ?thesis
    unfolding abbreviates_def option_strings_names option_strings_mem by auto
qed

lemma parse_optional_flag:
  assumes "parse_optional p s = Inr (Option (Some o') n sep None)"
  shows "o' \<in> set p \<and> (\<exists>n \<in> set (ao_names o'). abbreviates p s n)"
proof -
  consider "named p s = Some o'" | n' where "option_tuples p s = [(n', Option (Some o') n sep None)]"
    using assms by (auto simp: parse_optional_def split: if_splits option.splits list.splits)
  then show ?thesis
  proof cases
    case 1
    with named_mem [OF 1] named_string [OF 1] show ?thesis by (auto simp: abbreviates_def)
  next
    case 2
    with option_tuples_flag [OF 2] show ?thesis by blast
  qed
qed

lemma parse_optional_mem:
  "parse_optional p s = Inr (Option (Some o') n sep v) \<Longrightarrow> o' \<in> set p"
proof -
  assume parsed: "parse_optional p s = Inr (Option (Some o') n sep v)"
  have "o' \<in> set p" if tuples: "option_tuples p s = [(m, Option (Some o') n sep v)]" for m
  proof -
    have "(m, Option (Some o') n sep v) \<in> set (option_tuples p s)" by (simp add: tuples)
    then show ?thesis by (auto simp: option_tuples_def option_strings_mem split: if_splits)
  qed
  with parsed show ?thesis
    by (auto simp: parse_optional_def dest: named_mem split: if_splits option.splits list.splits)
qed

lemma classify_words:
  "classify p argv = Inr items \<Longrightarrow> (s, Option found n sep v) \<in> set items \<Longrightarrow>
   s \<in> set argv \<and> parse_optional p s = Inr (Option found n sep v)"
proof (induction argv arbitrary: items)
  case (Cons a argv)
  then show ?case by (cases "a = ''--''") (auto simp: result_simps)
qed simp

section \<open>Lemmas: where a value comes from\<close>

text \<open>An option without an argument is given without one.\<close>

definition gives :: "string \<Rightarrow> string \<times> arg_word \<Rightarrow> bool" where
  "gives dest item =
     (case snd item of
        Option (Some o') n sep v \<Rightarrow> ao_dest o' = dest \<and> (takes_argument o' \<or> v = None)
      | _ \<Rightarrow> False)"

lemma take_action_value:
  "take_action to_float o' s ps = Inr ps' \<Longrightarrow> dest \<noteq> ao_dest o' \<Longrightarrow>
   dict_get (as_values ps') dest = dict_get (as_values ps) dest \<and> as_pending ps' = as_pending ps"
  by (auto simp: take_action_def set_value_def result_simps dict_get_update split: arg_action.splits)

lemma take_action_pending: "take_action to_float o' s ps = Inr ps' \<Longrightarrow> as_pending ps' = as_pending ps"
  by (auto simp: take_action_def set_value_def result_simps split: arg_action.splits)

lemma consume_option_value:
  assumes "consume_option to_float s found n sep v rest ps = Inr (rest', ps')"
  shows "(dict_get (as_values ps') dest = dict_get (as_values ps) dest \<or> gives dest (s, Option found n sep v)) \<and>
    as_pending ps' = as_pending ps \<and> set rest' \<subseteq> set rest \<and> length rest' \<le> length rest"
proof (cases found)
  case None
  then show ?thesis using assms by (auto simp: consume_option_def)
next
  case (Some o')
  then obtain a where taken: "take_action to_float o' a ps = Inr ps'" and "set rest' \<subseteq> set rest"
    and "takes_argument o' \<or> v = None"
    using assms by (auto simp: consume_option_def result_simps split: option.splits if_splits list.splits prod.splits arg_word.splits)
  moreover have "dict_get (as_values ps') dest = dict_get (as_values ps) dest \<or> dest = ao_dest o'"
    using take_action_value [OF taken] by blast
  ultimately show ?thesis
    using take_action_pending [OF taken] consume_option_shorter [OF assms] by (auto simp: gives_def Some)
qed

lemma next_operand_rest:
  "next_operand pending items = Some (o', later, s, rest) \<Longrightarrow> set rest \<subseteq> set items \<and> pending = o' # later"
  by (induction pending items rule: next_operand.induct) auto

lemma parse_items_Nil: "parse_items to_float [] ps = Inr ps"
  by (simp add: parse_items.simps)

lemma parse_items_option:
  "parse_items to_float ((s, Option found n sep v) # rest) ps =
     and_then (consume_option to_float s found n sep v rest ps) (\<lambda>(rest', ps'). parse_items to_float rest' ps')"
  by (subst parse_items.simps) simp

lemma parse_items_other:
  "\<not> is_option item \<Longrightarrow> parse_items to_float (item # rest) ps =
     (case next_operand (as_pending ps) (item # rest) of
        Some (o', later, s, rest') \<Rightarrow>
          and_then (take_action to_float o' s (ps\<lparr>as_pending := later\<rparr>)) (\<lambda>ps'. parse_items to_float rest' ps')
      | None \<Rightarrow>
          parse_items to_float (dropWhile (\<lambda>i. \<not> is_option i) rest)
            (ps\<lparr>as_extras := as_extras ps @ map fst (item # takeWhile (\<lambda>i. \<not> is_option i) rest)\<rparr>))"
  by (subst parse_items.simps) (cases item, auto simp: is_option_def split: arg_word.splits)

lemma parse_items_value:
  "parse_items to_float items ps = Inr ps' \<Longrightarrow>
   dict_get (as_values ps') dest = dict_get (as_values ps) dest \<or> (\<exists>item \<in> set items. gives dest item) \<or>
   (\<exists>o' \<in> set (as_pending ps). ao_dest o' = dest)"
proof (induction items arbitrary: ps rule: length_induct)
  case (1 items)
  show ?case
  proof (cases items)
    case Nil
    then show ?thesis using "1.prems" by (simp add: parse_items_Nil)
  next
    case (Cons item rest)
    show ?thesis
    proof (cases "is_option item")
      case True
      then obtain s found n sep v where item: "item = (s, Option found n sep v)"
        by (cases item) (auto simp: is_option_def split: arg_word.splits)
      obtain rest' ps1 where step: "consume_option to_float s found n sep v rest ps = Inr (rest', ps1)"
        and later: "parse_items to_float rest' ps1 = Inr ps'"
        using "1.prems" by (auto simp: Cons item parse_items_option result_simps)
      note moved = consume_option_value [OF step, of dest]
      then have "length rest' < length items" by (simp add: Cons)
      with "1.IH" later moved show ?thesis by (fastforce simp: Cons item)
    next
      case False
      note run = "1.prems" [unfolded Cons parse_items_other [OF False]]
      show ?thesis
      proof (cases "next_operand (as_pending ps) items")
        case None
        then have "parse_items to_float (dropWhile (\<lambda>i. \<not> is_option i) rest)
            (ps\<lparr>as_extras := as_extras ps @ map fst (item # takeWhile (\<lambda>i. \<not> is_option i) rest)\<rparr>) = Inr ps'"
          using run Cons by simp
        moreover have "length (dropWhile (\<lambda>i. \<not> is_option i) rest) < length items"
          by (simp add: Cons less_Suc_eq_le length_dropWhile_le)
        ultimately show ?thesis using "1.IH" by (fastforce simp: Cons dest: set_dropWhileD)
      next
        case (Some x)
        obtain o' later s rest' where x: "x = (o', later, s, rest')" by (cases x)
        obtain ps1 where taken: "take_action to_float o' s (ps\<lparr>as_pending := later\<rparr>) = Inr ps1"
          and after: "parse_items to_float rest' ps1 = Inr ps'"
          using run Some by (auto simp: Cons x result_simps)
        note step = next_operand_rest [OF Some [unfolded x]]
        have "length rest' < length items" using next_operand_shorter [OF Some [unfolded x]] .
        with "1.IH" after have "dict_get (as_values ps') dest = dict_get (as_values ps1) dest \<or> (\<exists>item \<in> set rest'. gives dest item) \<or>
            (\<exists>o' \<in> set (as_pending ps1). ao_dest o' = dest)" by blast
        then show ?thesis
          using take_action_value [OF taken, of dest] take_action_pending [OF taken] step by (cases "ao_dest o' = dest") auto
      qed
    qed
  qed
qed

text \<open>A flag that is on was asked for: some argument is its name or an abbreviation of no other name.\<close>

lemma flag_given:
  assumes "parse_args p to_float argv = Inr ns" and "dict_get ns dest = Some (PBool True)"
    and "dict_get (as_values (initial_state p)) dest \<noteq> Some (PBool True)"
    and "\<And>o'. o' \<in> set p \<Longrightarrow> ao_dest o' = dest \<Longrightarrow> ao_names o' = [name] \<and> \<not> takes_argument o'"
  shows "\<exists>a \<in> set argv. abbreviates p a name"
proof -
  obtain items ps where items: "classify p argv = Inr items" and run: "parse_items to_float items (initial_state p) = Inr ps"
    and ns: "ns = as_values ps"
    using assms(1) by (auto simp: parse_args_def finish_def Let_def result_simps split: if_splits)
  have "\<not> (\<exists>o' \<in> set (as_pending (initial_state p)). ao_dest o' = dest)"
    using assms(4) by (force simp: initial_state_def)
  then obtain s w where item: "(s, w) \<in> set items" "gives dest (s, w)"
    using parse_items_value [OF run, of dest] assms(2,3) ns by auto
  then obtain o' n sep v where w: "w = Option (Some o') n sep v" "ao_dest o' = dest" "takes_argument o' \<or> v = None"
    by (auto simp: gives_def split: arg_word.splits option.splits)
  from classify_words [OF items item(1) [unfolded w(1)]]
  have s: "s \<in> set argv" "parse_optional p s = Inr (Option (Some o') n sep v)" by blast+
  show ?thesis
  proof (cases v)
    case None
    from parse_optional_flag [OF s(2) [unfolded None]] w(2) assms(4) s(1) show ?thesis by fastforce
  next
    case (Some x)
    with w(3) have "takes_argument o'" by simp
    moreover have "o' \<in> set p" by (rule parse_optional_mem [OF s(2)])
    ultimately show ?thesis using assms(4) w(2) by blast
  qed
qed

section \<open>Lemmas: every value can be given\<close>

text \<open>A parser whose names are distinct, without \<open>=\<close>, and with two dashes where a value follows.\<close>

definition parser_ok :: "arg_parser \<Rightarrow> bool" where
  "parser_ok p =
     (distinct (map snd (option_strings p)) \<and>
      list_all (\<lambda>n. CHR ''='' \<notin> set n) (map snd (option_strings p)) \<and>
      list_all (\<lambda>o'. takes_argument o' \<longrightarrow> length (ao_names o') \<le> 1 \<and> list_all (starts_with ''--'') (ao_names o')) p)"

definition assignment :: "arg_spec \<times> string \<Rightarrow> string" where
  "assignment setting = hd (ao_names (fst setting)) @ ''='' @ snd setting"

definition assignment_word :: "arg_spec \<times> string \<Rightarrow> string \<times> arg_word" where
  "assignment_word setting =
     (assignment setting, Option (Some (fst setting)) (hd (ao_names (fst setting))) ''='' (Some (snd setting)))"

text \<open>A text that a stored value accepts, and the value that it stands for.\<close>

definition readable :: "(string \<Rightarrow> pyfloat option) \<Rightarrow> arg_spec \<times> string \<Rightarrow> bool" where
  "readable to_float setting =
     (case ao_action (fst setting) of
        Store t choices \<Rightarrow> is_ok (convert_value to_float (fst setting) t (snd setting)) \<and> (choices = [] \<or> snd setting \<in> set choices)
      | _ \<Rightarrow> False)"

definition value_of :: "(string \<Rightarrow> pyfloat option) \<Rightarrow> arg_spec \<times> string \<Rightarrow> pyval" where
  "value_of to_float setting =
     (case ao_action (fst setting) of
        Store t choices \<Rightarrow> projr (convert_value to_float (fst setting) t (snd setting))
      | _ \<Rightarrow> PNone)"

definition store :: "(string \<Rightarrow> pyfloat option) \<Rightarrow> arg_spec \<times> string \<Rightarrow> parse_state \<Rightarrow> parse_state" where
  "store to_float setting = set_value (fst setting) (value_of to_float setting)"

lemma take_action_readable:
  "readable to_float (o', s) \<Longrightarrow> take_action to_float o' s ps = Inr (store to_float (o', s) ps)"
  by (auto simp: readable_def take_action_def store_def value_of_def check_choice_def is_ok_iff split: arg_action.splits)

lemma readable_takes: "readable to_float (o', s) \<Longrightarrow> takes_argument o'"
  by (auto simp: readable_def takes_argument_def split: arg_action.splits)

lemma named_distinct:
  "distinct (map snd (option_strings p)) \<Longrightarrow> o' \<in> set p \<Longrightarrow> n \<in> set (ao_names o') \<Longrightarrow> named p n = Some o'"
proof (induction p)
  case (Cons x p)
  have strings: "map snd (option_strings (x # p)) = ao_names x @ map snd (option_strings p)"
    by (simp add: option_strings_def comp_def)
  show ?case
  proof (cases "o' = x")
    case False
    then have "o' \<in> set p" using Cons.prems by simp
    then have "n \<in> set (map snd (option_strings p))" using Cons.prems(3) unfolding option_strings_names by blast
    then have "n \<notin> set (ao_names x)" using Cons.prems(1) unfolding strings by auto
    then show ?thesis using Cons.IH Cons.prems \<open>o' \<in> set p\<close> unfolding strings by (simp add: named_def)
  qed (use Cons.prems in \<open>simp add: named_def\<close>)
qed simp

lemma parse_assignment:
  assumes "parser_ok p" and "o' \<in> set p" and "ao_names o' \<noteq> []" and "takes_argument o'"
  shows "parse_optional p (assignment (o', s)) = Inr (snd (assignment_word (o', s)))"
proof -
  obtain n where n: "ao_names o' = [n]" "starts_with ''--'' n"
    using assms by (cases "ao_names o'") (auto simp: parser_ok_def list_all_iff)
  then obtain t where t: "n = ''--'' @ t" by (auto simp: starts_with_iff)
  have "n \<in> set (map snd (option_strings p))" unfolding option_strings_names using n assms(2) by force
  then have plain: "CHR ''='' \<notin> set n" using assms(1) by (auto simp: parser_ok_def list_all_iff)
  have named: "named p n = Some o'" using named_distinct [OF _ assms(2)] assms(1) n by (simp add: parser_ok_def)
  have unnamed: "named p (n @ CHR ''='' # s) = None"
  proof (rule ccontr)
    assume "named p (n @ CHR ''='' # s) \<noteq> None"
    then have "n @ CHR ''='' # s \<in> set (map snd (option_strings p))" using named_string by blast
    then show False using assms(1) by (auto simp: parser_ok_def list_all_iff)
  qed
  have "before_eq (n @ CHR ''='' # s) = n" "after_eq (n @ CHR ''='' # s) = Some s"
    using plain by (auto simp: before_eq_def after_eq_def takeWhile_append dropWhile_append)
  then show ?thesis
    using unnamed named by (simp add: parse_optional_def assignment_def assignment_word_def n t)
qed

lemma classify_append:
  "classify p argv = Inr items \<Longrightarrow> ''--'' \<notin> set argv \<Longrightarrow> classify p (argv @ argv') = and_then (classify p argv') (\<lambda>later. Inr (items @ later))"
proof (induction argv arbitrary: items)
  case Nil
  then show ?case by (cases "classify p argv'") simp_all
next
  case (Cons a argv)
  then obtain w later where "parse_optional p a = Inr w" "classify p argv = Inr later" "items = (a, w) # later"
    by (auto simp: result_simps)
  with Cons show ?case by (cases "classify p argv'") (auto simp: result_simps)
qed

lemma classify_assignments:
  assumes "parser_ok p" and "\<forall>(o', s) \<in> set settings. o' \<in> set p \<and> ao_names o' \<noteq> [] \<and> readable to_float (o', s)"
  shows "classify p (map assignment settings) = Inr (map assignment_word settings)"
  using assms(2)
proof (induction settings)
  case (Cons setting settings)
  obtain o' s where setting: "setting = (o', s)" by (cases setting)
  with Cons.prems have "o' \<in> set p" "ao_names o' \<noteq> []" "takes_argument o'" by (auto dest: readable_takes)
  note parsed = parse_assignment [OF assms(1) this, of s]
  have "CHR ''='' \<in> set (assignment setting)" by (simp add: assignment_def)
  then have "assignment setting \<noteq> ''--''" by auto
  with Cons parsed show ?case by (simp add: setting) (simp add: assignment_word_def)
qed simp

lemma parse_settings:
  "\<forall>setting \<in> set settings. readable to_float setting \<Longrightarrow>
   parse_items to_float (map assignment_word settings) ps = Inr (fold (store to_float) settings ps)"
proof (induction settings arbitrary: ps)
  case (Cons setting settings)
  obtain o' s where setting: "setting = (o', s)" by (cases setting)
  with Cons.prems have "readable to_float (o', s)" by simp
  note taken = take_action_readable [OF this, of ps] and takes = readable_takes [OF this]
  show ?case using Cons by (simp add: setting assignment_word_def parse_items_option consume_option_def taken takes)
qed (simp add: parse_items_Nil)

lemma fold_store:
  "as_values (fold (store to_float) settings ps) =
     fold (\<lambda>setting. AList.update (ao_dest (fst setting)) (value_of to_float setting)) settings (as_values ps) \<and>
   set (as_seen (fold (store to_float) settings ps)) = set (as_seen ps) \<union> (ao_dest \<circ> fst) ` set settings \<and>
   as_extras (fold (store to_float) settings ps) = as_extras ps"
  by (induction settings arbitrary: ps) (auto simp: store_def set_value_def)

text \<open>Operands in front, each a value that does not start with a dash.\<close>

lemma parse_operand:
  "s \<noteq> [] \<Longrightarrow> hd s \<noteq> CHR ''-'' \<Longrightarrow> parse_optional p s = Inr Value"
  by (simp add: parse_optional_def)

lemma parse_items_operand:
  assumes "readable to_float (o', s)" and "as_pending ps = o' # later" and "rest = [] \<or> is_option (hd rest)"
  shows "parse_items to_float ((s, Value) # rest) ps =
    parse_items to_float rest (store to_float (o', s) (ps\<lparr>as_pending := later\<rparr>))"
proof -
  have "next_operand (o' # later) ((s, Value) # rest) = Some (o', later, s, rest)"
    using assms(3) by (cases rest) (auto simp: is_option_def split: arg_word.splits prod.splits)
  then show ?thesis
    using take_action_readable [OF assms(1), of "ps\<lparr>as_pending := later\<rparr>"] assms(2)
    by (subst parse_items_other) (simp_all add: is_option_def)
qed

text \<open>A command line that spells each setting is read as exactly those settings over the defaults.\<close>

lemma parse_spelled:
  assumes ok: "parser_ok p" and ops: "map fst operands = filter (\<lambda>o'. ao_names o' = []) p" "length operands \<le> 1"
    and given: "\<forall>(o', s) \<in> set operands. readable to_float (o', s) \<and> s \<noteq> [] \<and> hd s \<noteq> CHR ''-''"
    and settings: "\<forall>(o', s) \<in> set settings. o' \<in> set p \<and> ao_names o' \<noteq> [] \<and> readable to_float (o', s)"
    and required: "\<forall>o' \<in> set p. ao_required o' \<longrightarrow> ao_dest o' \<in> (ao_dest \<circ> fst) ` set (operands @ settings)"
  shows "parse_args p to_float (map snd operands @ map assignment settings) =
    Inr (fold (\<lambda>setting. AList.update (ao_dest (fst setting)) (value_of to_float setting)) (operands @ settings) (as_values (initial_state p)))"
proof -
  have words: "classify p (map assignment settings) = Inr (map assignment_word settings)"
    by (rule classify_assignments [OF ok settings])
  have each: "\<forall>setting \<in> set settings. readable to_float setting" using settings by auto
  have head: "map assignment_word settings = [] \<or> is_option (hd (map assignment_word settings))"
    by (cases settings) (simp_all add: assignment_word_def is_option_def)
  obtain items where items: "classify p (map snd operands @ map assignment settings) = Inr items"
    and run: "parse_items to_float items (initial_state p) = Inr (fold (store to_float) (operands @ settings)
      ((initial_state p)\<lparr>as_pending := []\<rparr>))"
  proof (cases operands)
    case Nil
    then have "initial_state p = (initial_state p)\<lparr>as_pending := []\<rparr>" using ops(1) by (simp add: initial_state_def)
    with parse_settings [OF each, of "initial_state p"] words Nil that show ?thesis by simp
  next
    case (Cons op rest)
    then obtain o' s where op: "operands = [(o', s)]" using ops(2) by (cases op) simp
    have text_ok: "readable to_float (o', s)" "s \<noteq> []" "hd s \<noteq> CHR ''-''" using given op by auto
    then have "s \<noteq> ''--''" by auto
    then have "classify p (map snd operands @ map assignment settings) = Inr ((s, Value) # map assignment_word settings)"
      using parse_operand [OF text_ok(2,3)] words by (simp add: op)
    moreover have "as_pending (initial_state p) = o' # []" using ops(1) op by (simp add: initial_state_def)
    ultimately show ?thesis
      using parse_items_operand [OF text_ok(1) _ head] parse_settings [OF each] that by (simp add: op)
  qed
  let ?final = "fold (store to_float) (operands @ settings) ((initial_state p)\<lparr>as_pending := []\<rparr>)"
  note final = fold_store [of to_float "operands @ settings" "(initial_state p)\<lparr>as_pending := []\<rparr>"]
  have "filter (\<lambda>o'. ao_required o' \<and> ao_dest o' \<notin> set (as_seen ?final)) p = []"
    using required final by (auto simp: filter_empty_conv initial_state_def)
  moreover have "as_extras ?final = []" using final by (simp add: initial_state_def)
  moreover have "as_values ?final = fold (\<lambda>setting. AList.update (ao_dest (fst setting)) (value_of to_float setting)) (operands @ settings)
      (as_values (initial_state p))" using final by simp
  ultimately show ?thesis by (simp only: parse_args_def items run finish_def Let_def and_then_def sum.case) simp
qed

end
