(* ===== verification/ToolArgs.thy ===== *)
theory ToolArgs
  imports Argparse NetconfTool TransferTool SmokeTool Xpon
begin

text \<open>
  The command lines of the four tools: \<open>parse_args\<close> of each file under \<open>tools/\<close> as a table of \<open>Argparse\<close>, the reading
  of its attributes into the record that the tool's model starts from, and each command from its \<open>argv\<close> on. The text
  of \<open>--version\<close> (program and package version) is a parameter, as is \<open>float(text)\<close>.
\<close>

section \<open>Tables\<close>

definition default_max_download_bytes :: int where "default_max_download_bytes = 50 * 1024 * 1024"

definition netconf_operations :: "string list" where
  "netconf_operations = [''connect'', ''get'', ''get-config'', ''edit-config'']"

definition smoke_parser :: "string \<Rightarrow> arg_parser" where
  "smoke_parser version =
     [help_option,
      value_option ''--transport'' Text [''ssh'', ''serial'', ''telnet''] False PNone,
      text_option ''--catalog'', text_option ''--command-id'', text_option ''--env-node'', text_option ''--target-config'',
      text_option ''--target'',
      value_option ''--auth-profile'' Text [] False (PStr ''default''),
      text_option ''--node-key'', text_option ''--host'', text_option ''--username'', text_option ''--password-env'',
      append_option ''--param'',
      value_option ''--owner'' Text [] False (PStr ''cli-tool-readonly-smoke''),
      value_option ''--ssh-timeout'' Real [] False PNone,
      value_option ''--ssh-connect-attempts'' Whole [] False PNone,
      value_option ''--ssh-retry-backoff-seconds'' Real [] False PNone,
      text_option ''--known-hosts'', flag_option ''--allow-unknown-host-key'', text_option ''--serial-port'',
      value_option ''--baudrate'' Whole [] False PNone,
      value_option ''--serial-timeout'' Real [] False PNone,
      value_option ''--telnet-port'' Whole [] False PNone,
      value_option ''--telnet-timeout'' Real [] False PNone,
      flag_option ''--allow-insecure-telnet'', flag_option ''--include-output'',
      value_option ''--max-output-chars'' Whole [] False (PInt 20000),
      text_option ''--report-dir'', flag_option ''--no-report'', version_option version]"

definition transfer_parser :: "string \<Rightarrow> arg_parser" where
  "transfer_parser version =
     [help_option, operand ''operation'' [''list'', ''stat'', ''exists'', ''download''],
      value_option ''--protocol'' Text [''sftp'', ''ftps'', ''ftps-implicit'', ''ftp''] False (PStr ''sftp''),
      required_text ''--host'', value_option ''--port'' Whole [] False PNone, required_text ''--username'',
      text_option ''--password-env'', text_option ''--private-key'', text_option ''--private-key-passphrase-env'',
      value_option ''--timeout'' Real [] False (PFloat (Fin 15)),
      text_option ''--known-hosts'', flag_option ''--allow-unknown-host-key'', text_option ''--ca-file'',
      flag_option ''--allow-unverified-tls'', flag_option ''--allow-insecure-ftp'', flag_option ''--active-mode'',
      flag_option ''--allow-legacy-listing'',
      value_option ''--legacy-list-format'' Text [''unix''] False PNone,
      value_option ''--remote-root'' Text [] False (PStr ''/''), value_option ''--remote-path'' Text [] False (PStr ''.''),
      text_option ''--local-path'',
      value_option ''--max-download-bytes'' Whole [] False (PInt default_max_download_bytes),
      flag_option ''--overwrite'', flag_option ''--include-paths'',
      value_option ''--report-dir'' Text [] False (PStr ''reports/cli-tool-transfer''),
      flag_option ''--no-report'', version_option version]"

definition netconf_parser :: "string \<Rightarrow> arg_parser" where
  "netconf_parser version =
     [help_option, operand ''operation'' netconf_operations,
      required_text ''--host'', value_option ''--port'' Whole [] False (PInt default_netconf_port), text_option ''--username'',
      value_option ''--password-env'' Text [] False (PStr ''CLI_TOOL_NETCONF_PASSWORD''),
      value_option ''--timeout'' Real [] False (PFloat (Fin 15)),
      text_option ''--host-key-fingerprint'', flag_option ''--allow-unknown-host-key'',
      value_option ''--datastore'' Text (sort allowed_datastores) False PNone,
      text_option ''--filter-file'', text_option ''--edit-config-file'', text_option ''--node-key'', text_option ''--confirm-node'',
      text_option ''--confirm-host'', flag_option ''--run-mutating'', flag_option ''--finalize-commit'',
      value_option ''--confirm-timeout-seconds'' Real [] False PNone,
      text_option ''--verify-filter-file'', flag_option ''--include-output'',
      value_option ''--max-output-chars'' Whole [] False (PInt 20000),
      value_option ''--report-dir'' Text [] False (PStr ''reports/cli-tool-netconf''),
      flag_option ''--no-report'', version_option version]"

definition xpon_parser :: arg_parser where
  "xpon_parser =
     [help_option, required_text ''--device-family'', required_text ''--node-key'', required_text ''--host'',
      required_text ''--confirm-node'', required_text ''--confirm-host'',
      value_option ''--slot'' Whole [] True PNone, value_option ''--port'' Whole [] True PNone,
      value_option ''--report-dir'' Text [] False (PStr ''reports/xpon-remediation''), flag_option ''--run-mutating'']"

section \<open>Attributes\<close>

definition attribute :: "namespace \<Rightarrow> string \<Rightarrow> pyval" where
  "attribute ns dest = (case dict_get ns dest of Some v \<Rightarrow> v | None \<Rightarrow> PNone)"

fun optional_text :: "pyval \<Rightarrow> string option" where
  "optional_text (PStr s) = Some s"
| "optional_text v = None"

fun optional_int :: "pyval \<Rightarrow> int option" where
  "optional_int (PInt i) = Some i"
| "optional_int v = None"

fun optional_real :: "pyval \<Rightarrow> pyfloat option" where
  "optional_real (PFloat x) = Some x"
| "optional_real v = None"

fun text_list :: "pyval \<Rightarrow> string list" where
  "text_list (PList vs) = List.map_filter optional_text vs"
| "text_list v = []"

definition text_attribute :: "namespace \<Rightarrow> string \<Rightarrow> string" where
  "text_attribute ns dest = text_of (optional_text (attribute ns dest))"

definition int_attribute :: "namespace \<Rightarrow> string \<Rightarrow> int" where
  "int_attribute ns dest = (case optional_int (attribute ns dest) of Some i \<Rightarrow> i | None \<Rightarrow> 0)"

definition flag_attribute :: "namespace \<Rightarrow> string \<Rightarrow> bool" where
  "flag_attribute ns dest = (attribute ns dest = PBool True)"

definition smoke_args_of :: "namespace \<Rightarrow> smoke_args" where
  "smoke_args_of ns =
     (let t = (\<lambda>dest. optional_text (attribute ns dest)); i = (\<lambda>dest. optional_int (attribute ns dest));
          r = (\<lambda>dest. optional_real (attribute ns dest)) in
      \<lparr>ma_transport = t ''transport'', ma_catalog = t ''catalog'', ma_command_id = t ''command_id'', ma_env_node = t ''env_node'',
       ma_target_config = t ''target_config'', ma_target = t ''target'', ma_auth_profile = text_attribute ns ''auth_profile'',
       ma_node_key = t ''node_key'', ma_host = t ''host'', ma_username = t ''username'', ma_password_env = t ''password_env'',
       ma_params = text_list (attribute ns ''param''), ma_owner = text_attribute ns ''owner'', ma_ssh_timeout = r ''ssh_timeout'',
       ma_ssh_attempts = i ''ssh_connect_attempts'', ma_ssh_backoff = r ''ssh_retry_backoff_seconds'',
       ma_known_hosts = t ''known_hosts'', ma_allow_unknown = flag_attribute ns ''allow_unknown_host_key'',
       ma_serial_port = t ''serial_port'', ma_baudrate = i ''baudrate'', ma_serial_timeout = r ''serial_timeout'',
       ma_telnet_port = i ''telnet_port'', ma_telnet_timeout = r ''telnet_timeout'',
       ma_allow_telnet = flag_attribute ns ''allow_insecure_telnet'', ma_include_output = flag_attribute ns ''include_output'',
       ma_max_output = int_attribute ns ''max_output_chars'', ma_report_dir = t ''report_dir'',
       ma_no_report = flag_attribute ns ''no_report''\<rparr>)"

text \<open>\<open>None\<close> for the timeouts that the transfer model leaves out: an infinite one, or one that is not a number.\<close>

definition transfer_args_of :: "namespace \<Rightarrow> transfer_args option" where
  "transfer_args_of ns =
     (let t = (\<lambda>dest. optional_text (attribute ns dest)); i = (\<lambda>dest. optional_int (attribute ns dest)) in
      case attribute ns ''timeout'' of
        PFloat (Fin seconds) \<Rightarrow> Some
          \<lparr>ta_operation = text_attribute ns ''operation'', ta_protocol = text_attribute ns ''protocol'', ta_host = text_attribute ns ''host'',
           ta_port = i ''port'', ta_username = text_attribute ns ''username'', ta_password_env = t ''password_env'',
           ta_private_key = t ''private_key'', ta_passphrase_env = t ''private_key_passphrase_env'', ta_timeout = seconds,
           ta_known_hosts = t ''known_hosts'', ta_allow_unknown = flag_attribute ns ''allow_unknown_host_key'', ta_ca_file = t ''ca_file'',
           ta_allow_unverified = flag_attribute ns ''allow_unverified_tls'', ta_allow_insecure = flag_attribute ns ''allow_insecure_ftp'',
           ta_active = flag_attribute ns ''active_mode'', ta_allow_legacy = flag_attribute ns ''allow_legacy_listing'',
           ta_legacy_format = t ''legacy_list_format'', ta_remote_root = text_attribute ns ''remote_root'',
           ta_remote_path = text_attribute ns ''remote_path'', ta_local_path = t ''local_path'',
           ta_max_bytes = int_attribute ns ''max_download_bytes'', ta_overwrite = flag_attribute ns ''overwrite'',
           ta_include_paths = flag_attribute ns ''include_paths'', ta_report_dir = text_attribute ns ''report_dir'',
           ta_no_report = flag_attribute ns ''no_report''\<rparr>
      | _ \<Rightarrow> None)"

definition netconf_args_of :: "namespace \<Rightarrow> netconf_args" where
  "netconf_args_of ns =
     (let t = (\<lambda>dest. optional_text (attribute ns dest)) in
      \<lparr>na_operation = text_attribute ns ''operation'', na_host = text_attribute ns ''host'', na_port = int_attribute ns ''port'',
       na_username = t ''username'', na_password_env = text_attribute ns ''password_env'',
       na_timeout = (case optional_real (attribute ns ''timeout'') of Some x \<Rightarrow> x | None \<Rightarrow> NotANumber),
       na_fingerprint = t ''host_key_fingerprint'', na_allow_unknown = flag_attribute ns ''allow_unknown_host_key'',
       na_datastore = t ''datastore'', na_filter_file = t ''filter_file'', na_edit_config_file = t ''edit_config_file'',
       na_node_key = t ''node_key'', na_confirm_node = t ''confirm_node'', na_confirm_host = t ''confirm_host'',
       na_run_mutating = flag_attribute ns ''run_mutating'', na_finalize = flag_attribute ns ''finalize_commit'',
       na_confirm_timeout = optional_real (attribute ns ''confirm_timeout_seconds''), na_verify_filter_file = t ''verify_filter_file'',
       na_include_output = flag_attribute ns ''include_output'', na_max_output = int_attribute ns ''max_output_chars'',
       na_report_dir = text_attribute ns ''report_dir'', na_no_report = flag_attribute ns ''no_report''\<rparr>)"

definition xpon_args_of :: "namespace \<Rightarrow> xpon_args" where
  "xpon_args_of ns =
     \<lparr>xa_device_family = text_attribute ns ''device_family'', xa_node_key = text_attribute ns ''node_key'',
      xa_host = text_attribute ns ''host'', xa_confirm_node = text_attribute ns ''confirm_node'',
      xa_confirm_host = text_attribute ns ''confirm_host'', xa_slot = int_attribute ns ''slot'', xa_port = int_attribute ns ''port'',
      xa_report_dir = text_attribute ns ''report_dir'', xa_run_mutating = flag_attribute ns ''run_mutating''\<rparr>"

section \<open>Commands\<close>

text \<open>A command from its command line: the exit of the parser, or the outcome of the tool.\<close>

definition from_command_line ::
  "arg_parser \<Rightarrow> (string \<Rightarrow> pyfloat option) \<Rightarrow> (namespace \<Rightarrow> ('s, 'a) act) \<Rightarrow> string list \<Rightarrow> 's \<Rightarrow> (arg_exit + 'a result) \<times> 's" where
  "from_command_line p to_float run argv s =
     (case parse_args p to_float argv of
        Inl e \<Rightarrow> (Inl e, s)
      | Inr ns \<Rightarrow> (case run ns s of (r, s') \<Rightarrow> (Inr r, s')))"

definition smoke_command ::
  "string \<Rightarrow> (string \<Rightarrow> pyfloat option) \<Rightarrow> smoke_env \<Rightarrow> string list \<Rightarrow> device_world transfer_world \<Rightarrow>
     (arg_exit + (int \<times> pyval) result) \<times> device_world transfer_world" where
  "smoke_command version to_float env = from_command_line (smoke_parser version) to_float (\<lambda>ns. run_smoke env (smoke_args_of ns))"

definition netconf_command ::
  "string \<Rightarrow> (string \<Rightarrow> pyfloat option) \<Rightarrow> tool_env \<Rightarrow> 'w netconf_env \<Rightarrow> string list \<Rightarrow> 'w net transfer_world \<Rightarrow>
     (arg_exit + (int \<times> pyval) result) \<times> 'w net transfer_world" where
  "netconf_command version to_float env server =
     from_command_line (netconf_parser version) to_float (\<lambda>ns. netconf_main env server (netconf_args_of ns))"

definition transfer_command ::
  "string \<Rightarrow> (string \<Rightarrow> pyfloat option) \<Rightarrow> (namespace \<Rightarrow> (('e sftp_client \<times> 'f ftp_client) transfer_world, int \<times> pyval) act) \<Rightarrow>
     ('e, 'f) transfer_env \<Rightarrow> string list \<Rightarrow> ('e sftp_client \<times> 'f ftp_client) transfer_world \<Rightarrow>
     (arg_exit + (int \<times> pyval) result) \<times> ('e sftp_client \<times> 'f ftp_client) transfer_world" where
  "transfer_command version to_float other env =
     from_command_line (transfer_parser version) to_float (\<lambda>ns.
       case transfer_args_of ns of Some args \<Rightarrow> run_transfer env args | None \<Rightarrow> other ns)"

definition xpon_command ::
  "(string \<Rightarrow> pyfloat option) \<Rightarrow> xpon_env \<Rightarrow> string list \<Rightarrow> disk \<Rightarrow> (arg_exit + (int \<times> pyval) result) \<times> disk" where
  "xpon_command to_float env = from_command_line xpon_parser to_float (\<lambda>ns. xpon_main env (xpon_args_of ns))"

section \<open>Lemmas\<close>

definition tool_parsers :: "string \<Rightarrow> arg_parser list" where
  "tool_parsers version = [smoke_parser version, transfer_parser version, netconf_parser version, xpon_parser]"

lemma tool_parsers_ok: "p \<in> set (tool_parsers version) \<Longrightarrow> parser_ok p \<and> length (filter (\<lambda>o'. ao_names o' = []) p) \<le> 1"
proof -
  have "parser_ok (smoke_parser version)" "parser_ok (transfer_parser version)" "parser_ok (netconf_parser version)" "parser_ok xpon_parser"
    by code_simp+
  moreover have "length (filter (\<lambda>o'. ao_names o' = []) (smoke_parser version)) = 0" "length (filter (\<lambda>o'. ao_names o' = []) xpon_parser) = 0"
    "length (filter (\<lambda>o'. ao_names o' = []) (transfer_parser version)) = 1"
    "length (filter (\<lambda>o'. ao_names o' = []) (netconf_parser version)) = 1"
    by code_simp+
  moreover assume "p \<in> set (tool_parsers version)"
  ultimately show ?thesis by (auto simp: tool_parsers_def)
qed

lemma fold_update_other:
  "d \<notin> f ` set xs \<Longrightarrow> dict_get (fold (\<lambda>x. AList.update (f x) (g x)) xs ns) d = dict_get ns d"
  by (induction xs arbitrary: ns) (auto simp: dict_get_update)

lemma fold_update_get:
  "distinct (map f xs) \<Longrightarrow> x \<in> set xs \<Longrightarrow> dict_get (fold (\<lambda>x. AList.update (f x) (g x)) xs ns) (f x) = Some (g x)"
  by (induction xs arbitrary: ns) (auto simp: fold_update_other dict_get_update)

text \<open>A flag of a tool, and how short its abbreviation can be.\<close>

lemma flag_attribute_given:
  assumes "parse_args p to_float argv = Inr ns" and "flag_attribute ns dest"
    and "dict_get (as_values (initial_state p)) dest = Some (PBool False)"
    and "list_all (\<lambda>o'. ao_dest o' = dest \<longrightarrow> ao_names o' = [name] \<and> \<not> takes_argument o') p"
    and "list_all (\<lambda>k. length (filter (\<lambda>m. starts_with (take k name) m) (map snd (option_strings p))) \<noteq> 1 \<and> take k name \<noteq> name) [0..<n]"
  shows "\<exists>a \<in> set argv. starts_with (take n name) a \<and> starts_with a name"
proof -
  have "dict_get ns dest = Some (PBool True)"
    using assms(2) by (auto simp: flag_attribute_def attribute_def split: option.splits)
  from flag_given [OF assms(1) this] assms(3,4) obtain a where a: "a \<in> set argv" "abbreviates p a name"
    by (auto simp: list_all_iff)
  have prefix: "a = take (length a) name" using abbreviates_prefix [OF a(2)] by (simp add: starts_with_def)
  have "\<not> length a < n"
  proof
    assume "length a < n"
    then have "length (filter (\<lambda>m. starts_with (take (length a) name) m) (map snd (option_strings p))) \<noteq> 1 \<and> take (length a) name \<noteq> name"
      using assms(5) unfolding list_all_iff set_upt by fastforce
    then have "length (filter (\<lambda>m. starts_with a m) (map snd (option_strings p))) \<noteq> 1 \<and> a \<noteq> name"
      by (simp only: prefix [symmetric]) simp
    moreover have "filter (\<lambda>m. starts_with a m) (map snd (option_strings p)) = [name]"
      using a(2) calculation unfolding abbreviates_def by blast
    ultimately show False by simp
  qed
  then have "starts_with (take n name) a" by (subst prefix) (simp add: starts_with_def min_def)
  with a(1) abbreviates_prefix [OF a(2)] show ?thesis by blast
qed

lemma run_mutating_flag:
  assumes "parse_args (netconf_parser version) to_float argv = Inr ns" and "flag_attribute ns ''run_mutating''"
  shows "\<exists>a \<in> set argv. starts_with ''--ru'' a \<and> starts_with a ''--run-mutating''"
proof -
  let ?p = "netconf_parser version"
  have "dict_get (as_values (initial_state ?p)) ''run_mutating'' = Some (PBool False)" by code_simp
  moreover have "list_all (\<lambda>o'. ao_dest o' = ''run_mutating'' \<longrightarrow> ao_names o' = [''--run-mutating''] \<and> \<not> takes_argument o') ?p" by code_simp
  moreover have "list_all (\<lambda>k. length (filter (\<lambda>m. starts_with (take k ''--run-mutating'') m) (map snd (option_strings ?p))) \<noteq> 1 \<and>
      take k ''--run-mutating'' \<noteq> ''--run-mutating'') [0..<4]" by code_simp
  ultimately show ?thesis using flag_attribute_given [OF assms] by fastforce
qed

lemma telnet_flag:
  assumes "parse_args (smoke_parser version) to_float argv = Inr ns" and "flag_attribute ns ''allow_insecure_telnet''"
  shows "\<exists>a \<in> set argv. starts_with ''--allow-i'' a \<and> starts_with a ''--allow-insecure-telnet''"
proof -
  let ?p = "smoke_parser version"
  have "dict_get (as_values (initial_state ?p)) ''allow_insecure_telnet'' = Some (PBool False)" by code_simp
  moreover have "list_all (\<lambda>o'. ao_dest o' = ''allow_insecure_telnet'' \<longrightarrow> ao_names o' = [''--allow-insecure-telnet''] \<and> \<not> takes_argument o') ?p" by code_simp
  moreover have "list_all (\<lambda>k. length (filter (\<lambda>m. starts_with (take k ''--allow-insecure-telnet'') m) (map snd (option_strings ?p))) \<noteq> 1 \<and>
      take k ''--allow-insecure-telnet'' \<noteq> ''--allow-insecure-telnet'') [0..<9]" by code_simp
  ultimately show ?thesis using flag_attribute_given [OF assms] by fastforce
qed

lemma ftp_flag:
  assumes "parse_args (transfer_parser version) to_float argv = Inr ns" and "flag_attribute ns ''allow_insecure_ftp''"
  shows "\<exists>a \<in> set argv. starts_with ''--allow-i'' a \<and> starts_with a ''--allow-insecure-ftp''"
proof -
  let ?p = "transfer_parser version"
  have "dict_get (as_values (initial_state ?p)) ''allow_insecure_ftp'' = Some (PBool False)" by code_simp
  moreover have "list_all (\<lambda>o'. ao_dest o' = ''allow_insecure_ftp'' \<longrightarrow> ao_names o' = [''--allow-insecure-ftp''] \<and> \<not> takes_argument o') ?p" by code_simp
  moreover have "list_all (\<lambda>k. length (filter (\<lambda>m. starts_with (take k ''--allow-insecure-ftp'') m) (map snd (option_strings ?p))) \<noteq> 1 \<and>
      take k ''--allow-insecure-ftp'' \<noteq> ''--allow-insecure-ftp'') [0..<9]" by code_simp
  ultimately show ?thesis using flag_attribute_given [OF assms] by fastforce
qed

section \<open>Properties\<close>



lemma command_ran:
  assumes "from_command_line p to_float run argv w = (x, w')"
  shows "(\<exists>e. x = Inl e \<and> w' = w) \<or> (\<exists>ns r. parse_args p to_float argv = Inr ns \<and> run ns w = (r, w') \<and> x = Inr r)"
  using assms by (auto simp: from_command_line_def split: sum.splits prod.splits)

text \<open>C10. From its command line on, the NETCONF command makes an exchange other than connecting, reading and closing only
  when an argument spells \<open>--run-mutating\<close> (in full, or shortened down to \<open>--ru\<close>), the operation is
  \<open>edit-config\<close>, the confirmed node equals the node key and the confirmed host is the normal form of the host;
  without such an argument \<open>edit-config\<close> exchanges nothing at all, and a command line that the parser refuses
  changes nothing.\<close>

theorem netconf_command_gated:
  assumes "netconf_command version to_float env server argv w = (x, w')"
  shows "\<exists>t. trace (tw_remote w') = trace (tw_remote w) @ t \<and>
    (\<not> set t \<subseteq> quiet_exchanges \<longrightarrow>
       (\<exists>a \<in> set argv. starts_with ''--ru'' a \<and> starts_with a ''--run-mutating'') \<and>
       (\<exists>ns args h. parse_args (netconf_parser version) to_float argv = Inr ns \<and> args = netconf_args_of ns \<and>
          na_operation args = ''edit-config'' \<and> na_confirm_node args = na_node_key args \<and>
          na_confirm_host args = Some h \<and> normal_ip (na_host args) = Some h)) \<and>
    (\<forall>ns. parse_args (netconf_parser version) to_float argv = Inr ns \<and> na_operation (netconf_args_of ns) = ''edit-config'' \<and>
       \<not> (\<exists>a \<in> set argv. starts_with ''--ru'' a \<and> starts_with a ''--run-mutating'') \<longrightarrow> t = []) \<and>
    ((\<exists>e. x = Inl e) \<longrightarrow> w' = w)"
proof -
  from command_ran [OF assms [unfolded netconf_command_def]]
  consider e where "x = Inl e" "w' = w"
    | ns r where "parse_args (netconf_parser version) to_float argv = Inr ns"
      "netconf_main env server (netconf_args_of ns) w = (r, w')" "x = Inr r" by blast
  then show ?thesis
  proof cases
    case 1
    then show ?thesis by (intro exI [of _ "[]"]) simp
  next
    case (2 ns r)
    obtain t where t: "trace (tw_remote w') = trace (tw_remote w) @ t"
      and loud: "\<not> set t \<subseteq> quiet_exchanges \<longrightarrow> na_operation (netconf_args_of ns) = ''edit-config'' \<and> na_run_mutating (netconf_args_of ns) \<and>
        na_confirm_node (netconf_args_of ns) = na_node_key (netconf_args_of ns) \<and>
        (\<exists>h. na_confirm_host (netconf_args_of ns) = Some h \<and> normal_ip (na_host (netconf_args_of ns)) = Some h)"
      and dry: "na_operation (netconf_args_of ns) = ''edit-config'' \<and> \<not> na_run_mutating (netconf_args_of ns) \<longrightarrow> t = []"
      using netconf_tool_mutates_only_confirmed [OF 2(2)] by blast
    have flag: "\<exists>a \<in> set argv. starts_with ''--ru'' a \<and> starts_with a ''--run-mutating''" if "na_run_mutating (netconf_args_of ns)"
      using run_mutating_flag [OF 2(1)] that by (simp add: netconf_args_of_def Let_def)
    show ?thesis
    proof (intro exI [of _ t] conjI impI allI)
      show "trace (tw_remote w') = trace (tw_remote w) @ t" by (rule t)
      assume mutates: "\<not> set t \<subseteq> quiet_exchanges"
      with loud flag show "\<exists>a \<in> set argv. starts_with ''--ru'' a \<and> starts_with a ''--run-mutating''" by blast
      from mutates loud 2(1) show "\<exists>ns args h. parse_args (netconf_parser version) to_float argv = Inr ns \<and> args = netconf_args_of ns \<and>
          na_operation args = ''edit-config'' \<and> na_confirm_node args = na_node_key args \<and>
          na_confirm_host args = Some h \<and> normal_ip (na_host args) = Some h" by blast
    next
      fix ns'
      assume silent: "parse_args (netconf_parser version) to_float argv = Inr ns' \<and> na_operation (netconf_args_of ns') = ''edit-config'' \<and>
        \<not> (\<exists>a \<in> set argv. starts_with ''--ru'' a \<and> starts_with a ''--run-mutating'')"
      then have "ns' = ns" using 2(1) by simp
      with silent dry flag show "t = []" by blast
    qed (use 2(3) in blast)
  qed
qed

definition demo_argv :: "string list" where
  "demo_argv = [''edit-config'', ''--host=192.0.2.1'', ''--username=u'', ''--password-env=P'', ''--host-key-fingerprint=a2V5'',
     ''--edit-config-file=c.xml'', ''--node-key=n1'', ''--confirm-node=n1'', ''--confirm-host=192.0.2.1'', ''--ru'',
     ''--max-output-chars=10'', ''--report-dir=r'', ''--no-report'']"

lemma demo_argv_parsed: "\<exists>ns. parse_args (netconf_parser ''1'') (\<lambda>_. None) demo_argv = Inr ns \<and> netconf_args_of ns = demo_netconf_args False"
proof -
  have "(case parse_args (netconf_parser ''1'') (\<lambda>_. None) demo_argv of Inl _ \<Rightarrow> False
    | Inr ns \<Rightarrow> netconf_args_of ns = demo_netconf_args False)" by code_simp
  then show ?thesis by (auto split: sum.splits)
qed

text \<open>A run that commits, from its command line with the shortest flag.\<close>

lemma netconf_command_gated_witness:
  "\<exists>x w' t. netconf_command ''1'' (\<lambda>_. None) demo_tool_env demo_env demo_argv demo_netconf_world = (x, w') \<and>
     trace (tw_remote w') = trace (tw_remote demo_netconf_world) @ t \<and> Rpc (RpcLock ''candidate'') \<in> set t \<and>
     (\<exists>a \<in> set demo_argv. starts_with ''--ru'' a \<and> starts_with a ''--run-mutating'')"
proof -
  obtain ns where ns: "parse_args (netconf_parser ''1'') (\<lambda>_. None) demo_argv = Inr ns" "netconf_args_of ns = demo_netconf_args False"
    using demo_argv_parsed by blast
  obtain report where "netconf_run demo_tool_env demo_env (demo_netconf_args False) demo_netconf_world =
     (Inr (0, report), demo_netconf_world\<lparr>tw_remote := demo_executed False\<rparr>)" using demo_run by blast
  from main_run [OF this] ns have run: "netconf_command ''1'' (\<lambda>_. None) demo_tool_env demo_env demo_argv demo_netconf_world =
     (Inr (Inr (0, report)), demo_netconf_world\<lparr>tw_remote := demo_executed False\<rparr>)"
    by (simp add: netconf_command_def from_command_line_def)
  obtain t where t: "trace (demo_executed False) = trace (tw_remote demo_netconf_world) @ t"
    and loud: "\<not> set t \<subseteq> quiet_exchanges \<longrightarrow> (\<exists>a \<in> set demo_argv. starts_with ''--ru'' a \<and> starts_with a ''--run-mutating'')"
    using netconf_command_gated [OF run] by auto
  have "Rpc (RpcLock ''candidate'') \<in> set (trace (demo_executed False))" by code_simp
  moreover have "trace (tw_remote demo_netconf_world) = []" by (simp add: demo_netconf_world_def demo_net_def)
  ultimately have lock: "Rpc (RpcLock ''candidate'') \<in> set t" using t by simp
  then have "\<not> set t \<subseteq> quiet_exchanges" by (auto simp: quiet_exchanges_def)
  with run t lock loud show ?thesis by fastforce
qed

text \<open>C31. The plaintext protocols are chosen on the command line only: whatever the environment, the target file or the
  catalog say, the smoke command uses a device over Telnet only when an argument spells \<open>--allow-insecure-telnet\<close>
  (down to \<open>--allow-i\<close>), and the transfer command with \<open>--protocol ftp\<close> does nothing at all unless an argument
  spells \<open>--allow-insecure-ftp\<close>.\<close>

theorem plaintext_needs_flag:
  assumes "smoke_command version to_float env argv w = (x, w')"
    and "transfer_command version to_float other tenv targv tw = (tx, tw')"
  shows "(tw_remote w' \<noteq> tw_remote w \<longrightarrow>
      (\<exists>ns c. parse_args (smoke_parser version) to_float argv = Inr ns \<and> resolve_smoke_config env (smoke_args_of ns) = Inr c \<and>
        (st_transport (sm_target c) = ''telnet'' \<longrightarrow>
           (\<exists>a \<in> set argv. starts_with ''--allow-i'' a \<and> starts_with a ''--allow-insecure-telnet'')))) \<and>
    (\<forall>ns targs. parse_args (transfer_parser version) to_float targv = Inr ns \<and> transfer_args_of ns = Some targs \<and> ta_protocol targs = ''ftp'' \<and>
       \<not> (\<exists>a \<in> set targv. starts_with ''--allow-i'' a \<and> starts_with a ''--allow-insecure-ftp'') \<longrightarrow>
       tw' = tw \<and> (\<exists>e. tx = Inr (Inl e)))"
proof (intro conjI impI allI)
  assume changed: "tw_remote w' \<noteq> tw_remote w"
  with command_ran [OF assms(1) [unfolded smoke_command_def]] obtain ns r where
    ns: "parse_args (smoke_parser version) to_float argv = Inr ns" and run: "run_smoke env (smoke_args_of ns) w = (r, w')" by blast
  from run_smoke_device [OF run] changed obtain c where c: "resolve_smoke_config env (smoke_args_of ns) = Inr c" by blast
  have "\<exists>a \<in> set argv. starts_with ''--allow-i'' a \<and> starts_with a ''--allow-insecure-telnet''" if "st_transport (sm_target c) = ''telnet''"
    using telnet_flag [OF ns] resolved_transport(2) [OF c that] by (simp add: smoke_args_of_def Let_def)
  with ns c show "\<exists>ns c. parse_args (smoke_parser version) to_float argv = Inr ns \<and> resolve_smoke_config env (smoke_args_of ns) = Inr c \<and>
      (st_transport (sm_target c) = ''telnet'' \<longrightarrow>
         (\<exists>a \<in> set argv. starts_with ''--allow-i'' a \<and> starts_with a ''--allow-insecure-telnet''))" by blast
next
  fix ns targs
  assume given: "parse_args (transfer_parser version) to_float targv = Inr ns \<and> transfer_args_of ns = Some targs \<and> ta_protocol targs = ''ftp'' \<and>
    \<not> (\<exists>a \<in> set targv. starts_with ''--allow-i'' a \<and> starts_with a ''--allow-insecure-ftp'')"
  then have "\<not> flag_attribute ns ''allow_insecure_ftp''" using ftp_flag by blast
  then have "\<not> ta_allow_insecure targs" using given by (auto simp: transfer_args_of_def Let_def split: pyval.splits pyfloat.splits)
  then obtain e where e: "validate_transfer_args targs = Inl e" using plain_ftp_refused given by blast
  have "run_transfer tenv targs tw = (Inl e, tw)" unfolding run_transfer_def e lift_simps bnd_throw throw_def by simp
  then have "transfer_command version to_float other tenv targv tw = (Inr (Inl e), tw)"
    using given by (simp add: transfer_command_def from_command_line_def)
  then have "tx = Inr (Inl e) \<and> tw' = tw" using assms(2) by simp
  then show "tw' = tw" "\<exists>e. tx = Inr (Inl e)" by blast+
qed

definition demo_smoke_argv :: "string list" where
  "demo_smoke_argv = [''--transport=telnet'', ''--catalog'', ''c.yaml'', ''--node-key=n'', ''--host=h'', ''--username=u'', ''--owner=o'',
     ''--telnet-timeout=5'', ''--allow-i'', ''--no-report'']"

definition demo_transfer_argv :: "string list" where
  "demo_transfer_argv = [''--protocol'', ''ftp'', ''list'', ''--host=h'', ''--user=u'', ''--time=5'']"

definition five :: "string \<Rightarrow> pyfloat option" where "five s = (if s = ''5'' then Some (Fin 5) else None)"

lemma demo_smoke_argv_parsed:
  "\<exists>ns. parse_args (smoke_parser ''1'') five demo_smoke_argv = Inr ns \<and> smoke_args_of ns = demo_smoke_args ''c.yaml''"
proof -
  have "(case parse_args (smoke_parser ''1'') five demo_smoke_argv of Inl _ \<Rightarrow> False
    | Inr ns \<Rightarrow> smoke_args_of ns = demo_smoke_args ''c.yaml'')" by code_simp
  then show ?thesis by (auto split: sum.splits)
qed

lemma demo_transfer_argv_parsed:
  "\<exists>ns targs. parse_args (transfer_parser ''1'') five demo_transfer_argv = Inr ns \<and> transfer_args_of ns = Some targs \<and>
     ta_protocol targs = ''ftp''"
proof -
  have "(case parse_args (transfer_parser ''1'') five demo_transfer_argv of Inl _ \<Rightarrow> False
    | Inr ns \<Rightarrow> (case transfer_args_of ns of None \<Rightarrow> False | Some targs \<Rightarrow> ta_protocol targs = ''ftp''))" by code_simp
  then show ?thesis by (auto split: sum.splits option.splits)
qed

lemma plaintext_needs_flag_witness:
  "tw_remote (snd (smoke_command ''1'' five demo_smoke_env demo_smoke_argv demo_smoke_world)) \<noteq> tw_remote demo_smoke_world \<and>
   (\<exists>a \<in> set demo_smoke_argv. starts_with ''--allow-i'' a \<and> starts_with a ''--allow-insecure-telnet'') \<and>
   snd (transfer_command ''1'' five (\<lambda>_. throw (ValueError [])) demo_transfer_env demo_transfer_argv demo_transfer_world) = demo_transfer_world"
proof -
  let ?smoke = "smoke_command ''1'' five demo_smoke_env demo_smoke_argv demo_smoke_world"
  let ?transfer = "transfer_command ''1'' five (\<lambda>_. throw (ValueError [])) demo_transfer_env demo_transfer_argv demo_transfer_world"
  obtain ns where ns: "parse_args (smoke_parser ''1'') five demo_smoke_argv = Inr ns" "smoke_args_of ns = demo_smoke_args ''c.yaml''"
    using demo_smoke_argv_parsed by blast
  obtain shown where run: "run_smoke demo_smoke_env (demo_smoke_args ''c.yaml'') demo_smoke_world =
     (Inr (0, shown), demo_smoke_world\<lparr>tw_remote := snd demo_verify\<rparr>)" using demo_smoke_run by blast
  have "lk_sent (dw_link (snd demo_verify)) \<noteq> lk_sent (dw_link (tw_remote demo_smoke_world))" by code_simp
  then have "snd demo_verify \<noteq> tw_remote demo_smoke_world" by force
  moreover have "snd ?smoke = demo_smoke_world\<lparr>tw_remote := snd demo_verify\<rparr>"
    using run ns by (simp add: smoke_command_def from_command_line_def)
  ultimately have changed: "tw_remote (snd ?smoke) \<noteq> tw_remote demo_smoke_world" by simp
  note both = plaintext_needs_flag [OF prod.collapse [symmetric] prod.collapse [symmetric], where version = "''1''" and to_float = five
    and env = demo_smoke_env and argv = demo_smoke_argv and w = demo_smoke_world and other = "\<lambda>_. throw (ValueError [])"
    and tenv = demo_transfer_env and targv = demo_transfer_argv and tw = demo_transfer_world]
  have "st_transport (sm_target demo_smoke_config) = ''telnet''" by code_simp
  with both changed ns demo_smoke_resolved(1)
  have "\<exists>a \<in> set demo_smoke_argv. starts_with ''--allow-i'' a \<and> starts_with a ''--allow-insecure-telnet''" by fastforce
  moreover have "\<not> (\<exists>a \<in> set demo_transfer_argv. starts_with ''--allow-i'' a \<and> starts_with a ''--allow-insecure-ftp'')" by code_simp
  then have "snd ?transfer = demo_transfer_world" using both demo_transfer_argv_parsed by blast
  ultimately show ?thesis using changed by blast
qed

end
