(* ===== verification/Spec2Isabelle.thy ===== *)
theory Spec2Isabelle
  imports Verify Catalog Loader LineCard Redaction Paths Netconf Telnet Serial SshSession Policy Xpon Sftp Ftp TokenProtocol SshPool ToolSupport NetconfTool TransferTool SmokeTool TokenProgress ToolArgs
begin

text \<open>
  A verification library for the repository's CLI device tool: transports that run commands on network devices
  (SSH, Telnet, serial, NETCONF), read-only file transfers (SFTP, FTP), a catalog of commands with checks of their
  output, plans for the mutating workflows, and the command line tools on top. Paths below are under \<open>src/\<close>.

  \<^bold>\<open>Conventions.\<close> A function that may raise returns \<open>exn + 'a\<close>. Code with effects is an \<open>act\<close>: a
  function from the state of everything outside it to a result and a new state. Each \<open>raise\<close>, early return and
  \<open>try\<close> of the source is a branch. Text is a list of characters, each the code point of its number, so text is
  Latin-1; bytes are characters as well. A finite float is an exact rational. A dictionary is an association list
  in insertion order.

  \<^bold>\<open>The layers and their theories.\<close>
  \<^item> Foundations. \<open>Prelude\<close>: exceptions, results, dictionaries. \<open>PyText\<close>, \<open>PyRegex\<close>, \<open>PyBytes\<close>, \<open>PyValue\<close>,
    \<open>Json\<close>, \<open>IpAddress\<close>: what the source uses of Python's standard library. \<open>Effects\<close>: sequencing, \<open>try\<close>
    statements, loops, and the rules for partial correctness (\<open>triple\<close>) and invariants (\<open>keeps\<close>).
    \<open>LocalFs\<close>: the local file system with a script of faults. \<open>Argparse\<close>: the part of Python 3.11's
    \<open>argparse\<close> that the tools use.
  \<^item> Commands and their output. \<open>Catalog\<close>: \<open>cli_tool/catalog/models.py\<close>, \<open>devices/base.py\<close>,
    \<open>devices/registry.py\<close>, \<open>workflows/driver_verify.py\<close>. \<open>Loader\<close>: \<open>catalog/loader.py\<close>. \<open>Verify\<close>: \<open>models.py\<close>,
    \<open>parsers/text_tokens.py\<close>, \<open>workflows/verify.py\<close>, and \<open>transport/base.py\<close> as the locale \<open>cli_transport\<close>: a run
    that returns answers every command, in order. \<open>LineCard\<close>: \<open>parsers/line_card_status.py\<close>,
    \<open>workflows/line_card_preflight.py\<close>.
  \<^item> Transports. \<open>Readiness\<close>: \<open>transport/readiness.py\<close>. \<open>LineSession\<close>: the session engine that
    \<open>transport/telnet.py\<close>, \<open>transport/serial.py\<close> and \<open>transport/ssh.py\<close> repeat, with the locale
    \<open>session_invariant\<close> for what a session may write. \<open>Telnet\<close>, \<open>Serial\<close>, \<open>SshSession\<close> (with
    \<open>ssh_host_keys.py\<close>) instantiate it. \<open>SshPool\<close>: the pools of \<open>ssh.py\<close> and \<open>ssh_adapter.py\<close>.
    \<open>Tokens\<close>, \<open>TokenProgress\<close>, \<open>TokenProtocol\<close>: \<open>FileTokenSemaphore\<close>, in one process, its progress, and as
    a step relation of several processes that refines a table of leases. Telnet, serial and SSH are each an
    interpretation of \<open>cli_transport\<close>. \<open>Netconf\<close>: \<open>transport/netconf.py\<close> on a server that is a parameter, with
    the abstract server of RFC 6241's candidate and confirmed commit for the theorems about datastores.
  \<^item> Transfers. \<open>Paths\<close>: \<open>transfer/paths.py\<close>. \<open>FileTransfer\<close>: \<open>transfer/models.py\<close>, \<open>reporting/transfer.py\<close>,
    and the download that both clients repeat, over the locale \<open>byte_source\<close>. \<open>Sftp\<close>, \<open>Ftp\<close> (with the parsers in
    \<open>FtpParse\<close>) interpret it.
  \<^item> Safety and plans. \<open>Redaction\<close>: \<open>reporting/redaction.py\<close>. \<open>Policy\<close>: \<open>safety/policy.py\<close>. \<open>Xpon\<close>:
    \<open>workflows/xpon_remediation.py\<close> and \<open>tools/cli_tool_xpon_plan.py\<close>.
  \<^item> Tools. \<open>ToolSupport\<close>: environment, files and reports of the tools. \<open>NetconfTool\<close>:
    \<open>tools/cli_tool_netconf_test.py\<close>, \<open>workflows/netconf_edit.py\<close>. \<open>TransferTool\<close>:
    \<open>tools/cli_tool_readonly_transfer.py\<close> with \<open>transfer/base.py\<close> as the record \<open>file_transfer\<close> and its
    contract as the locale \<open>local_reader\<close>. \<open>SmokeTool\<close>: \<open>tools/cli_tool_readonly_smoke.py\<close>, which joins the
    loader, the driver workflow and the three terminal transports. \<open>ToolArgs\<close>: \<open>parse_args\<close> of the four tools as
    tables of \<open>Argparse\<close>, and each command from its \<open>argv\<close> to its exit code.

  \<^bold>\<open>What the theorems show.\<close>
  \<^item> Mutation. A confirmed commit stages in the candidate datastore, is confirmed before it is made permanent,
    and every run that does not finalize leaves the running datastore as it was; a pin mismatch ends before any
    authentication; the NETCONF command mutates only when node and host were confirmed on its command
    line; the xPON command is a plan and nothing else.
  \<^item> Reading. The driver workflow and the smoke command run only the commands of read-only specifications; what
    each transport may write is a fixed set; transfers only read below their root, a download is all or nothing,
    and no local file changes but those named by the arguments.
  \<^item> Meaning. A passing verification shows every expected token; the line-card parser reads every table that is
    printed in its format and misses no row of it; catalogs and MLST replies survive printing and reading.
  \<^item> Secrets. Reports are redacted at every depth; errors of the transfer command show a fixed text; plaintext
    protocols need their flag on the command line; FTPS protects its data channel before using it.
  \<^item> Command lines. Options written out in full are parsed back to the values they were written from.
  \<^item> Resources. SSH sessions never exceed the pool's bound, and a slot that becomes free is taken.

  \<^bold>\<open>Termination and bounds.\<close> No definition runs on fuel. Reading loops consume the script of their connection,
  which is finite: when it is exhausted nothing arrives and the deadline passes. The loop of the token semaphore is
  measured by the sleeps left before its deadline, the connection attempts by their number. The decoder and the
  parsers are recursive on their input.

  \<^bold>\<open>What is not modelled.\<close> The third-party packages paramiko, ncclient, pyserial and PyYAML, and the servers behind
  them, are parameters or scripts that may answer anything and fail anywhere; what a theorem needs of them is a
  hypothesis of it. The locks of the pool are taken as exclusive, so each of its operations is one step; its exit
  hook is \<open>pool_close_all\<close>. Directories of the local file system are not tracked. Left out are the texts of
  \<open>--version\<close>, package \<open>__init__\<close> files, the test fixture under \<open>examples/\<close>, and text outside Latin-1.
\<close>

end
